(* ===== verification/Qos_Prelude.thy ===== *)
theory Qos_Prelude
  imports Main "HOL-Library.Word"
begin

unbundle bit_operations_syntax

text \<open>
  Shared ground of the development: the machine integer types of the C code, the faults a
  kernel module can run into, pointers that may be NULL or dangling, the state-and-fault monad in
  which every operation of the module is written, and the generic lemmas on words and lists that
  the components share. Nothing here is specific to the mark table.
\<close>

section \<open>Types\<close>

type_synonym u8 = "8 word"
type_synonym u16 = "16 word"
type_synonym u32 = "32 word"

text \<open>
  What a kernel does not survive: a NULL or dangling dereference, an access outside an array, a
  division by zero, and taking a spinlock that the same path already holds.
\<close>

datatype fault = NullDeref | UseAfterFree | OutOfBounds | DivideByZero | Deadlock

text \<open>A pointer to an object with one owner: NULL, pointing to freed memory, or valid.\<close>

datatype 'a ptr = Null | Dangling | Ptr 'a

named_theorems kmonad \<open>unfolding rules of the monad's combinators on a state\<close>
named_theorems kspec \<open>equations that give an operation's result on a well-formed state\<close>
named_theorems kinv \<open>preservation of the invariants\<close>

section \<open>The state-and-fault monad\<close>

type_synonym ('s, 'a) km = "'s \<Rightarrow> fault + 'a \<times> 's"

definition ret :: "'a \<Rightarrow> ('s, 'a) km" where
  "ret x s = Inr (x, s)"

definition fail :: "fault \<Rightarrow> ('s, 'a) km" where
  "fail e s = Inl e"

definition bindM :: "('s, 'a) km \<Rightarrow> ('a \<Rightarrow> ('s, 'b) km) \<Rightarrow> ('s, 'b) km" where
  "bindM m f s = (case m s of Inl e \<Rightarrow> Inl e | Inr (x, t) \<Rightarrow> f x t)"

definition thenM :: "('s, 'a) km \<Rightarrow> ('s, 'b) km \<Rightarrow> ('s, 'b) km" where
  "thenM m n = bindM m (\<lambda>_. n)"

definition gets :: "('s \<Rightarrow> 'a) \<Rightarrow> ('s, 'a) km" where
  "gets f s = Inr (f s, s)"

definition modify :: "('s \<Rightarrow> 's) \<Rightarrow> ('s, unit) km" where
  "modify f s = Inr ((), f s)"

text \<open>C's \<open>if (b) { m }\<close> without an else branch.\<close>

definition whenM :: "bool \<Rightarrow> ('s, unit) km \<Rightarrow> ('s, unit) km" where
  "whenM b m = (if b then m else ret ())"

definition deref :: "('s \<Rightarrow> 'a ptr) \<Rightarrow> ('s, 'a) km" where
  "deref p s = (case p s of Null \<Rightarrow> Inl NullDeref | Dangling \<Rightarrow> Inl UseAfterFree | Ptr x \<Rightarrow> Inr (x, s))"

text \<open>A computation that touches no state but may fault.\<close>

definition of_sum :: "fault + 'a \<Rightarrow> ('s, 'a) km" where
  "of_sum r s = (case r of Inl e \<Rightarrow> Inl e | Inr x \<Rightarrow> Inr (x, s))"

text \<open>\<open>n\<close> times the same call, with the results in order.\<close>

primrec repeatM :: "nat \<Rightarrow> ('s, 'a) km \<Rightarrow> ('s, 'a list) km" where
  "repeatM 0 m = ret []"
| "repeatM (Suc n) m = bindM m (\<lambda>x. bindM (repeatM n m) (\<lambda>xs. ret (x # xs)))"

lemma ret_app [kmonad, simp]: "ret x s = Inr (x, s)"
  by (simp add: ret_def)

lemma fail_app [kmonad, simp]: "fail e s = Inl e"
  by (simp add: fail_def)

lemma of_sum_app [kmonad, simp]: "of_sum (Inr x) s = Inr (x, s)" "of_sum (Inl e) s = Inl e"
  by (simp_all add: of_sum_def)

lemma gets_app [kmonad, simp]: "gets f s = Inr (f s, s)"
  by (simp add: gets_def)

lemma modify_app [kmonad, simp]: "modify f s = Inr ((), f s)"
  by (simp add: modify_def)

lemma bindM_Inr [kmonad, simp]: "m s = Inr (x, t) \<Longrightarrow> bindM m f s = f x t"
  by (simp add: bindM_def)

lemma bindM_Inl [kmonad, simp]: "m s = Inl e \<Longrightarrow> bindM m f s = Inl e"
  by (simp add: bindM_def)

lemma bindM_ret: "bindM (ret x) f = f x"
  by (rule ext) simp

lemma thenM_Inr [kmonad, simp]: "m s = Inr (x, t) \<Longrightarrow> thenM m n s = n t"
  by (simp add: thenM_def)

lemma thenM_Inl [kmonad, simp]: "m s = Inl e \<Longrightarrow> thenM m n s = Inl e"
  by (simp add: thenM_def)

lemma whenM_simps [kmonad, simp]: "whenM True m = m" "whenM False m = ret ()"
  by (simp_all add: whenM_def)

lemma deref_Ptr [kmonad, simp]: "p s = Ptr x \<Longrightarrow> deref p s = Inr (x, s)"
  by (simp add: deref_def)

lemma deref_Null [kmonad, simp]: "p s = Null \<Longrightarrow> deref p s = Inl NullDeref"
  by (simp add: deref_def)

lemma deref_Dangling [kmonad, simp]: "p s = Dangling \<Longrightarrow> deref p s = Inl UseAfterFree"
  by (simp add: deref_def)

lemma bindM_eq_Inr:
  "bindM m f s = Inr z \<longleftrightarrow> (\<exists>x t. m s = Inr (x, t) \<and> f x t = Inr z)"
  by (auto simp: bindM_def split: sum.splits)

lemma thenM_eq_Inr:
  "thenM m n s = Inr z \<longleftrightarrow> (\<exists>x t. m s = Inr (x, t) \<and> n t = Inr z)"
  by (simp add: thenM_def bindM_eq_Inr)

text \<open>
  Partial-correctness framing: \<open>keeps R m\<close> says that whenever \<open>m\<close> returns, the relation
  \<open>R\<close> holds between the state before and the state after.
\<close>

definition keeps :: "('s \<Rightarrow> 's \<Rightarrow> bool) \<Rightarrow> ('s, 'a) km \<Rightarrow> bool" where
  "keeps R m \<longleftrightarrow> (\<forall>s x t. m s = Inr (x, t) \<longrightarrow> R s t)"

lemma keepsI: "(\<And>s x t. m s = Inr (x, t) \<Longrightarrow> R s t) \<Longrightarrow> keeps R m"
  by (simp add: keeps_def)

lemma keepsD: "keeps R m \<Longrightarrow> m s = Inr (x, t) \<Longrightarrow> R s t"
  by (simp add: keeps_def)

lemma keeps_bindM:
  "transp R \<Longrightarrow> keeps R m \<Longrightarrow> (\<And>x. keeps R (f x)) \<Longrightarrow> keeps R (bindM m f)"
  unfolding keeps_def bindM_eq_Inr by (meson transpD)

lemma keeps_thenM:
  "transp R \<Longrightarrow> keeps R m \<Longrightarrow> keeps R n \<Longrightarrow> keeps R (thenM m n)"
  by (simp add: thenM_def keeps_bindM)

section \<open>Struct layouts\<close>

text \<open>
  The layout of a struct that two programs declare, member by member. The members here are multiples of
  four bytes and need no more alignment than that, so a struct has no padding.
\<close>

datatype ctype = U32 | Be32 | Chars nat

primrec sizeof_ctype :: "ctype \<Rightarrow> nat" where
  "sizeof_ctype U32 = 4"
| "sizeof_ctype Be32 = 4"
| "sizeof_ctype (Chars n) = n"

type_synonym cstruct = "(string \<times> ctype) list"

definition sizeof_cstruct :: "cstruct \<Rightarrow> nat" where
  "sizeof_cstruct ms = (\<Sum>f \<leftarrow> ms. sizeof_ctype (snd f))"

section \<open>Words\<close>

text \<open>
  The two mixing steps of the hash function lose no information: \<open>x ^ (x >> n)\<close> with
  \<open>0 < n\<close> can be undone from the top bit downwards, and multiplication by a unit can be undone.
\<close>

lemma xorshift_bits:
  fixes x y :: "'a::len word"
  assumes "x XOR drop_bit n x = y XOR drop_bit n y" and "0 < n"
  shows "bit x i = bit y i"
proof (induction "LENGTH('a) - i" arbitrary: i rule: less_induct)
  case less
  show ?case
  proof (cases "i < LENGTH('a)")
    case True
    then have "bit x (n + i) = bit y (n + i)"
      using \<open>0 < n\<close> by (intro less) simp
    moreover have "bit (x XOR drop_bit n x) i = bit (y XOR drop_bit n y) i"
      using assms(1) by simp
    ultimately show ?thesis
      by (auto simp: bit_xor_iff bit_drop_bit_eq)
  next
    case False
    then show ?thesis by (metis bit_imp_le_length)
  qed
qed

lemma xorshift_inj:
  fixes x y :: "'a::len word"
  assumes "x XOR drop_bit n x = y XOR drop_bit n y" and "0 < n"
  shows "x = y"
  using xorshift_bits[OF assms] by (rule bit_word_eqI)

lemma unit_mult_inj:
  fixes x y c d :: "'a::len word"
  assumes "c * x = c * y" and "d * c = 1"
  shows "x = y"
proof -
  have "x = d * (c * x)" by (simp add: assms(2) mult.assoc[symmetric])
  also have "\<dots> = d * (c * y)" by (simp add: assms(1))
  also have "\<dots> = y" by (simp add: assms(2) mult.assoc[symmetric])
  finally show ?thesis .
qed

lemma unat_of_nat_u32: "n < 2 ^ 32 \<Longrightarrow> unat (of_nat n :: u32) = n"
  by (simp add: unat_of_nat)

lemma u32_eq_of_nat: "unat w = n \<Longrightarrow> (w :: u32) = of_nat n"
  by (auto simp: of_nat_unat)

section \<open>Lists\<close>

lemma nth_in_concat:
  "i < length xss \<Longrightarrow> x \<in> set (xss ! i) \<Longrightarrow> x \<in> set (concat xss)"
  by (auto intro: nth_mem)

lemma concat_split:
  "i < length xss \<Longrightarrow> concat xss = concat (take i xss) @ xss ! i @ concat (drop (Suc i) xss)"
  by (metis concat.simps(2) concat_append id_take_nth_drop)

lemma concat_update:
  "i < length xss \<Longrightarrow> concat (xss[i := ys]) = concat (take i xss) @ ys @ concat (drop (Suc i) xss)"
  by (simp add: upd_conv_take_nth_drop)

lemma concat_cons_update:
  assumes "i < length xss"
  shows "set (concat (xss[i := x # xss ! i])) = insert x (set (concat xss))"
    "length (concat (xss[i := x # xss ! i])) = Suc (length (concat xss))"
    "distinct (concat (xss[i := x # xss ! i])) \<longleftrightarrow> x \<notin> set (concat xss) \<and> distinct (concat xss)"
  unfolding concat_update[OF assms] concat_split[OF assms] by auto

lemma concat_remove_update:
  assumes "i < length xss" and "x \<in> set (xss ! i)" and "distinct (concat xss)"
  shows "set (concat (xss[i := remove1 x (xss ! i)])) = set (concat xss) - {x}"
    "Suc (length (concat (xss[i := remove1 x (xss ! i)]))) = length (concat xss)"
    "distinct (concat (xss[i := remove1 x (xss ! i)]))"
proof -
  have "x \<in> set (concat xss)" using assms(1,2) by (rule nth_in_concat)
  moreover have "length (xss ! i) > 0" using assms(2) by auto
  ultimately show "set (concat (xss[i := remove1 x (xss ! i)])) = set (concat xss) - {x}"
    "Suc (length (concat (xss[i := remove1 x (xss ! i)]))) = length (concat xss)"
    "distinct (concat (xss[i := remove1 x (xss ! i)]))"
    using assms(2,3) unfolding concat_update[OF assms(1)] concat_split[OF assms(1)]
    by (auto simp: length_remove1 set_remove1_eq dest: set_mp[OF set_remove1_subset])
qed

lemma option_eqI: "(\<And>x. p = Some x \<longleftrightarrow> q = Some x) \<Longrightarrow> p = q"
  by (cases p; cases q) auto

lemma upd_Some_iff: "(m(a \<mapsto> v)) b = Some w \<longleftrightarrow> (b = a \<and> w = v) \<or> (b \<noteq> a \<and> m b = Some w)"
  by auto

lemma upd_None_iff: "(m(a := None)) b = Some w \<longleftrightarrow> b \<noteq> a \<and> m b = Some w"
  by auto

lemma restrict_UNIV: "m |` UNIV = m"
  by (simp add: restrict_map_def)

lemma set_list_update_iff:
  "i < length xs \<Longrightarrow> x \<in> set (xs[i := y]) \<longleftrightarrow> x = y \<or> (\<exists>j < length xs. j \<noteq> i \<and> xs ! j = x)"
  by (auto simp: set_conv_nth nth_list_update)

end
