(* ===== verification/Hash_Fn.thy ===== *)
theory Hash_Fn
  imports Qos_Prelude
begin

text \<open>
  \<open>hash_fn\<close> of \<open>kmod/qos_marktbl_main.c\<close>, the hash of the mark table. A key is the list of the
  bytes it occupies in memory and \<open>key_len\<close> the length the caller passes; reading past the end of
  the list is the fault the C code would commit. The table only ever hashes the four bytes of a
  \<open>marktbl_node_key_t\<close>, and on those the hash is a bijection of the 32-bit integers.
\<close>

section \<open>Definitions\<close>

text \<open>\<open>key[0] + (key[1] << 8) + (key[2] << 16) + (key[3] << 24)\<close>, in 32-bit arithmetic.\<close>

fun key_word :: "u8 list \<Rightarrow> fault + u32" where
  "key_word (k0 # k1 # k2 # k3 # _) =
     Inr (ucast k0 + push_bit 8 (ucast k1) + push_bit 16 (ucast k2) + push_bit 24 (ucast k3))"
| "key_word _ = Inl OutOfBounds"

text \<open>The six mixing statements both the loop and the block after it apply to \<open>a\<close>.\<close>

definition hash_mix :: "u32 \<Rightarrow> u32" where
  "hash_mix a0 =
    (let a1 = a0 + NOT (push_bit 15 a0);
         a2 = a1 XOR drop_bit 10 a1;
         a3 = a2 + push_bit 3 a2;
         a4 = a3 XOR drop_bit 6 a3;
         a5 = a4 + NOT (push_bit 11 a4)
     in a5 XOR drop_bit 16 a5)"

text \<open>
  The loop \<open>while (len >= 8)\<close>. Its statements interleave the mixing of \<open>a\<close> with the assembly
  of the next \<open>b\<close>, which do not depend on each other; the result is \<open>(a, b, key, len)\<close>.
\<close>

fun hash_loop :: "nat \<Rightarrow> u32 \<Rightarrow> u32 \<Rightarrow> u8 list \<Rightarrow> fault + (u32 \<times> u32 \<times> u8 list \<times> nat)" where
  "hash_loop len a b key =
    (if 8 \<le> len then
       (case key_word (drop 4 key) of
          Inl e \<Rightarrow> Inl e
        | Inr b' \<Rightarrow> hash_loop (len - 4) (hash_mix (a + b)) b' (drop 4 key))
     else Inr (a, b, key, len))"

declare hash_loop.simps [simp del]

text \<open>The final \<open>switch (len)\<close>, whose cases fall through.\<close>

definition hash_tail :: "nat \<Rightarrow> u32 \<Rightarrow> u8 list \<Rightarrow> fault + u32" where
  "hash_tail len a key =
    (if length key < len \<and> len \<le> 3 then Inl OutOfBounds
     else
       let a3 = (if len = 3 then a + push_bit 16 (ucast (key ! 2)) else a);
           a2 = (if len = 3 \<or> len = 2 then a3 XOR push_bit 8 (ucast (key ! 1)) else a3)
       in Inr (if len = 3 \<or> len = 2 \<or> len = 1 then a2 + ucast (key ! 0) else a2))"

definition hash_fn :: "u8 list \<Rightarrow> nat \<Rightarrow> fault + u32" where
  "hash_fn key key_len =
    (case (if 4 \<le> key_len then key_word key else Inr 0) of
       Inl e \<Rightarrow> Inl e
     | Inr b0 \<Rightarrow>
         (case hash_loop key_len (of_nat key_len) b0 key of
            Inl e \<Rightarrow> Inl e
          | Inr (a, b, key', len) \<Rightarrow>
              if 4 \<le> len then hash_tail (len - 4) (hash_mix (a + b)) key'
              else hash_tail len a key'))"

text \<open>
  The bytes of \<open>marktbl_node_key_t\<close>, whose only field is the \<open>__be32 src_ip\<close>, in the memory of a
  big-endian or of a little-endian machine.
\<close>

definition key_bytes :: "bool \<Rightarrow> u32 \<Rightarrow> u8 list" where
  "key_bytes big_endian src_ip =
    (let bs = [ucast src_ip, ucast (drop_bit 8 src_ip), ucast (drop_bit 16 src_ip),
               ucast (drop_bit 24 src_ip)]
     in if big_endian then rev bs else bs)"

section \<open>Lemmas\<close>

lemma key_word_Inr: "4 \<le> length key \<Longrightarrow> \<exists>w. key_word key = Inr w"
  by (cases key rule: key_word.cases) auto

lemma key_word_take: "take 4 key = take 4 key' \<Longrightarrow> key_word key = key_word key'"
  by (cases key rule: key_word.cases; cases key' rule: key_word.cases) (auto simp: numeral_eq_Suc)

lemma hash_mix_inj: "hash_mix x = hash_mix y \<Longrightarrow> x = y"
proof -
  have shift15: "u + NOT (push_bit 15 u) = - (32767 * u) - 1" for u :: u32
    by (simp add: push_bit_eq_mult not_eq_complement algebra_simps)
  have shift11: "u + NOT (push_bit 11 u) = - (2047 * u) - 1" for u :: u32
    by (simp add: push_bit_eq_mult not_eq_complement algebra_simps)
  have shift3: "u + push_bit 3 u = 9 * u" for u :: u32
    by (simp add: push_bit_eq_mult algebra_simps)
  have inj15: "- (32767 * u) - 1 = - (32767 * v) - 1 \<Longrightarrow> u = v" for u v :: u32
    by (rule unit_mult_inj[where c = 32767 and d = 3221192703]) simp_all
  have inj11: "- (2047 * u) - 1 = - (2047 * v) - 1 \<Longrightarrow> u = v" for u v :: u32
    by (rule unit_mult_inj[where c = 2047 and d = 4290770943]) simp_all
  have inj3: "9 * u = 9 * v \<Longrightarrow> u = v" for u v :: u32
    by (rule unit_mult_inj[where c = 9 and d = 954437177]) simp_all
  assume "hash_mix x = hash_mix y"
  then show ?thesis
    unfolding hash_mix_def Let_def shift15 shift11 shift3
    by (fastforce dest!: xorshift_inj inj15 inj11 inj3)
qed

lemma key_bytes_length [simp]: "length (key_bytes be ip) = 4"
  by (simp add: key_bytes_def Let_def)

lemma ucast_u8_inj:
  fixes x y :: u32
  assumes "(ucast x :: u8) = ucast y" "(ucast (drop_bit 8 x) :: u8) = ucast (drop_bit 8 y)"
    "(ucast (drop_bit 16 x) :: u8) = ucast (drop_bit 16 y)"
    "(ucast (drop_bit 24 x) :: u8) = ucast (drop_bit 24 y)"
  shows "x = y"
proof (rule bit_word_eqI)
  fix i :: nat
  assume "i < LENGTH(32)"
  then consider "i < 8" | "8 \<le> i" "i - 8 < 8" | "16 \<le> i" "i - 16 < 8" | "24 \<le> i" "i - 24 < 8"
    by fastforce
  then show "bit x i = bit y i"
  proof cases
    case 1
    then show ?thesis using arg_cong[OF assms(1), of "\<lambda>w. bit w i"] by (simp add: bit_simps)
  next
    case 2
    then show ?thesis using arg_cong[OF assms(2), of "\<lambda>w. bit w (i - 8)"] by (simp add: bit_simps)
  next
    case 3
    then show ?thesis using arg_cong[OF assms(3), of "\<lambda>w. bit w (i - 16)"] by (simp add: bit_simps)
  next
    case 4
    then show ?thesis using arg_cong[OF assms(4), of "\<lambda>w. bit w (i - 24)"] by (simp add: bit_simps)
  qed
qed

lemma key_bytes_inj: "key_bytes be x = key_bytes be y \<Longrightarrow> x = y"
  by (auto simp: key_bytes_def Let_def split: if_splits intro: ucast_u8_inj)

text \<open>Reading the four bytes back is injective: each byte lands in its own eight bits.\<close>

lemma key_word_bit:
  fixes k0 k1 k2 k3 :: u8
  defines "w \<equiv> (ucast k0 + push_bit 8 (ucast k1) + push_bit 16 (ucast k2) + push_bit 24 (ucast k3) :: u32)"
  shows "ucast w = k0" and "ucast (drop_bit 8 w) = k1" and "ucast (drop_bit 16 w) = k2"
    and "ucast (drop_bit 24 w) = k3"
proof -
  have bound: "bit k n \<Longrightarrow> n < 8" for k :: u8 and n
    using bit_imp_le_length[of k n] by simp
  then have high: "8 \<le> n \<Longrightarrow> \<not> bit k n" for k :: u8 and n
    by (meson linorder_not_less)
  have s1: "ucast k0 + push_bit 8 (ucast k1) = (ucast k0 OR push_bit 8 (ucast k1) :: u32)"
    by (rule disjunctive_add) (auto simp: bit_simps dest: bound)
  have s2: "(ucast k0 OR push_bit 8 (ucast k1)) + push_bit 16 (ucast k2) =
      (ucast k0 OR push_bit 8 (ucast k1) OR push_bit 16 (ucast k2) :: u32)"
    by (subst disjunctive_add) (auto simp: bit_simps or.assoc dest: bound)
  have "w = (ucast k0 OR push_bit 8 (ucast k1) OR push_bit 16 (ucast k2)) OR push_bit 24 (ucast k3)"
    unfolding w_def s1 s2
    by (rule disjunctive_add) (auto simp: bit_simps dest: bound)
  then show "ucast w = k0" "ucast (drop_bit 8 w) = k1" "ucast (drop_bit 16 w) = k2"
    "ucast (drop_bit 24 w) = k3"
    by (auto intro!: bit_word_eqI simp: bit_simps high)
qed

lemma hash_loop_small: "len < 8 \<Longrightarrow> hash_loop len a b key = Inr (a, b, key, len)"
  by (subst hash_loop.simps) simp

lemma key_word_inj:
  assumes "length k = 4" "length k' = 4" "key_word k = key_word k'"
  shows "k = k'"
proof -
  from assms(1) obtain a b c d where k: "k = [a, b, c, d]"
    by (auto simp: numeral_eq_Suc length_Suc_conv)
  from assms(2) obtain a' b' c' d' where k': "k' = [a', b', c', d']"
    by (auto simp: numeral_eq_Suc length_Suc_conv)
  from assms(3) have "ucast a + push_bit 8 (ucast b) + push_bit 16 (ucast c) + push_bit 24 (ucast d) =
      (ucast a' + push_bit 8 (ucast b') + push_bit 16 (ucast c') + push_bit 24 (ucast d') :: u32)"
    by (simp add: k k')
  then have "a = a'" "b = b'" "c = c'" "d = d'"
    by (metis key_word_bit)+
  then show ?thesis by (simp add: k k')
qed

lemma hash_loop_total:
  assumes "len \<le> length key"
  shows "\<exists>a' b' key' len'. hash_loop len a b key = Inr (a', b', key', len') \<and>
    len' < 8 \<and> len' \<le> length key'"
  using assms
proof (induction len a b key rule: hash_loop.induct)
  case (1 len a b key)
  show ?case
  proof (cases "8 \<le> len")
    case True
    with "1.prems" have "4 \<le> length (drop 4 key)" by simp
    then obtain w where w: "key_word (drop 4 key) = Inr w" using key_word_Inr by blast
    show ?thesis
      using "1.IH"[OF True w] "1.prems" True w by (subst hash_loop.simps) simp
  next
    case False
    then show ?thesis using "1.prems" by (simp add: hash_loop_small)
  qed
qed

lemma hash_tail_Inr: "len \<le> length key \<Longrightarrow> \<exists>h. hash_tail len a key = Inr h"
  by (simp add: hash_tail_def Let_def)

lemma hash_fn_4:
  assumes "length key = 4"
  shows "\<exists>w. key_word key = Inr w \<and> hash_fn key 4 = Inr (hash_mix (4 + w))"
proof -
  obtain w where "key_word key = Inr w" using key_word_Inr[of key] assms by auto
  then show ?thesis by (simp add: hash_fn_def hash_loop_small hash_tail_def)
qed

section \<open>Properties\<close>

text \<open>
  Hashing never reads past its key: for every key of at least \<open>key_len\<close> bytes \<open>hash_fn\<close>
  returns a value, whatever the length.
\<close>

lemma hash_fn_no_overread:
  assumes "key_len \<le> length key"
  shows "\<exists>h. hash_fn key key_len = Inr h"
proof -
  obtain b where b: "(if 4 \<le> key_len then key_word key else Inr 0) = Inr b"
    using key_word_Inr[of key] assms by (cases "4 \<le> key_len") auto
  obtain a' b' key' len' where l: "hash_loop key_len (of_nat key_len) b key = Inr (a', b', key', len')"
      "len' < 8" "len' \<le> length key'"
    using hash_loop_total[OF assms] by blast
  show ?thesis
    using hash_tail_Inr[of len' key'] hash_tail_Inr[of "len' - 4" key'] l
    by (auto simp: hash_fn_def b)
qed

lemma hash_fn_no_overread_example: "\<exists>h. hash_fn [1, 2, 3, 4, 5, 6, 7, 8, 9] 9 = Inr h"
  by (rule hash_fn_no_overread) simp

text \<open>
  C19: on the four-byte keys of the mark table the hash is injective: two different addresses never
  share a 32-bit hash value, so a bucket only mixes addresses that agree modulo the table's size.
\<close>

theorem hash_fn_injective:
  assumes "hash_fn (key_bytes be x) 4 = hash_fn (key_bytes be y) 4"
  shows "x = y"
proof -
  obtain u v where u: "key_word (key_bytes be x) = Inr u" "hash_fn (key_bytes be x) 4 = Inr (hash_mix (4 + u))"
    and v: "key_word (key_bytes be y) = Inr v" "hash_fn (key_bytes be y) 4 = Inr (hash_mix (4 + v))"
    using hash_fn_4[of "key_bytes be x"] hash_fn_4[of "key_bytes be y"] by auto
  from assms u v have "u = v" by (auto dest: hash_mix_inj)
  with u v have "key_word (key_bytes be x) = key_word (key_bytes be y)" by simp
  then show ?thesis using key_word_inj key_bytes_inj key_bytes_length by metis
qed

theorem hash_fn_injective_witness: "(5 :: u32) = 5"
  by (rule hash_fn_injective[where be = True]) (rule refl)

text \<open>
  For keys of five to seven bytes the trailing bytes do not reach the hash: after the four-byte
  block \<open>key\<close> is not advanced, so the tail mixes bytes of that block a second time. The module only
  hashes four bytes, where the tail is empty.
\<close>

lemma hash_fn_tail_ignored:
  assumes "take 4 k = take 4 k'" and "4 \<le> len" and "len < 8" and "len \<le> length k" and "len \<le> length k'"
  shows "hash_fn k len = hash_fn k' len"
proof -
  have nth: "k ! i = k' ! i" if "i < 4" for i
    using that assms(1) by (metis nth_take)
  have "hash_tail (len - 4) a k = hash_tail (len - 4) a k'" for a
    using assms(2-) by (auto simp: hash_tail_def nth Let_def)
  then show ?thesis
    using assms(2,3) key_word_take[OF assms(1)]
    by (simp add: hash_fn_def hash_loop_small split: sum.split)
qed

lemma hash_fn_tail_ignored_example:
  "hash_fn [1, 2, 3, 4, 5] 5 = hash_fn [1, 2, 3, 4, 250] 5"
  by (rule hash_fn_tail_ignored) simp_all

end
