(* ===== verification/Qmark_State.thy ===== *)
theory Qmark_State
  imports Qos_Prelude
begin

text \<open>
  The data of the kernel module: the constants and structs of \<open>kmod/qos_marktbl_main.h\<close> and
  \<open>kmod/qos_marktbl_tc.h\<close>, the globals of the two C files as one record, and the kernel services the
  code is written against. Of those, locks, atomic counters, lists, bitmaps and \<open>printk\<close> are the
  run-time library of kernel C and are modelled by what they do; whatever a call outside the
  repository may decide (memory being available, a device existing, a socket call failing, an
  enumerator's number) is a field of the record \<open>kenv\<close> and hence a parameter of every definition.
\<close>

section \<open>Constants and structs\<close>

definition OK :: int where [simp]: "OK = 0"
definition ERROR :: int where [simp]: "ERROR = -1"
definition COUNT_NOZERO :: int where [simp]: "COUNT_NOZERO = -2"
definition NO_EXIST :: int where [simp]: "NO_EXIST = -3"
definition OVER_MAX :: int where [simp]: "OVER_MAX = -4"
definition ALLOC_FAIL :: int where [simp]: "ALLOC_FAIL = -5"

definition PRIV_MODE :: u32 where [simp]: "PRIV_MODE = 0"
definition TC_MAX_IP_CNT :: u32 where [simp]: "TC_MAX_IP_CNT = 4096"
definition MAX_RULE_CNT :: u32 where [simp]: "MAX_RULE_CNT = 128"
definition MARK_BASE :: nat where [simp]: "MARK_BASE = 11"

text \<open>\<open>marktbl_node_t\<close>; its \<open>hlist_node\<close> is the position of its address in a bucket's list.\<close>

record marktbl_node =
  n_src_ip :: u32
  n_id :: u32
  n_mark :: u32
  n_count :: u32

text \<open>\<open>ruletbl_node_t\<close>.\<close>

record ruletbl_node =
  r_mode :: u32
  r_mark :: u32
  r_count :: u32
  r_on :: bool
  r_devid :: u32
  r_rate :: u32
  r_rate_mate :: u32
  r_rate_min :: u32
  r_rate_min_mate :: u32

definition zero_rule :: ruletbl_node where
  "zero_rule = \<lparr>r_mode = 0, r_mark = 0, r_count = 0, r_on = False, r_devid = 0, r_rate = 0,
     r_rate_mate = 0, r_rate_min = 0, r_rate_min_mate = 0\<rparr>"

text \<open>\<open>marktbl_head_t\<close>; a bucket is the list of the addresses of its nodes, first node first.\<close>

type_synonym addr = nat

record marktbl_head =
  elem_num :: u32
  hsize :: u32
  ht :: "addr list list"
  hlock :: bool

text \<open>
  The netlink requests of \<open>qos_marktbl_tc.c\<close>: \<open>struct rtnl_req\<close> with its attribute area, where an
  attribute keeps its offset in the request, and the structs an attribute's payload can be.
\<close>

datatype nl_cmd = RTM_NEWTCLASS | RTM_DELTCLASS | RTM_NEWQDISC | RTM_DELQDISC | RTM_NEWTFILTER | RTM_DELTFILTER
datatype nl_flag = NLM_F_REQUEST | NLM_F_ACK | NLM_F_EXCL | NLM_F_CREATE
datatype tca = TCA_KIND | TCA_OPTIONS | TCA_HTB_PARMS | TCA_HTB_RTAB | TCA_HTB_CTAB | TCA_FW_MASK | TCA_FW_CLASSID

record tc_ratespec =
  rs_cell_log :: u8
  rs_linklayer :: u8
  rs_overhead :: u16
  rs_cell_align :: u16
  rs_mpu :: u16
  rs_rate :: u32

record tc_htb_opt =
  ho_rate :: tc_ratespec
  ho_ceil :: tc_ratespec
  ho_buffer :: u32
  ho_cbuffer :: u32

datatype payload = PNone | PStr string | PWord u32 | PHtb tc_htb_opt | PTable "u32 list"

record rtattr =
  rta_at :: nat
  rta_type :: tca
  rta_len :: nat
  rta_data :: payload

record rtnl_req =
  nlmsg_len :: nat
  nlmsg_type :: nl_cmd
  nlmsg_flags :: "nl_flag set"
  tcm_ifindex :: u32
  tcm_handle :: u32
  tcm_parent :: u32
  tcm_info :: u32
  attrs :: "rtattr list"

record netdev =
  dev_ifindex :: u32
  dev_mtu :: u32

section \<open>The state of the module\<close>

text \<open>
  The environment: the platform's byte order and word size, the kernel's numbers for the
  enumerators, macros and struct sizes the code uses, the direction and size bits of an ioctl number (of
  \<open>_IO\<close> and of \<open>_IOWR\<close> with a size), and the answers of calls that may fail, each indexed by the
  number of such calls made so far.
\<close>

record kenv =
  big_endian :: bool
  long_bits :: nat
  IPCT_DESTROY :: nat
  IPCT_MARK :: nat
  AF_INET :: u16
  htons_ETH_P_ALL :: u32
  ticks_per_ms :: nat
  TC_LINKLAYER_MASK :: u8
  sizeof_marktbl_head :: nat
  sizeof_marktbl_node :: nat
  sizeof_tc_htb_opt :: nat
  sizeof_tc_fifo_qopt :: nat
  kmalloc_ok :: "nat \<Rightarrow> nat \<Rightarrow> bool"
  net_device :: "nat \<Rightarrow> string \<Rightarrow> netdev option"
  rtnl_busy :: "nat \<Rightarrow> bool"
  sendmsg_ret :: "nat \<Rightarrow> rtnl_req \<Rightarrow> int"
  kcall_ret :: "nat \<Rightarrow> string \<Rightarrow> int"
  ioc_word :: "nat option \<Rightarrow> u32"

text \<open>
  What the module has registered with the kernel: its own variables, and the resources the kernel
  holds for it.
\<close>

datatype resource = SocketR | ChrdevR | CdevR | ClassR | DeviceR | NotifierR | TargetR
datatype class_ptr = ClassNull | ClassErr | ClassPtr

record kreg =
  qmark_sock :: bool
  qmark_cdev_major :: u32
  qmark_cdev :: bool
  qmark_class :: class_ptr
  held :: "resource set"

record kst =
  env :: kenv
  env_time :: nat
  g_marktbl_head :: "marktbl_head ptr"
  g_ruletbl :: "ruletbl_node list ptr"
  mark_bitmap :: "bool list ptr"
  reset_flag :: bool
  qmark_op_lock :: bool
  max_ip_cnt :: u32
  max_rule_cnt :: u32
  node_heap :: "addr \<Rightarrow> marktbl_node option"
  next_addr :: addr
  qmark_lan_dev :: string
  qmark_wan_dev :: string
  klog :: "(string \<times> u32 list) list"
  nl_sent :: "rtnl_req list"
  kregs :: kreg

type_synonym 'a kop = "(kst, 'a) km"

section \<open>Kernel services\<close>

text \<open>A spinlock is not recursive: taking it a second time on the same path never returns.\<close>

definition op_lock :: "unit kop" where
  "op_lock = bindM (gets qmark_op_lock) (\<lambda>held.
     if held then fail Deadlock else modify (\<lambda>s. s\<lparr>qmark_op_lock := True\<rparr>))"

definition op_unlock :: "unit kop" where
  "op_unlock = modify (\<lambda>s. s\<lparr>qmark_op_lock := False\<rparr>)"

definition set_head :: "(marktbl_head \<Rightarrow> marktbl_head) \<Rightarrow> unit kop" where
  "set_head f = bindM (deref g_marktbl_head) (\<lambda>h. modify (\<lambda>s. s\<lparr>g_marktbl_head := Ptr (f h)\<rparr>))"

definition head_lock :: "unit kop" where
  "head_lock = bindM (deref g_marktbl_head) (\<lambda>h.
     if hlock h then fail Deadlock else set_head (\<lambda>h. h\<lparr>hlock := True\<rparr>))"

definition head_unlock :: "unit kop" where
  "head_unlock = set_head (\<lambda>h. h\<lparr>hlock := False\<rparr>)"

text \<open>The log keeps a message's format and arguments, without its level and its final newline.\<close>

definition printk :: "string \<Rightarrow> u32 list \<Rightarrow> unit kop" where
  "printk fmt args = modify (\<lambda>s. s\<lparr>klog := klog s @ [(fmt, args)]\<rparr>)"

text \<open>Sizes are computed in \<open>size_t\<close>, which has the width of \<open>long\<close>.\<close>

definition size_t :: "kst \<Rightarrow> nat \<Rightarrow> nat" where
  "size_t s n = n mod 2 ^ long_bits (env s)"

definition tick :: "unit kop" where
  "tick = modify (\<lambda>s. s\<lparr>env_time := Suc (env_time s)\<rparr>)"

definition kmalloc :: "nat \<Rightarrow> bool kop" where
  "kmalloc n = bindM (gets (\<lambda>s. kmalloc_ok (env s) (env_time s) n)) (\<lambda>ok.
     thenM tick (ret ok))"

text \<open>Mark table nodes live in a heap of their own; an address is never handed out twice.\<close>

definition node_at :: "addr \<Rightarrow> marktbl_node kop" where
  "node_at a s = (case node_heap s a of None \<Rightarrow> Inl UseAfterFree | Some n \<Rightarrow> Inr (n, s))"

definition set_node :: "addr \<Rightarrow> (marktbl_node \<Rightarrow> marktbl_node) \<Rightarrow> unit kop" where
  "set_node a f = bindM (node_at a) (\<lambda>n. modify (\<lambda>s. s\<lparr>node_heap := (node_heap s)(a \<mapsto> f n)\<rparr>))"

definition kfree_node :: "addr \<Rightarrow> unit kop" where
  "kfree_node a = bindM (node_at a) (\<lambda>_. modify (\<lambda>s. s\<lparr>node_heap := (node_heap s)(a := None)\<rparr>))"

definition new_node :: "marktbl_node \<Rightarrow> addr kop" where
  "new_node n = bindM (gets next_addr) (\<lambda>a.
     thenM (modify (\<lambda>s. s\<lparr>node_heap := (node_heap s)(a \<mapsto> n), next_addr := Suc a\<rparr>)) (ret a))"

text \<open>The element \<open>g_ruletbl[i]\<close>, which the code never checks against the table's size.\<close>

definition rule_at :: "u32 \<Rightarrow> ruletbl_node kop" where
  "rule_at i = bindM (deref g_ruletbl) (\<lambda>rs.
     if unat i < length rs then ret (rs ! unat i) else fail OutOfBounds)"

definition set_rule :: "u32 \<Rightarrow> (ruletbl_node \<Rightarrow> ruletbl_node) \<Rightarrow> unit kop" where
  "set_rule i f = bindM (deref g_ruletbl) (\<lambda>rs.
     if unat i < length rs then modify (\<lambda>s. s\<lparr>g_ruletbl := Ptr (rs[unat i := f (rs ! unat i)])\<rparr>)
     else fail OutOfBounds)"

section \<open>Lemmas\<close>

text \<open>Updates of different fields commute; these rules sort them in the order of the record.\<close>

lemma kst_sort:
  fixes s :: kst
  shows
  "s\<lparr>g_marktbl_head := v_g_marktbl_head, env_time := v_env_time\<rparr> = s\<lparr>env_time := v_env_time, g_marktbl_head := v_g_marktbl_head\<rparr>"
  "s\<lparr>g_ruletbl := v_g_ruletbl, env_time := v_env_time\<rparr> = s\<lparr>env_time := v_env_time, g_ruletbl := v_g_ruletbl\<rparr>"
  "s\<lparr>g_ruletbl := v_g_ruletbl, g_marktbl_head := v_g_marktbl_head\<rparr> = s\<lparr>g_marktbl_head := v_g_marktbl_head, g_ruletbl := v_g_ruletbl\<rparr>"
  "s\<lparr>mark_bitmap := v_mark_bitmap, env_time := v_env_time\<rparr> = s\<lparr>env_time := v_env_time, mark_bitmap := v_mark_bitmap\<rparr>"
  "s\<lparr>mark_bitmap := v_mark_bitmap, g_marktbl_head := v_g_marktbl_head\<rparr> = s\<lparr>g_marktbl_head := v_g_marktbl_head, mark_bitmap := v_mark_bitmap\<rparr>"
  "s\<lparr>mark_bitmap := v_mark_bitmap, g_ruletbl := v_g_ruletbl\<rparr> = s\<lparr>g_ruletbl := v_g_ruletbl, mark_bitmap := v_mark_bitmap\<rparr>"
  "s\<lparr>reset_flag := v_reset_flag, env_time := v_env_time\<rparr> = s\<lparr>env_time := v_env_time, reset_flag := v_reset_flag\<rparr>"
  "s\<lparr>reset_flag := v_reset_flag, g_marktbl_head := v_g_marktbl_head\<rparr> = s\<lparr>g_marktbl_head := v_g_marktbl_head, reset_flag := v_reset_flag\<rparr>"
  "s\<lparr>reset_flag := v_reset_flag, g_ruletbl := v_g_ruletbl\<rparr> = s\<lparr>g_ruletbl := v_g_ruletbl, reset_flag := v_reset_flag\<rparr>"
  "s\<lparr>reset_flag := v_reset_flag, mark_bitmap := v_mark_bitmap\<rparr> = s\<lparr>mark_bitmap := v_mark_bitmap, reset_flag := v_reset_flag\<rparr>"
  "s\<lparr>qmark_op_lock := v_qmark_op_lock, env_time := v_env_time\<rparr> = s\<lparr>env_time := v_env_time, qmark_op_lock := v_qmark_op_lock\<rparr>"
  "s\<lparr>qmark_op_lock := v_qmark_op_lock, g_marktbl_head := v_g_marktbl_head\<rparr> = s\<lparr>g_marktbl_head := v_g_marktbl_head, qmark_op_lock := v_qmark_op_lock\<rparr>"
  "s\<lparr>qmark_op_lock := v_qmark_op_lock, g_ruletbl := v_g_ruletbl\<rparr> = s\<lparr>g_ruletbl := v_g_ruletbl, qmark_op_lock := v_qmark_op_lock\<rparr>"
  "s\<lparr>qmark_op_lock := v_qmark_op_lock, mark_bitmap := v_mark_bitmap\<rparr> = s\<lparr>mark_bitmap := v_mark_bitmap, qmark_op_lock := v_qmark_op_lock\<rparr>"
  "s\<lparr>qmark_op_lock := v_qmark_op_lock, reset_flag := v_reset_flag\<rparr> = s\<lparr>reset_flag := v_reset_flag, qmark_op_lock := v_qmark_op_lock\<rparr>"
  "s\<lparr>max_ip_cnt := v_max_ip_cnt, env_time := v_env_time\<rparr> = s\<lparr>env_time := v_env_time, max_ip_cnt := v_max_ip_cnt\<rparr>"
  "s\<lparr>max_ip_cnt := v_max_ip_cnt, g_marktbl_head := v_g_marktbl_head\<rparr> = s\<lparr>g_marktbl_head := v_g_marktbl_head, max_ip_cnt := v_max_ip_cnt\<rparr>"
  "s\<lparr>max_ip_cnt := v_max_ip_cnt, g_ruletbl := v_g_ruletbl\<rparr> = s\<lparr>g_ruletbl := v_g_ruletbl, max_ip_cnt := v_max_ip_cnt\<rparr>"
  "s\<lparr>max_ip_cnt := v_max_ip_cnt, mark_bitmap := v_mark_bitmap\<rparr> = s\<lparr>mark_bitmap := v_mark_bitmap, max_ip_cnt := v_max_ip_cnt\<rparr>"
  "s\<lparr>max_ip_cnt := v_max_ip_cnt, reset_flag := v_reset_flag\<rparr> = s\<lparr>reset_flag := v_reset_flag, max_ip_cnt := v_max_ip_cnt\<rparr>"
  "s\<lparr>max_ip_cnt := v_max_ip_cnt, qmark_op_lock := v_qmark_op_lock\<rparr> = s\<lparr>qmark_op_lock := v_qmark_op_lock, max_ip_cnt := v_max_ip_cnt\<rparr>"
  "s\<lparr>max_rule_cnt := v_max_rule_cnt, env_time := v_env_time\<rparr> = s\<lparr>env_time := v_env_time, max_rule_cnt := v_max_rule_cnt\<rparr>"
  "s\<lparr>max_rule_cnt := v_max_rule_cnt, g_marktbl_head := v_g_marktbl_head\<rparr> = s\<lparr>g_marktbl_head := v_g_marktbl_head, max_rule_cnt := v_max_rule_cnt\<rparr>"
  "s\<lparr>max_rule_cnt := v_max_rule_cnt, g_ruletbl := v_g_ruletbl\<rparr> = s\<lparr>g_ruletbl := v_g_ruletbl, max_rule_cnt := v_max_rule_cnt\<rparr>"
  "s\<lparr>max_rule_cnt := v_max_rule_cnt, mark_bitmap := v_mark_bitmap\<rparr> = s\<lparr>mark_bitmap := v_mark_bitmap, max_rule_cnt := v_max_rule_cnt\<rparr>"
  "s\<lparr>max_rule_cnt := v_max_rule_cnt, reset_flag := v_reset_flag\<rparr> = s\<lparr>reset_flag := v_reset_flag, max_rule_cnt := v_max_rule_cnt\<rparr>"
  "s\<lparr>max_rule_cnt := v_max_rule_cnt, qmark_op_lock := v_qmark_op_lock\<rparr> = s\<lparr>qmark_op_lock := v_qmark_op_lock, max_rule_cnt := v_max_rule_cnt\<rparr>"
  "s\<lparr>max_rule_cnt := v_max_rule_cnt, max_ip_cnt := v_max_ip_cnt\<rparr> = s\<lparr>max_ip_cnt := v_max_ip_cnt, max_rule_cnt := v_max_rule_cnt\<rparr>"
  "s\<lparr>node_heap := v_node_heap, env_time := v_env_time\<rparr> = s\<lparr>env_time := v_env_time, node_heap := v_node_heap\<rparr>"
  "s\<lparr>node_heap := v_node_heap, g_marktbl_head := v_g_marktbl_head\<rparr> = s\<lparr>g_marktbl_head := v_g_marktbl_head, node_heap := v_node_heap\<rparr>"
  "s\<lparr>node_heap := v_node_heap, g_ruletbl := v_g_ruletbl\<rparr> = s\<lparr>g_ruletbl := v_g_ruletbl, node_heap := v_node_heap\<rparr>"
  "s\<lparr>node_heap := v_node_heap, mark_bitmap := v_mark_bitmap\<rparr> = s\<lparr>mark_bitmap := v_mark_bitmap, node_heap := v_node_heap\<rparr>"
  "s\<lparr>node_heap := v_node_heap, reset_flag := v_reset_flag\<rparr> = s\<lparr>reset_flag := v_reset_flag, node_heap := v_node_heap\<rparr>"
  "s\<lparr>node_heap := v_node_heap, qmark_op_lock := v_qmark_op_lock\<rparr> = s\<lparr>qmark_op_lock := v_qmark_op_lock, node_heap := v_node_heap\<rparr>"
  "s\<lparr>node_heap := v_node_heap, max_ip_cnt := v_max_ip_cnt\<rparr> = s\<lparr>max_ip_cnt := v_max_ip_cnt, node_heap := v_node_heap\<rparr>"
  "s\<lparr>node_heap := v_node_heap, max_rule_cnt := v_max_rule_cnt\<rparr> = s\<lparr>max_rule_cnt := v_max_rule_cnt, node_heap := v_node_heap\<rparr>"
  "s\<lparr>next_addr := v_next_addr, env_time := v_env_time\<rparr> = s\<lparr>env_time := v_env_time, next_addr := v_next_addr\<rparr>"
  "s\<lparr>next_addr := v_next_addr, g_marktbl_head := v_g_marktbl_head\<rparr> = s\<lparr>g_marktbl_head := v_g_marktbl_head, next_addr := v_next_addr\<rparr>"
  "s\<lparr>next_addr := v_next_addr, g_ruletbl := v_g_ruletbl\<rparr> = s\<lparr>g_ruletbl := v_g_ruletbl, next_addr := v_next_addr\<rparr>"
  "s\<lparr>next_addr := v_next_addr, mark_bitmap := v_mark_bitmap\<rparr> = s\<lparr>mark_bitmap := v_mark_bitmap, next_addr := v_next_addr\<rparr>"
  "s\<lparr>next_addr := v_next_addr, reset_flag := v_reset_flag\<rparr> = s\<lparr>reset_flag := v_reset_flag, next_addr := v_next_addr\<rparr>"
  "s\<lparr>next_addr := v_next_addr, qmark_op_lock := v_qmark_op_lock\<rparr> = s\<lparr>qmark_op_lock := v_qmark_op_lock, next_addr := v_next_addr\<rparr>"
  "s\<lparr>next_addr := v_next_addr, max_ip_cnt := v_max_ip_cnt\<rparr> = s\<lparr>max_ip_cnt := v_max_ip_cnt, next_addr := v_next_addr\<rparr>"
  "s\<lparr>next_addr := v_next_addr, max_rule_cnt := v_max_rule_cnt\<rparr> = s\<lparr>max_rule_cnt := v_max_rule_cnt, next_addr := v_next_addr\<rparr>"
  "s\<lparr>next_addr := v_next_addr, node_heap := v_node_heap\<rparr> = s\<lparr>node_heap := v_node_heap, next_addr := v_next_addr\<rparr>"
  "s\<lparr>qmark_lan_dev := v_qmark_lan_dev, env_time := v_env_time\<rparr> = s\<lparr>env_time := v_env_time, qmark_lan_dev := v_qmark_lan_dev\<rparr>"
  "s\<lparr>qmark_lan_dev := v_qmark_lan_dev, g_marktbl_head := v_g_marktbl_head\<rparr> = s\<lparr>g_marktbl_head := v_g_marktbl_head, qmark_lan_dev := v_qmark_lan_dev\<rparr>"
  "s\<lparr>qmark_lan_dev := v_qmark_lan_dev, g_ruletbl := v_g_ruletbl\<rparr> = s\<lparr>g_ruletbl := v_g_ruletbl, qmark_lan_dev := v_qmark_lan_dev\<rparr>"
  "s\<lparr>qmark_lan_dev := v_qmark_lan_dev, mark_bitmap := v_mark_bitmap\<rparr> = s\<lparr>mark_bitmap := v_mark_bitmap, qmark_lan_dev := v_qmark_lan_dev\<rparr>"
  "s\<lparr>qmark_lan_dev := v_qmark_lan_dev, reset_flag := v_reset_flag\<rparr> = s\<lparr>reset_flag := v_reset_flag, qmark_lan_dev := v_qmark_lan_dev\<rparr>"
  "s\<lparr>qmark_lan_dev := v_qmark_lan_dev, qmark_op_lock := v_qmark_op_lock\<rparr> = s\<lparr>qmark_op_lock := v_qmark_op_lock, qmark_lan_dev := v_qmark_lan_dev\<rparr>"
  "s\<lparr>qmark_lan_dev := v_qmark_lan_dev, max_ip_cnt := v_max_ip_cnt\<rparr> = s\<lparr>max_ip_cnt := v_max_ip_cnt, qmark_lan_dev := v_qmark_lan_dev\<rparr>"
  "s\<lparr>qmark_lan_dev := v_qmark_lan_dev, max_rule_cnt := v_max_rule_cnt\<rparr> = s\<lparr>max_rule_cnt := v_max_rule_cnt, qmark_lan_dev := v_qmark_lan_dev\<rparr>"
  "s\<lparr>qmark_lan_dev := v_qmark_lan_dev, node_heap := v_node_heap\<rparr> = s\<lparr>node_heap := v_node_heap, qmark_lan_dev := v_qmark_lan_dev\<rparr>"
  "s\<lparr>qmark_lan_dev := v_qmark_lan_dev, next_addr := v_next_addr\<rparr> = s\<lparr>next_addr := v_next_addr, qmark_lan_dev := v_qmark_lan_dev\<rparr>"
  "s\<lparr>qmark_wan_dev := v_qmark_wan_dev, env_time := v_env_time\<rparr> = s\<lparr>env_time := v_env_time, qmark_wan_dev := v_qmark_wan_dev\<rparr>"
  "s\<lparr>qmark_wan_dev := v_qmark_wan_dev, g_marktbl_head := v_g_marktbl_head\<rparr> = s\<lparr>g_marktbl_head := v_g_marktbl_head, qmark_wan_dev := v_qmark_wan_dev\<rparr>"
  "s\<lparr>qmark_wan_dev := v_qmark_wan_dev, g_ruletbl := v_g_ruletbl\<rparr> = s\<lparr>g_ruletbl := v_g_ruletbl, qmark_wan_dev := v_qmark_wan_dev\<rparr>"
  "s\<lparr>qmark_wan_dev := v_qmark_wan_dev, mark_bitmap := v_mark_bitmap\<rparr> = s\<lparr>mark_bitmap := v_mark_bitmap, qmark_wan_dev := v_qmark_wan_dev\<rparr>"
  "s\<lparr>qmark_wan_dev := v_qmark_wan_dev, reset_flag := v_reset_flag\<rparr> = s\<lparr>reset_flag := v_reset_flag, qmark_wan_dev := v_qmark_wan_dev\<rparr>"
  "s\<lparr>qmark_wan_dev := v_qmark_wan_dev, qmark_op_lock := v_qmark_op_lock\<rparr> = s\<lparr>qmark_op_lock := v_qmark_op_lock, qmark_wan_dev := v_qmark_wan_dev\<rparr>"
  "s\<lparr>qmark_wan_dev := v_qmark_wan_dev, max_ip_cnt := v_max_ip_cnt\<rparr> = s\<lparr>max_ip_cnt := v_max_ip_cnt, qmark_wan_dev := v_qmark_wan_dev\<rparr>"
  "s\<lparr>qmark_wan_dev := v_qmark_wan_dev, max_rule_cnt := v_max_rule_cnt\<rparr> = s\<lparr>max_rule_cnt := v_max_rule_cnt, qmark_wan_dev := v_qmark_wan_dev\<rparr>"
  "s\<lparr>qmark_wan_dev := v_qmark_wan_dev, node_heap := v_node_heap\<rparr> = s\<lparr>node_heap := v_node_heap, qmark_wan_dev := v_qmark_wan_dev\<rparr>"
  "s\<lparr>qmark_wan_dev := v_qmark_wan_dev, next_addr := v_next_addr\<rparr> = s\<lparr>next_addr := v_next_addr, qmark_wan_dev := v_qmark_wan_dev\<rparr>"
  "s\<lparr>qmark_wan_dev := v_qmark_wan_dev, qmark_lan_dev := v_qmark_lan_dev\<rparr> = s\<lparr>qmark_lan_dev := v_qmark_lan_dev, qmark_wan_dev := v_qmark_wan_dev\<rparr>"
  "s\<lparr>klog := v_klog, env_time := v_env_time\<rparr> = s\<lparr>env_time := v_env_time, klog := v_klog\<rparr>"
  "s\<lparr>klog := v_klog, g_marktbl_head := v_g_marktbl_head\<rparr> = s\<lparr>g_marktbl_head := v_g_marktbl_head, klog := v_klog\<rparr>"
  "s\<lparr>klog := v_klog, g_ruletbl := v_g_ruletbl\<rparr> = s\<lparr>g_ruletbl := v_g_ruletbl, klog := v_klog\<rparr>"
  "s\<lparr>klog := v_klog, mark_bitmap := v_mark_bitmap\<rparr> = s\<lparr>mark_bitmap := v_mark_bitmap, klog := v_klog\<rparr>"
  "s\<lparr>klog := v_klog, reset_flag := v_reset_flag\<rparr> = s\<lparr>reset_flag := v_reset_flag, klog := v_klog\<rparr>"
  "s\<lparr>klog := v_klog, qmark_op_lock := v_qmark_op_lock\<rparr> = s\<lparr>qmark_op_lock := v_qmark_op_lock, klog := v_klog\<rparr>"
  "s\<lparr>klog := v_klog, max_ip_cnt := v_max_ip_cnt\<rparr> = s\<lparr>max_ip_cnt := v_max_ip_cnt, klog := v_klog\<rparr>"
  "s\<lparr>klog := v_klog, max_rule_cnt := v_max_rule_cnt\<rparr> = s\<lparr>max_rule_cnt := v_max_rule_cnt, klog := v_klog\<rparr>"
  "s\<lparr>klog := v_klog, node_heap := v_node_heap\<rparr> = s\<lparr>node_heap := v_node_heap, klog := v_klog\<rparr>"
  "s\<lparr>klog := v_klog, next_addr := v_next_addr\<rparr> = s\<lparr>next_addr := v_next_addr, klog := v_klog\<rparr>"
  "s\<lparr>klog := v_klog, qmark_lan_dev := v_qmark_lan_dev\<rparr> = s\<lparr>qmark_lan_dev := v_qmark_lan_dev, klog := v_klog\<rparr>"
  "s\<lparr>klog := v_klog, qmark_wan_dev := v_qmark_wan_dev\<rparr> = s\<lparr>qmark_wan_dev := v_qmark_wan_dev, klog := v_klog\<rparr>"
  "s\<lparr>nl_sent := v_nl_sent, env_time := v_env_time\<rparr> = s\<lparr>env_time := v_env_time, nl_sent := v_nl_sent\<rparr>"
  "s\<lparr>nl_sent := v_nl_sent, g_marktbl_head := v_g_marktbl_head\<rparr> = s\<lparr>g_marktbl_head := v_g_marktbl_head, nl_sent := v_nl_sent\<rparr>"
  "s\<lparr>nl_sent := v_nl_sent, g_ruletbl := v_g_ruletbl\<rparr> = s\<lparr>g_ruletbl := v_g_ruletbl, nl_sent := v_nl_sent\<rparr>"
  "s\<lparr>nl_sent := v_nl_sent, mark_bitmap := v_mark_bitmap\<rparr> = s\<lparr>mark_bitmap := v_mark_bitmap, nl_sent := v_nl_sent\<rparr>"
  "s\<lparr>nl_sent := v_nl_sent, reset_flag := v_reset_flag\<rparr> = s\<lparr>reset_flag := v_reset_flag, nl_sent := v_nl_sent\<rparr>"
  "s\<lparr>nl_sent := v_nl_sent, qmark_op_lock := v_qmark_op_lock\<rparr> = s\<lparr>qmark_op_lock := v_qmark_op_lock, nl_sent := v_nl_sent\<rparr>"
  "s\<lparr>nl_sent := v_nl_sent, max_ip_cnt := v_max_ip_cnt\<rparr> = s\<lparr>max_ip_cnt := v_max_ip_cnt, nl_sent := v_nl_sent\<rparr>"
  "s\<lparr>nl_sent := v_nl_sent, max_rule_cnt := v_max_rule_cnt\<rparr> = s\<lparr>max_rule_cnt := v_max_rule_cnt, nl_sent := v_nl_sent\<rparr>"
  "s\<lparr>nl_sent := v_nl_sent, node_heap := v_node_heap\<rparr> = s\<lparr>node_heap := v_node_heap, nl_sent := v_nl_sent\<rparr>"
  "s\<lparr>nl_sent := v_nl_sent, next_addr := v_next_addr\<rparr> = s\<lparr>next_addr := v_next_addr, nl_sent := v_nl_sent\<rparr>"
  "s\<lparr>nl_sent := v_nl_sent, qmark_lan_dev := v_qmark_lan_dev\<rparr> = s\<lparr>qmark_lan_dev := v_qmark_lan_dev, nl_sent := v_nl_sent\<rparr>"
  "s\<lparr>nl_sent := v_nl_sent, qmark_wan_dev := v_qmark_wan_dev\<rparr> = s\<lparr>qmark_wan_dev := v_qmark_wan_dev, nl_sent := v_nl_sent\<rparr>"
  "s\<lparr>nl_sent := v_nl_sent, klog := v_klog\<rparr> = s\<lparr>klog := v_klog, nl_sent := v_nl_sent\<rparr>"
  "s\<lparr>kregs := v_kregs, env_time := v_env_time\<rparr> = s\<lparr>env_time := v_env_time, kregs := v_kregs\<rparr>"
  "s\<lparr>kregs := v_kregs, g_marktbl_head := v_g_marktbl_head\<rparr> = s\<lparr>g_marktbl_head := v_g_marktbl_head, kregs := v_kregs\<rparr>"
  "s\<lparr>kregs := v_kregs, g_ruletbl := v_g_ruletbl\<rparr> = s\<lparr>g_ruletbl := v_g_ruletbl, kregs := v_kregs\<rparr>"
  "s\<lparr>kregs := v_kregs, mark_bitmap := v_mark_bitmap\<rparr> = s\<lparr>mark_bitmap := v_mark_bitmap, kregs := v_kregs\<rparr>"
  "s\<lparr>kregs := v_kregs, reset_flag := v_reset_flag\<rparr> = s\<lparr>reset_flag := v_reset_flag, kregs := v_kregs\<rparr>"
  "s\<lparr>kregs := v_kregs, qmark_op_lock := v_qmark_op_lock\<rparr> = s\<lparr>qmark_op_lock := v_qmark_op_lock, kregs := v_kregs\<rparr>"
  "s\<lparr>kregs := v_kregs, max_ip_cnt := v_max_ip_cnt\<rparr> = s\<lparr>max_ip_cnt := v_max_ip_cnt, kregs := v_kregs\<rparr>"
  "s\<lparr>kregs := v_kregs, max_rule_cnt := v_max_rule_cnt\<rparr> = s\<lparr>max_rule_cnt := v_max_rule_cnt, kregs := v_kregs\<rparr>"
  "s\<lparr>kregs := v_kregs, node_heap := v_node_heap\<rparr> = s\<lparr>node_heap := v_node_heap, kregs := v_kregs\<rparr>"
  "s\<lparr>kregs := v_kregs, next_addr := v_next_addr\<rparr> = s\<lparr>next_addr := v_next_addr, kregs := v_kregs\<rparr>"
  "s\<lparr>kregs := v_kregs, qmark_lan_dev := v_qmark_lan_dev\<rparr> = s\<lparr>qmark_lan_dev := v_qmark_lan_dev, kregs := v_kregs\<rparr>"
  "s\<lparr>kregs := v_kregs, qmark_wan_dev := v_qmark_wan_dev\<rparr> = s\<lparr>qmark_wan_dev := v_qmark_wan_dev, kregs := v_kregs\<rparr>"
  "s\<lparr>kregs := v_kregs, klog := v_klog\<rparr> = s\<lparr>klog := v_klog, kregs := v_kregs\<rparr>"
  "s\<lparr>kregs := v_kregs, nl_sent := v_nl_sent\<rparr> = s\<lparr>nl_sent := v_nl_sent, kregs := v_kregs\<rparr>"
  by (cases s, simp)+

lemma kst_head_same [simp]: "g_marktbl_head s = p \<Longrightarrow> s\<lparr>g_marktbl_head := p\<rparr> = s"
  by (cases s) simp

lemma kst_rules_same [simp]: "g_ruletbl s = p \<Longrightarrow> s\<lparr>g_ruletbl := p\<rparr> = s"
  by (cases s) simp

lemma kst_bitmap_same [simp]: "mark_bitmap s = p \<Longrightarrow> s\<lparr>mark_bitmap := p\<rparr> = s"
  by (cases s) simp

lemma kst_unlocked_same [simp]: "\<not> qmark_op_lock s \<Longrightarrow> s\<lparr>qmark_op_lock := False\<rparr> = s"
  by (cases s) simp

lemma kst_locked_same [simp]: "qmark_op_lock s \<Longrightarrow> s\<lparr>qmark_op_lock := True\<rparr> = s"
  by (cases s) simp

lemma head_unlocked_same [simp]: "\<not> hlock h \<Longrightarrow> h\<lparr>hlock := False\<rparr> = h"
  by (cases h) simp

lemma op_lock_free [kmonad, simp]:
  "\<not> qmark_op_lock s \<Longrightarrow> op_lock s = Inr ((), s\<lparr>qmark_op_lock := True\<rparr>)"
  by (simp add: op_lock_def)

lemma op_lock_held [kmonad, simp]: "qmark_op_lock s \<Longrightarrow> op_lock s = Inl Deadlock"
  by (simp add: op_lock_def)

lemma op_unlock_app [kmonad, simp]: "op_unlock s = Inr ((), s\<lparr>qmark_op_lock := False\<rparr>)"
  by (simp add: op_unlock_def)

lemma set_head_Ptr [kmonad, simp]:
  "g_marktbl_head s = Ptr h \<Longrightarrow> set_head f s = Inr ((), s\<lparr>g_marktbl_head := Ptr (f h)\<rparr>)"
  by (simp add: set_head_def)

lemma head_lock_Ptr [kmonad, simp]:
  "g_marktbl_head s = Ptr h \<Longrightarrow> \<not> hlock h \<Longrightarrow>
   head_lock s = Inr ((), s\<lparr>g_marktbl_head := Ptr (h\<lparr>hlock := True\<rparr>)\<rparr>)"
  by (simp add: head_lock_def)

lemma head_unlock_Ptr [kmonad, simp]:
  "g_marktbl_head s = Ptr h \<Longrightarrow>
   head_unlock s = Inr ((), s\<lparr>g_marktbl_head := Ptr (h\<lparr>hlock := False\<rparr>)\<rparr>)"
  by (simp add: head_unlock_def)

lemma printk_app [kmonad, simp]: "printk f as s = Inr ((), s\<lparr>klog := klog s @ [(f, as)]\<rparr>)"
  by (simp add: printk_def)

lemma tick_app [kmonad, simp]: "tick s = Inr ((), s\<lparr>env_time := Suc (env_time s)\<rparr>)"
  by (simp add: tick_def)

lemma kmalloc_app [kmonad, simp]:
  "kmalloc n s = Inr (kmalloc_ok (env s) (env_time s) n, s\<lparr>env_time := Suc (env_time s)\<rparr>)"
  by (simp add: kmalloc_def)

lemma node_at_Some [kmonad, simp]: "node_heap s a = Some n \<Longrightarrow> node_at a s = Inr (n, s)"
  by (simp add: node_at_def)

lemma set_node_Some [kmonad, simp]:
  "node_heap s a = Some n \<Longrightarrow> set_node a f s = Inr ((), s\<lparr>node_heap := (node_heap s)(a \<mapsto> f n)\<rparr>)"
  by (simp add: set_node_def)

lemma kfree_node_Some [kmonad, simp]:
  "node_heap s a = Some n \<Longrightarrow> kfree_node a s = Inr ((), s\<lparr>node_heap := (node_heap s)(a := None)\<rparr>)"
  by (simp add: kfree_node_def)

lemma new_node_app [kmonad, simp]:
  "new_node n s =
     Inr (next_addr s, s\<lparr>node_heap := (node_heap s)(next_addr s \<mapsto> n), next_addr := Suc (next_addr s)\<rparr>)"
  by (simp add: new_node_def)

lemma rule_at_Ptr [kmonad, simp]:
  "g_ruletbl s = Ptr rs \<Longrightarrow> unat i < length rs \<Longrightarrow> rule_at i s = Inr (rs ! unat i, s)"
  by (simp add: rule_at_def)

lemma set_rule_Ptr [kmonad, simp]:
  "g_ruletbl s = Ptr rs \<Longrightarrow> unat i < length rs \<Longrightarrow>
   set_rule i f s = Inr ((), s\<lparr>g_ruletbl := Ptr (rs[unat i := f (rs ! unat i)])\<rparr>)"
  by (simp add: set_rule_def)

end
