(* ===== verification/Mark_Bitmap.thy ===== *)
theory Mark_Bitmap
  imports Qmark_State
begin

text \<open>
  The mark allocator of \<open>kmod/qos_marktbl_main.c\<close>: a bitmap in which bit \<open>i\<close> says whether the mark
  \<open>(i + 1) << MARK_BASE\<close> is in use, with the API calls that reach it. The interface the rest of the
  module relies on is the locale \<open>mark_allocator\<close>, interpreted here on the code's own operations.
\<close>

section \<open>Definitions\<close>

text \<open>\<open>BITS_TO_LONGS(cnt)\<close>, the addition being done in \<open>size_t\<close>.\<close>

definition BITS_TO_LONGS :: "kst \<Rightarrow> nat \<Rightarrow> nat" where
  "BITS_TO_LONGS s cnt = size_t s (cnt + long_bits (env s) - 1) div long_bits (env s)"

definition bitmap_bytes :: "kst \<Rightarrow> u32 \<Rightarrow> nat" where
  "bitmap_bytes s cnt = size_t s (BITS_TO_LONGS s (unat cnt) * (long_bits (env s) div 8))"

definition mark_bitmap_init :: "u32 \<Rightarrow> int kop" where
  "mark_bitmap_init cnt =
    bindM (gets (\<lambda>s. bitmap_bytes s cnt)) (\<lambda>bytes.
    bindM (kmalloc bytes) (\<lambda>ok.
    if \<not> ok then thenM (modify (\<lambda>s. s\<lparr>mark_bitmap := Null\<rparr>)) (ret ALLOC_FAIL)
    else thenM (modify (\<lambda>s. s\<lparr>mark_bitmap := Ptr (replicate (8 * bytes) False)\<rparr>)) (ret OK)))"

definition mark_bitmap_exit :: "unit kop" where
  "mark_bitmap_exit =
    bindM (gets mark_bitmap) (\<lambda>p. case p of
      Null \<Rightarrow> ret ()
    | Dangling \<Rightarrow> fail UseAfterFree
    | Ptr _ \<Rightarrow> modify (\<lambda>s. s\<lparr>mark_bitmap := Null\<rparr>))"

text \<open>The kernel's bitmap operations on the array of \<open>mark_bitmap\<close>, by bit number.\<close>

primrec first_zero :: "bool list \<Rightarrow> nat" where
  "first_zero [] = 0"
| "first_zero (b # bs) = (if b then Suc (first_zero bs) else 0)"

definition find_first_zero_bit :: "nat \<Rightarrow> nat kop" where
  "find_first_zero_bit n = bindM (deref mark_bitmap) (\<lambda>bm.
     let z = first_zero (take n bm)
     in if z = length bm \<and> length bm < n then fail OutOfBounds else ret z)"

definition bitmap_write :: "nat \<Rightarrow> bool \<Rightarrow> unit kop" where
  "bitmap_write i b = bindM (deref mark_bitmap) (\<lambda>bm.
     if i < length bm then modify (\<lambda>s. s\<lparr>mark_bitmap := Ptr (bm[i := b])\<rparr>) else fail OutOfBounds)"

definition test_bit :: "nat \<Rightarrow> bool kop" where
  "test_bit i = bindM (deref mark_bitmap) (\<lambda>bm.
     if i < length bm then ret (bm ! i) else fail OutOfBounds)"

definition alloc_mark :: "u32 kop" where
  "alloc_mark =
    bindM (gets (\<lambda>s. unat (max_ip_cnt s))) (\<lambda>cnt.
    bindM (find_first_zero_bit cnt) (\<lambda>first_zero_bit.
    if cnt \<le> first_zero_bit then ret 0
    else thenM (bitmap_write first_zero_bit True)
      (ret (push_bit MARK_BASE (of_nat first_zero_bit + 1)))))"

definition free_mark :: "u32 \<Rightarrow> unit kop" where
  "free_mark mark = bitmap_write (unat (drop_bit MARK_BASE mark - 1)) False"

definition test_mark :: "u32 \<Rightarrow> bool kop" where
  "test_mark mark = test_bit (unat (drop_bit MARK_BASE mark - 1))"

text \<open>\<open>bitmap_zero\<close> clears whole longs.\<close>

definition flush_mark :: "unit kop" where
  "flush_mark =
    bindM (gets (\<lambda>s. BITS_TO_LONGS s (unat (max_ip_cnt s)) * long_bits (env s))) (\<lambda>n.
    bindM (deref mark_bitmap) (\<lambda>bm.
    if n \<le> length bm then modify (\<lambda>s. s\<lparr>mark_bitmap := Ptr (replicate n False @ drop n bm)\<rparr>)
    else fail OutOfBounds))"

text \<open>The exported calls, each under \<open>qmark_op_lock\<close>; the pointer argument is the result.\<close>

definition qmark_alloc_mark :: "(int \<times> u32) kop" where
  "qmark_alloc_mark =
    thenM op_lock (
    bindM alloc_mark (\<lambda>mark.
    if mark = 0 then thenM op_unlock (ret (ERROR, mark))
    else thenM op_unlock (ret (OK, mark))))"

definition qmark_free_mark :: "u32 \<Rightarrow> unit kop" where
  "qmark_free_mark mark = thenM op_lock (thenM (free_mark mark) op_unlock)"

definition qmark_flush_mark :: "unit kop" where
  "qmark_flush_mark = thenM op_lock (thenM flush_mark op_unlock)"

section \<open>What the allocator's state means\<close>

definition mark_of :: "nat \<Rightarrow> u32" where
  "mark_of i = push_bit MARK_BASE (of_nat i + 1)"

definition mark_bits :: "kst \<Rightarrow> bool list" where
  "mark_bits s = (case mark_bitmap s of Ptr bm \<Rightarrow> bm | _ \<Rightarrow> [])"

definition mark_pool :: "kst \<Rightarrow> u32 set" where
  "mark_pool s = mark_of ` {..<unat (max_ip_cnt s)}"

definition used_marks :: "kst \<Rightarrow> u32 set" where
  "used_marks s = mark_of ` {i. i < unat (max_ip_cnt s) \<and> mark_bits s ! i}"

text \<open>
  The bitmap is allocated and covers all \<open>max_ip_cnt\<close> bits, and every offset fits the \<open>32 - 11\<close> bits
  above \<open>MARK_BASE\<close>.
\<close>

definition bitmap_wf :: "kst \<Rightarrow> bool" where
  "bitmap_wf s \<longleftrightarrow> mark_bitmap s = Ptr (mark_bits s) \<and> unat (max_ip_cnt s) \<le> length (mark_bits s) \<and>
     unat (max_ip_cnt s) < 2 ^ 21"

section \<open>The interface\<close>

text \<open>
  What a client may rely on: the marks of a finite pool are handed out at most once at a time, the
  call fails with \<open>none\<close> exactly when the pool is exhausted, and freeing returns a mark to the pool.
\<close>

locale mark_allocator =
  fixes alloc :: "('s, 'm) km"
    and release :: "'m \<Rightarrow> ('s, unit) km"
    and used :: "'s \<Rightarrow> 'm set"
    and pool :: "'s \<Rightarrow> 'm set"
    and none :: 'm
    and wf :: "'s \<Rightarrow> bool"
  assumes finite_pool: "finite (pool s)"
    and none_notin: "wf s \<Longrightarrow> none \<notin> pool s"
    and used_pool: "wf s \<Longrightarrow> used s \<subseteq> pool s"
    and alloc_fresh: "wf s \<Longrightarrow> used s \<noteq> pool s \<Longrightarrow>
      \<exists>m t. alloc s = Inr (m, t) \<and> m \<in> pool s - used s \<and> used t = insert m (used s) \<and>
        pool t = pool s \<and> wf t"
    and alloc_full: "wf s \<Longrightarrow> used s = pool s \<Longrightarrow> alloc s = Inr (none, s)"
    and release_used: "wf s \<Longrightarrow> m \<in> pool s \<Longrightarrow>
      \<exists>t. release m s = Inr ((), t) \<and> used t = used s - {m} \<and> pool t = pool s \<and> wf t"
begin

lemma alloc_none_iff:
  assumes "wf s" and "alloc s = Inr (m, t)"
  shows "m = none \<longleftrightarrow> used s = pool s"
proof
  assume "m = none"
  show "used s = pool s"
  proof (rule ccontr)
    assume "used s \<noteq> pool s"
    with alloc_fresh[OF assms(1)] assms(2) have "m \<in> pool s" by auto
    then show False using none_notin[OF assms(1)] \<open>m = none\<close> by blast
  qed
qed (use alloc_full[OF assms(1)] assms(2) in auto)

text \<open>As many consecutive allocations succeed as there are free marks, with pairwise different marks.\<close>

lemma alloc_many:
  assumes "wf s" and "k \<le> card (pool s - used s)"
  shows "\<exists>ms t. repeatM k alloc s = Inr (ms, t) \<and> length ms = k \<and> distinct ms \<and>
    set ms \<subseteq> pool s - used s \<and> used t = used s \<union> set ms \<and> pool t = pool s \<and> wf t"
  using assms
proof (induction k arbitrary: s)
  case 0
  then show ?case by simp
next
  case (Suc k)
  then have "used s \<noteq> pool s" by force
  from alloc_fresh[OF \<open>wf s\<close> this] obtain m t where m: "alloc s = Inr (m, t)" "m \<in> pool s - used s"
    "used t = insert m (used s)" "pool t = pool s" "wf t" by blast
  then have "pool t - used t = (pool s - used s) - {m}" by auto
  then have "k \<le> card (pool t - used t)" using Suc.prems(2) m(2) finite_pool[of s] by simp
  from Suc.IH[OF \<open>wf t\<close> this] obtain ms u where "repeatM k alloc t = Inr (ms, u)" "length ms = k"
    "distinct ms" "set ms \<subseteq> pool t - used t" "used u = used t \<union> set ms" "pool u = pool t" "wf u" by blast
  with m show ?case by (intro exI[of _ "m # ms"] exI[of _ u]) auto
qed

text \<open>After that, and only after that, allocation fails and leaves the state alone.\<close>

lemma alloc_exhausts:
  assumes "wf s"
  shows "\<exists>ms t. repeatM (card (pool s - used s)) alloc s = Inr (ms, t) \<and> used t = pool s \<and>
    alloc t = Inr (none, t)"
proof -
  obtain ms t where r: "repeatM (card (pool s - used s)) alloc s = Inr (ms, t)"
    "length ms = card (pool s - used s)" "distinct ms" "set ms \<subseteq> pool s - used s"
    "used t = used s \<union> set ms" "pool t = pool s" "wf t"
    using alloc_many[OF assms, of "card (pool s - used s)"] by blast
  have "set ms = pool s - used s"
    using r finite_pool[of s] by (intro card_subset_eq) (auto simp: distinct_card)
  with r used_pool[OF assms] have "used t = pool s" by auto
  with r show ?thesis using alloc_full[of t] by simp
qed

end

section \<open>Lemmas on marks and bits\<close>

lemma mark_of_nat: "mark_of i = of_nat (2048 * Suc i)"
  by (simp add: mark_of_def push_bit_eq_mult)

lemma unat_mark_of: "i < 2 ^ 21 - 1 \<Longrightarrow> unat (mark_of i) = 2048 * Suc i"
  unfolding mark_of_nat by (rule unat_of_nat_u32) simp

lemma mark_of_inj: "i < 2 ^ 21 - 1 \<Longrightarrow> j < 2 ^ 21 - 1 \<Longrightarrow> mark_of i = mark_of j \<longleftrightarrow> i = j"
  by (metis unat_mark_of mult_cancel1 nat.inject zero_neq_numeral)

lemma mark_of_nonzero: "i < 2 ^ 21 - 1 \<Longrightarrow> mark_of i \<noteq> 0"
  by (metis unat_mark_of unat_0 mult_eq_0_iff nat.distinct(1) zero_neq_numeral)

lemma mark_offset: "i < 2 ^ 21 - 1 \<Longrightarrow> unat (drop_bit MARK_BASE (mark_of i) - 1) = i"
proof -
  assume i: "i < 2 ^ 21 - 1"
  have "unat (drop_bit MARK_BASE (mark_of i)) = Suc i"
    by (simp add: drop_bit_eq_div unat_div unat_mark_of[OF i])
  then have "drop_bit MARK_BASE (mark_of i) = of_nat i + 1"
    by (metis u32_eq_of_nat of_nat_Suc add.commute)
  then show ?thesis using i by (simp add: unat_of_nat_u32)
qed

lemma first_zero_le: "first_zero bs \<le> length bs"
  by (induction bs) auto

lemma first_zero_hit: "first_zero bs < length bs \<Longrightarrow> \<not> bs ! first_zero bs"
  by (induction bs) (auto split: if_splits)

lemma first_zero_least: "i < first_zero bs \<Longrightarrow> bs ! i"
  by (induction bs arbitrary: i) (auto simp: nth_Cons split: if_splits nat.split)

lemma bitmap_wfD:
  assumes "bitmap_wf s"
  shows "mark_bitmap s = Ptr (mark_bits s)" "unat (max_ip_cnt s) \<le> length (mark_bits s)"
    "i < unat (max_ip_cnt s) \<Longrightarrow> i < 2 ^ 21 - 1"
  using assms by (auto simp: bitmap_wf_def)

lemma mark_bits_upd [simp]: "mark_bits (s\<lparr>mark_bitmap := Ptr bm\<rparr>) = bm"
  by (simp add: mark_bits_def)

lemma mark_pool_upd [simp]: "mark_pool (s\<lparr>mark_bitmap := p\<rparr>) = mark_pool s"
  by (simp add: mark_pool_def)

lemma bitmap_wf_upd [simp]:
  "bitmap_wf s \<Longrightarrow> length bm = length (mark_bits s) \<Longrightarrow> bitmap_wf (s\<lparr>mark_bitmap := Ptr bm\<rparr>)"
  by (simp add: bitmap_wf_def)

lemma mem_used_marks:
  assumes "bitmap_wf s" and "i < unat (max_ip_cnt s)"
  shows "mark_of i \<in> used_marks s \<longleftrightarrow> mark_bits s ! i"
  using bitmap_wfD(3)[OF assms(1)] assms(2) by (auto simp: used_marks_def mark_of_inj)

lemma used_marks_write:
  assumes "bitmap_wf s" and "i < unat (max_ip_cnt s)"
  shows "used_marks (s\<lparr>mark_bitmap := Ptr ((mark_bits s)[i := b])\<rparr>) =
    (if b then insert (mark_of i) (used_marks s) else used_marks s - {mark_of i})"
proof -
  have "i < length (mark_bits s)" using assms bitmap_wfD(2) by fastforce
  moreover have "mark_of j = mark_of i \<longleftrightarrow> j = i" if "j < unat (max_ip_cnt s)" for j
    using that assms bitmap_wfD(3) by (simp add: mark_of_inj)
  ultimately show ?thesis
    using assms(2) by (auto simp: used_marks_def nth_list_update split: if_splits)
qed

lemma bitmap_write_app:
  "mark_bitmap s = Ptr bm \<Longrightarrow> i < length bm \<Longrightarrow>
   bitmap_write i b s = Inr ((), s\<lparr>mark_bitmap := Ptr (bm[i := b])\<rparr>)"
  by (simp add: bitmap_write_def)

section \<open>What the operations return\<close>

text \<open>The lowest clear bit among the first \<open>max_ip_cnt\<close>, or \<open>max_ip_cnt\<close>.\<close>

definition free_slot :: "kst \<Rightarrow> nat" where
  "free_slot s = first_zero (take (unat (max_ip_cnt s)) (mark_bits s))"

lemma free_slot_le: "free_slot s \<le> unat (max_ip_cnt s)"
  using first_zero_le[of "take (unat (max_ip_cnt s)) (mark_bits s)"] by (simp add: free_slot_def)

lemma free_slot_hit:
  assumes "bitmap_wf s" and "free_slot s < unat (max_ip_cnt s)"
  shows "\<not> mark_bits s ! free_slot s"
  using first_zero_hit[of "take (unat (max_ip_cnt s)) (mark_bits s)"] bitmap_wfD(2)[OF assms(1)] assms(2)
  by (simp add: free_slot_def)

lemma free_slot_least:
  assumes "i < free_slot s"
  shows "mark_bits s ! i"
proof -
  have "i < unat (max_ip_cnt s)" using assms free_slot_le[of s] by simp
  then show ?thesis
    using first_zero_least[of i "take (unat (max_ip_cnt s)) (mark_bits s)"] assms by (simp add: free_slot_def)
qed

lemma find_first_zero_bit_spec:
  assumes "bitmap_wf s"
  shows "find_first_zero_bit (unat (max_ip_cnt s)) s = Inr (free_slot s, s)"
proof -
  note wf = bitmap_wfD[OF assms]
  show ?thesis
    using wf(2) by (simp add: find_first_zero_bit_def wf(1) free_slot_def Let_def)
qed

lemma alloc_mark_spec:
  assumes "bitmap_wf s"
  shows "alloc_mark s =
    (if free_slot s < unat (max_ip_cnt s)
     then Inr (mark_of (free_slot s), s\<lparr>mark_bitmap := Ptr ((mark_bits s)[free_slot s := True])\<rparr>)
     else Inr (0, s))"
proof -
  note wf = bitmap_wfD[OF assms]
  show ?thesis
    using wf(2) by (simp add: alloc_mark_def find_first_zero_bit_spec[OF assms]
      bitmap_write_app[OF wf(1)] mark_of_def)
qed

lemma free_mark_spec:
  assumes "bitmap_wf s" and "i < unat (max_ip_cnt s)"
  shows "free_mark (mark_of i) s = Inr ((), s\<lparr>mark_bitmap := Ptr ((mark_bits s)[i := False])\<rparr>)"
proof -
  note wf = bitmap_wfD[OF assms(1)]
  show ?thesis
    unfolding free_mark_def mark_offset[OF wf(3)[OF assms(2)]]
    using wf(2) assms(2) by (simp add: bitmap_write_app[OF wf(1)])
qed

lemma test_mark_spec:
  assumes "bitmap_wf s" and "i < unat (max_ip_cnt s)"
  shows "test_mark (mark_of i) s = Inr (mark_bits s ! i, s)"
proof -
  note wf = bitmap_wfD[OF assms(1)]
  show ?thesis
    unfolding test_mark_def mark_offset[OF wf(3)[OF assms(2)]]
    using wf(2) assms(2) by (simp add: test_bit_def wf(1))
qed

lemma used_eq_pool_iff:
  assumes "bitmap_wf s"
  shows "used_marks s = mark_pool s \<longleftrightarrow> free_slot s = unat (max_ip_cnt s)"
proof
  assume eq: "used_marks s = mark_pool s"
  show "free_slot s = unat (max_ip_cnt s)"
  proof (rule ccontr)
    assume "free_slot s \<noteq> unat (max_ip_cnt s)"
    then have lt: "free_slot s < unat (max_ip_cnt s)" using free_slot_le[of s] by simp
    then have "mark_of (free_slot s) \<in> used_marks s" by (auto simp: eq mark_pool_def)
    then show False using free_slot_hit[OF assms lt] mem_used_marks[OF assms lt] by simp
  qed
next
  assume "free_slot s = unat (max_ip_cnt s)"
  then show "used_marks s = mark_pool s"
    using free_slot_least[of _ s] by (auto simp: used_marks_def mark_pool_def)
qed

lemma mark_pool_nonzero: "bitmap_wf s \<Longrightarrow> 0 \<notin> mark_pool s"
  using mark_of_nonzero bitmap_wfD(3) by (fastforce simp: mark_pool_def)

interpretation mk: mark_allocator alloc_mark free_mark used_marks mark_pool 0 bitmap_wf
proof (unfold_locales, goal_cases)
  case (1 s)
  show ?case by (simp add: mark_pool_def)
next
  case (2 s)
  then show ?case by (rule mark_pool_nonzero)
next
  case (3 s)
  then show ?case by (auto simp: used_marks_def mark_pool_def)
next
  case (4 s)
  then have lt: "free_slot s < unat (max_ip_cnt s)"
    using used_eq_pool_iff free_slot_le[of s] by fastforce
  then have "mark_of (free_slot s) \<in> mark_pool s - used_marks s"
    using 4 free_slot_hit by (auto simp: mem_used_marks mark_pool_def)
  with 4 lt show ?case
    by (simp add: alloc_mark_spec used_marks_write)
next
  case (5 s)
  then show ?case using used_eq_pool_iff by (simp add: alloc_mark_spec)
next
  case (6 s m)
  then obtain i where "i < unat (max_ip_cnt s)" "m = mark_of i" by (auto simp: mark_pool_def)
  with 6 show ?case by (simp add: free_mark_spec used_marks_write)
qed

end
