(* ===== verification/Mark_Table.thy ===== *)
theory Mark_Table
  imports Hash_Fn Mark_Bitmap
begin

text \<open>
  The hash table from addresses to marks of \<open>kmod/qos_marktbl_main.c\<close> and the layer
  \<open>qos_marktbl_hashtbl_*\<close> above it. Buckets hold the addresses of nodes in an explicit heap, because
  callers keep the pointer \<open>marktbl_hash_get\<close> returns and write through it. The interface is the
  locale \<open>mark_directory\<close>: a partial map from addresses to rule and mark.
\<close>

section \<open>Definitions\<close>

definition elem_over_limit :: "bool kop" where
  "elem_over_limit = bindM (deref g_marktbl_head) (\<lambda>h. bindM (gets max_ip_cnt) (\<lambda>m.
     ret (m < elem_num h + 1)))"

text \<open>\<open>hash_fn(key, sizeof(marktbl_node_key_t)) % head->size\<close>.\<close>

definition hash_index :: "u32 \<Rightarrow> nat kop" where
  "hash_index src_ip =
    bindM (gets (\<lambda>s. big_endian (env s))) (\<lambda>be.
    bindM (of_sum (hash_fn (key_bytes be src_ip) 4)) (\<lambda>hash.
    bindM (deref g_marktbl_head) (\<lambda>h.
    if hsize h = 0 then fail DivideByZero else ret (unat (hash mod hsize h)))))"

definition bucket_at :: "nat \<Rightarrow> addr list kop" where
  "bucket_at i = bindM (deref g_marktbl_head) (\<lambda>h.
     if i < length (ht h) then ret (ht h ! i) else fail OutOfBounds)"

definition set_bucket :: "nat \<Rightarrow> (addr list \<Rightarrow> addr list) \<Rightarrow> unit kop" where
  "set_bucket i f = set_head (\<lambda>h. h\<lparr>ht := (ht h)[i := f (ht h ! i)]\<rparr>)"

definition marktbl_hash_cmp :: "marktbl_node \<Rightarrow> u32 \<Rightarrow> bool" where
  "marktbl_hash_cmp node src_ip \<longleftrightarrow> n_src_ip node = src_ip"

text \<open>\<open>hlist_for_each_entry\<close> up to the first node with the key.\<close>

primrec find_entry :: "u32 \<Rightarrow> addr list \<Rightarrow> addr option kop" where
  "find_entry src_ip [] = ret None"
| "find_entry src_ip (a # as) =
     bindM (node_at a) (\<lambda>n. if marktbl_hash_cmp n src_ip then ret (Some a) else find_entry src_ip as)"

definition marktbl_hash_get :: "u32 \<Rightarrow> addr option kop" where
  "marktbl_hash_get src_ip =
    bindM (hash_index src_ip) (\<lambda>i.
    thenM head_lock (
    bindM (bucket_at i) (\<lambda>b.
    bindM (find_entry src_ip b) (\<lambda>r.
    case r of
      Some entry \<Rightarrow> thenM head_unlock (ret (Some entry))
    | None \<Rightarrow> thenM head_unlock (ret None)))))"

text \<open>\<open>atomic_inc(&node->count)\<close> and \<open>atomic_dec(&node->count)\<close> through a pointer that may be NULL.\<close>

definition add_count :: "addr option \<Rightarrow> u32 \<Rightarrow> unit kop" where
  "add_count p d = (case p of None \<Rightarrow> fail NullDeref
     | Some a \<Rightarrow> set_node a (\<lambda>n. n\<lparr>n_count := n_count n + d\<rparr>))"

text \<open>
  The duplicate branch increments through \<open>mark_node\<close>, which is still NULL there, and not through
  \<open>entry\<close>.
\<close>

definition marktbl_hash_add :: "u32 \<Rightarrow> u32 \<Rightarrow> u32 \<Rightarrow> int kop" where
  "marktbl_hash_add src_ip rid mark =
    bindM elem_over_limit (\<lambda>over.
    if over then ret OVER_MAX else
    bindM (hash_index src_ip) (\<lambda>i.
    thenM head_lock (
    bindM (bucket_at i) (\<lambda>b.
    bindM (find_entry src_ip b) (\<lambda>r.
    case r of
      Some entry \<Rightarrow> thenM (add_count None 1) (thenM head_unlock (ret OK))
    | None \<Rightarrow>
        bindM (bindM (gets (\<lambda>s. sizeof_marktbl_node (env s))) kmalloc) (\<lambda>ok.
        if \<not> ok then thenM head_unlock (ret ALLOC_FAIL) else
        bindM (new_node \<lparr>n_src_ip = src_ip, n_id = rid, n_mark = mark, n_count = 0\<rparr>) (\<lambda>mark_node.
        thenM (set_rule (rid - 1) (\<lambda>r. r\<lparr>r_count := r_count r + 1\<rparr>)) (
        thenM (set_bucket i (\<lambda>b. mark_node # b)) (
        thenM (set_head (\<lambda>h. h\<lparr>elem_num := elem_num h + 1\<rparr>)) (
        thenM head_unlock (ret OK)))))))))))"

definition marktbl_hash_remove :: "u32 \<Rightarrow> (int \<times> addr option) kop" where
  "marktbl_hash_remove src_ip =
    bindM (hash_index src_ip) (\<lambda>i.
    thenM head_lock (
    bindM (bucket_at i) (\<lambda>b.
    bindM (find_entry src_ip b) (\<lambda>r.
    case r of
      Some entry \<Rightarrow>
        bindM (node_at entry) (\<lambda>n.
        if 0 < sint (n_count n) then thenM head_unlock (ret (COUNT_NOZERO, None)) else
        thenM (set_bucket i (remove1 entry)) (
        thenM (set_head (\<lambda>h. h\<lparr>elem_num := elem_num h - 1\<rparr>)) (
        thenM (set_rule (n_id n - 1) (\<lambda>r. r\<lparr>r_count := r_count r - 1\<rparr>)) (
        thenM head_unlock (ret (OK, Some entry))))))
    | None \<Rightarrow> thenM head_unlock (ret (NO_EXIST, None))))))"

text \<open>\<open>marktbl_hash_clean\<close>: both nested loops, the inner one in its \<open>_safe\<close> form.\<close>

primrec clean_bucket :: "nat \<Rightarrow> addr list \<Rightarrow> unit kop" where
  "clean_bucket i [] = ret ()"
| "clean_bucket i (entry # as) =
    bindM (node_at entry) (\<lambda>_.
    thenM (set_bucket i (remove1 entry)) (
    thenM (set_head (\<lambda>h. h\<lparr>elem_num := elem_num h - 1\<rparr>)) (
    thenM (kfree_node entry) (clean_bucket i as))))"

primrec clean_buckets :: "nat list \<Rightarrow> unit kop" where
  "clean_buckets [] = ret ()"
| "clean_buckets (i # is) = bindM (bucket_at i) (\<lambda>b. thenM (clean_bucket i b) (clean_buckets is))"

definition marktbl_hash_clean :: "unit kop" where
  "marktbl_hash_clean =
    thenM head_lock (
    bindM (deref g_marktbl_head) (\<lambda>h.
    thenM (clean_buckets [0..<unat (hsize h)]) head_unlock))"

primrec list_bucket :: "addr list \<Rightarrow> unit kop" where
  "list_bucket [] = ret ()"
| "list_bucket (entry # as) =
    bindM (node_at entry) (\<lambda>n.
    thenM (printk ''%-15pI4 %-3d 0x%-6x %d'' [n_src_ip n, n_id n, n_mark n, n_count n]) (list_bucket as))"

primrec list_buckets :: "nat list \<Rightarrow> unit kop" where
  "list_buckets [] = ret ()"
| "list_buckets (i # is) = bindM (bucket_at i) (\<lambda>b. thenM (list_bucket b) (list_buckets is))"

definition marktbl_hash_list :: "unit kop" where
  "marktbl_hash_list =
    thenM head_lock (
    thenM (printk ''ip              id  mark     count'' []) (
    bindM (deref g_marktbl_head) (\<lambda>h.
    thenM (list_buckets [0..<unat (hsize h)]) head_unlock)))"

text \<open>The \<open>qos_marktbl_hashtbl_*\<close> layer.\<close>

definition qos_marktbl_hashtbl_add :: "u32 \<Rightarrow> u32 \<Rightarrow> u32 \<Rightarrow> int kop" where
  "qos_marktbl_hashtbl_add src_ip rid mark =
    bindM (test_mark mark) (\<lambda>set.
    if \<not> set then thenM (printk ''mark not alloc.'' []) (ret ERROR) else
    bindM (marktbl_hash_add src_ip rid mark) (\<lambda>r.
    thenM (whenM (r \<noteq> OK) (printk ''qos mark table fail to add.'' [])) (ret r)))"

definition qos_marktbl_hashtbl_del :: "u32 \<Rightarrow> (int \<times> u32) kop" where
  "qos_marktbl_hashtbl_del src_ip =
    bindM (marktbl_hash_remove src_ip) (\<lambda>(r, mark_node).
    case mark_node of
      Some a \<Rightarrow>
        if r = OK then bindM (node_at a) (\<lambda>n. thenM (kfree_node a) (ret (r, n_mark n)))
        else ret (r, 0)
    | None \<Rightarrow> ret (r, 0))"

definition qos_marktbl_hashtbl_get :: "u32 \<Rightarrow> (int \<times> u32) kop" where
  "qos_marktbl_hashtbl_get src_ip =
    bindM (marktbl_hash_get src_ip) (\<lambda>mark_node.
    case mark_node of
      Some a \<Rightarrow> bindM (node_at a) (\<lambda>n. ret (OK, n_mark n))
    | None \<Rightarrow> ret (NO_EXIST, 0))"

definition qos_marktbl_hashtbl_list :: "unit kop" where
  "qos_marktbl_hashtbl_list = marktbl_hash_list"

text \<open>
  The bucket array is allocated with \<open>htsize * sizeof(struct hlist_head)\<close> bytes, a product in
  \<open>size_t\<close>; when it wraps, the initialising loop writes past the array. When that allocation fails,
  the head is freed but the global pointer to it is not reset.
\<close>

definition qos_marktbl_hashtbl_init :: "int kop" where
  "qos_marktbl_hashtbl_init =
    bindM (gets max_ip_cnt) (\<lambda>htsize.
    bindM (bindM (gets (\<lambda>s. sizeof_marktbl_head (env s))) kmalloc) (\<lambda>ok.
    if \<not> ok then thenM (modify (\<lambda>s. s\<lparr>g_marktbl_head := Null\<rparr>)) (ret ERROR) else
    bindM (gets (\<lambda>s. long_bits (env s) div 8)) (\<lambda>w.
    bindM (gets (\<lambda>s. size_t s (unat htsize * w))) (\<lambda>bytes.
    bindM (kmalloc bytes) (\<lambda>ok.
    if \<not> ok then thenM (modify (\<lambda>s. s\<lparr>g_marktbl_head := Dangling\<rparr>)) (ret ERROR) else
    if bytes < unat htsize * w then fail OutOfBounds else
    thenM (modify (\<lambda>s. s\<lparr>g_marktbl_head := Ptr \<lparr>elem_num = 0, hsize = htsize,
      ht = replicate (unat htsize) [], hlock = False\<rparr>\<rparr>)) (ret 0))))))"

definition qos_marktbl_hashtbl_exit :: "unit kop" where
  "qos_marktbl_hashtbl_exit =
    bindM (gets g_marktbl_head) (\<lambda>p.
    whenM (p \<noteq> Null) (
      thenM marktbl_hash_clean (modify (\<lambda>s. s\<lparr>g_marktbl_head := Null\<rparr>))))"

end
