(* ===== verification/Mark_Table_Inv.thy ===== *)
theory Mark_Table_Inv
  imports Mark_Table
begin

text \<open>
  Correctness of the hash table of \<open>Mark_Table\<close>: its representation invariant, the partial map it
  stands for, and for every operation the exact state it leaves on a well-formed table. The effects
  are named as state transformers (\<open>insert_node\<close>, \<open>remove_node\<close>, \<open>count_rule\<close>), so that the
  invariants of the callers only have to be proved for those.
\<close>

section \<open>The representation invariant and the abstract map\<close>

definition the_head :: "kst \<Rightarrow> marktbl_head" where
  "the_head s = (case g_marktbl_head s of Ptr h \<Rightarrow> h
     | _ \<Rightarrow> \<lparr>elem_num = 0, hsize = 0, ht = [], hlock = False\<rparr>)"

definition hash_val :: "kst \<Rightarrow> u32 \<Rightarrow> u32" where
  "hash_val s ip = (case hash_fn (key_bytes (big_endian (env s)) ip) 4 of Inr h \<Rightarrow> h | Inl _ \<Rightarrow> 0)"

definition bucket_no :: "kst \<Rightarrow> u32 \<Rightarrow> nat" where
  "bucket_no s ip = unat (hash_val s ip mod hsize (the_head s))"

definition table_wf :: "kst \<Rightarrow> bool" where
  "table_wf s \<longleftrightarrow>
    g_marktbl_head s = Ptr (the_head s) \<and> \<not> hlock (the_head s) \<and> 0 < hsize (the_head s) \<and>
    length (ht (the_head s)) = unat (hsize (the_head s)) \<and>
    distinct (concat (ht (the_head s))) \<and>
    (\<forall>i < length (ht (the_head s)). \<forall>a \<in> set (ht (the_head s) ! i).
       \<exists>n. node_heap s a = Some n \<and> bucket_no s (n_src_ip n) = i) \<and>
    (\<forall>a b n m. node_heap s a = Some n \<longrightarrow> node_heap s b = Some m \<longrightarrow> n_src_ip n = n_src_ip m \<longrightarrow> a = b) \<and>
    (\<forall>a n. node_heap s a = Some n \<longrightarrow> a \<in> set (concat (ht (the_head s))) \<and> a < next_addr s) \<and>
    unat (elem_num (the_head s)) = length (concat (ht (the_head s)))"

text \<open>The node the walk of \<open>ip\<close>'s bucket finds, and the map the table stands for.\<close>

definition lookup :: "kst \<Rightarrow> u32 \<Rightarrow> addr option" where
  "lookup s ip = List.find (\<lambda>a. map_option n_src_ip (node_heap s a) = Some ip)
     (ht (the_head s) ! bucket_no s ip)"

definition table :: "kst \<Rightarrow> u32 \<Rightarrow> marktbl_node option" where
  "table s ip = Option.bind (lookup s ip) (node_heap s)"

lemma table_wfD:
  assumes "table_wf s"
  shows "g_marktbl_head s = Ptr (the_head s)" "\<not> hlock (the_head s)" "hsize (the_head s) \<noteq> 0"
    "length (ht (the_head s)) = unat (hsize (the_head s))" "distinct (concat (ht (the_head s)))"
    "unat (elem_num (the_head s)) = length (concat (ht (the_head s)))"
  using assms by (auto simp: table_wf_def)

lemma table_wf_bucket:
  "table_wf s \<Longrightarrow> i < length (ht (the_head s)) \<Longrightarrow> a \<in> set (ht (the_head s) ! i) \<Longrightarrow>
   \<exists>n. node_heap s a = Some n \<and> bucket_no s (n_src_ip n) = i"
  by (simp add: table_wf_def)

lemma table_wf_unique:
  "table_wf s \<Longrightarrow> node_heap s a = Some n \<Longrightarrow> node_heap s b = Some m \<Longrightarrow>
   n_src_ip n = n_src_ip m \<Longrightarrow> a = b"
  unfolding table_wf_def by blast

lemma table_wf_heap:
  "table_wf s \<Longrightarrow> node_heap s a = Some n \<Longrightarrow> a \<in> set (concat (ht (the_head s))) \<and> a < next_addr s"
  unfolding table_wf_def by blast

lemma bucket_no_less: "table_wf s \<Longrightarrow> bucket_no s ip < length (ht (the_head s))"
  using table_wfD[of s] by (simp add: bucket_no_def unat_mod word_neq_0_conv unat_gt_0)

lemma heap_in_bucket:
  assumes "table_wf s" and "node_heap s a = Some n"
  shows "a \<in> set (ht (the_head s) ! bucket_no s (n_src_ip n))"
proof -
  from table_wf_heap[OF assms] obtain b where "b \<in> set (ht (the_head s))" "a \<in> set b" by auto
  then obtain i where i: "i < length (ht (the_head s))" "a \<in> set (ht (the_head s) ! i)"
    by (auto simp: in_set_conv_nth)
  with table_wf_bucket[OF assms(1) i] assms(2) show ?thesis by auto
qed

lemma lookup_SomeD:
  assumes "lookup s ip = Some a"
  shows "a \<in> set (ht (the_head s) ! bucket_no s ip)" "\<exists>n. node_heap s a = Some n \<and> n_src_ip n = ip"
  using assms by (auto simp: lookup_def find_Some_iff)

lemma lookup_Some_iff:
  assumes "table_wf s"
  shows "lookup s ip = Some a \<longleftrightarrow> (\<exists>n. node_heap s a = Some n \<and> n_src_ip n = ip)"
proof
  assume "\<exists>n. node_heap s a = Some n \<and> n_src_ip n = ip"
  then obtain n where n: "node_heap s a = Some n" "n_src_ip n = ip" by blast
  with heap_in_bucket[OF assms n(1)] have "lookup s ip \<noteq> None"
    by (auto simp: lookup_def find_None_iff)
  then obtain b where b: "lookup s ip = Some b" by blast
  with lookup_SomeD(2) obtain m where "node_heap s b = Some m" "n_src_ip m = ip" by blast
  with n have "a = b" using table_wf_unique[OF assms] by blast
  with b show "lookup s ip = Some a" by simp
qed (use lookup_SomeD(2) in blast)

lemma lookup_None_iff:
  "table_wf s \<Longrightarrow> lookup s ip = None \<longleftrightarrow> (\<forall>a n. node_heap s a = Some n \<longrightarrow> n_src_ip n \<noteq> ip)"
  using lookup_Some_iff by (metis not_None_eq)

lemma table_Some_iff:
  "table_wf s \<Longrightarrow> table s ip = Some n \<longleftrightarrow> (\<exists>a. node_heap s a = Some n \<and> n_src_ip n = ip)"
  by (auto simp: table_def bind_eq_Some_conv lookup_Some_iff)

lemma table_None_iff: "table_wf s \<Longrightarrow> table s ip = None \<longleftrightarrow> lookup s ip = None"
  by (auto simp: table_def dest: lookup_SomeD split: bind_splits)

lemma table_key: "table s ip = Some n \<Longrightarrow> n_src_ip n = ip"
  by (auto simp: table_def bind_eq_Some_conv dest!: lookup_SomeD(2))

lemma table_lookup: "lookup s ip = Some a \<Longrightarrow> node_heap s a = Some n \<Longrightarrow> table s ip = Some n"
  by (simp add: table_def)

section \<open>State transformers\<close>

definition advance :: "kst \<Rightarrow> kst" where
  "advance s = s\<lparr>env_time := Suc (env_time s)\<rparr>"

definition log_line :: "string \<Rightarrow> u32 list \<Rightarrow> kst \<Rightarrow> kst" where
  "log_line f as s = s\<lparr>klog := klog s @ [(f, as)]\<rparr>"

definition insert_node :: "marktbl_node \<Rightarrow> kst \<Rightarrow> kst" where
  "insert_node n s =
    (let h = the_head s; b = bucket_no s (n_src_ip n)
     in s\<lparr>node_heap := (node_heap s)(next_addr s \<mapsto> n), next_addr := Suc (next_addr s),
          g_marktbl_head := Ptr (h\<lparr>ht := (ht h)[b := next_addr s # ht h ! b],
            elem_num := elem_num h + 1\<rparr>)\<rparr>)"

definition remove_node :: "addr \<Rightarrow> u32 \<Rightarrow> kst \<Rightarrow> kst" where
  "remove_node a ip s =
    (let h = the_head s; b = bucket_no s ip
     in s\<lparr>node_heap := (node_heap s)(a := None),
          g_marktbl_head := Ptr (h\<lparr>ht := (ht h)[b := remove1 a (ht h ! b)],
            elem_num := elem_num h - 1\<rparr>)\<rparr>)"

definition put_node :: "addr \<Rightarrow> marktbl_node \<Rightarrow> kst \<Rightarrow> kst" where
  "put_node a n s = s\<lparr>node_heap := (node_heap s)(a \<mapsto> n)\<rparr>"

definition the_rules :: "kst \<Rightarrow> ruletbl_node list" where
  "the_rules s = (case g_ruletbl s of Ptr rs \<Rightarrow> rs | _ \<Rightarrow> [])"

definition map_rule :: "u32 \<Rightarrow> (ruletbl_node \<Rightarrow> ruletbl_node) \<Rightarrow> kst \<Rightarrow> kst" where
  "map_rule i f s = s\<lparr>g_ruletbl := Ptr ((the_rules s)[unat i := f (the_rules s ! unat i)])\<rparr>"

definition count_rule :: "u32 \<Rightarrow> u32 \<Rightarrow> kst \<Rightarrow> kst" where
  "count_rule i d = map_rule i (\<lambda>r. r\<lparr>r_count := r_count r + d\<rparr>)"

lemma the_rules_upd [simp]:
  "the_rules (s\<lparr>env_time := t\<rparr>) = the_rules s" "the_rules (s\<lparr>g_marktbl_head := p\<rparr>) = the_rules s"
  "the_rules (s\<lparr>node_heap := f\<rparr>) = the_rules s" "the_rules (s\<lparr>next_addr := a\<rparr>) = the_rules s"
  "the_rules (s\<lparr>mark_bitmap := m\<rparr>) = the_rules s" "the_rules (s\<lparr>klog := l\<rparr>) = the_rules s"
  "the_rules (s\<lparr>nl_sent := q\<rparr>) = the_rules s" "the_rules (s\<lparr>qmark_op_lock := b\<rparr>) = the_rules s"
  "the_rules (s\<lparr>reset_flag := b\<rparr>) = the_rules s" "the_rules (s\<lparr>g_ruletbl := Ptr rs\<rparr>) = rs"
  by (simp_all add: the_rules_def)

definition rules_live :: "kst \<Rightarrow> bool" where
  "rules_live s \<longleftrightarrow> g_ruletbl s = Ptr (the_rules s)"

text \<open>Only the head pointer, the heap, the address counter and the byte order matter to the table.\<close>

lemma table_wf_cong:
  assumes "g_marktbl_head t = g_marktbl_head s" "node_heap t = node_heap s" "next_addr t = next_addr s"
    "env t = env s"
  shows "table_wf t = table_wf s" "table t = table s" "lookup t = lookup s" "the_head t = the_head s"
    "bucket_no t = bucket_no s"
proof -
  have h: "the_head t = the_head s" by (simp add: the_head_def assms(1))
  have b: "bucket_no t = bucket_no s" by (rule ext) (simp add: bucket_no_def hash_val_def h assms(4))
  have l: "lookup t = lookup s" by (rule ext) (simp add: lookup_def h b assms(2))
  show "table_wf t = table_wf s" by (simp add: table_wf_def h b assms)
  show "table t = table s" by (rule ext) (simp add: table_def l assms(2))
  show "lookup t = lookup s" "the_head t = the_head s" "bucket_no t = bucket_no s"
    by (fact l h b)+
qed

section \<open>The transformers on a well-formed table\<close>

lemma the_headI: "g_marktbl_head t = Ptr h \<Longrightarrow> the_head t = h"
  by (simp add: the_head_def)

lemma the_head_Ptr [simp]: "the_head (s\<lparr>g_marktbl_head := Ptr h\<rparr>) = h"
  by (simp add: the_head_def)

lemma insert_node_fields:
  "the_head (insert_node n s) = (the_head s)\<lparr>
     ht := (ht (the_head s))[bucket_no s (n_src_ip n) := next_addr s # ht (the_head s) ! bucket_no s (n_src_ip n)],
     elem_num := elem_num (the_head s) + 1\<rparr>"
  "g_marktbl_head (insert_node n s) = Ptr (the_head (insert_node n s))"
  "node_heap (insert_node n s) = (node_heap s)(next_addr s \<mapsto> n)"
  "next_addr (insert_node n s) = Suc (next_addr s)"
  "env (insert_node n s) = env s"
  unfolding insert_node_def Let_def by simp_all

lemma remove_node_fields:
  "the_head (remove_node a ip s) = (the_head s)\<lparr>
     ht := (ht (the_head s))[bucket_no s ip := remove1 a (ht (the_head s) ! bucket_no s ip)],
     elem_num := elem_num (the_head s) - 1\<rparr>"
  "g_marktbl_head (remove_node a ip s) = Ptr (the_head (remove_node a ip s))"
  "node_heap (remove_node a ip s) = (node_heap s)(a := None)"
  "next_addr (remove_node a ip s) = next_addr s"
  "env (remove_node a ip s) = env s"
  unfolding remove_node_def Let_def by simp_all

lemma bucket_no_insert [simp]: "bucket_no (insert_node n s) = bucket_no s"
  by (rule ext) (simp add: bucket_no_def hash_val_def insert_node_fields)

lemma bucket_no_remove [simp]: "bucket_no (remove_node a ip s) = bucket_no s"
  by (rule ext) (simp add: bucket_no_def hash_val_def remove_node_fields)

lemma next_addr_fresh: "table_wf s \<Longrightarrow> node_heap s (next_addr s) = None"
  using table_wf_heap[of s "next_addr s"] by (cases "node_heap s (next_addr s)") auto

lemma next_addr_not_linked:
  assumes "table_wf s"
  shows "next_addr s \<notin> set (concat (ht (the_head s)))"
proof
  assume "next_addr s \<in> set (concat (ht (the_head s)))"
  then obtain b where "b \<in> set (ht (the_head s))" "next_addr s \<in> set b" by auto
  then obtain i where "i < length (ht (the_head s))" "next_addr s \<in> set (ht (the_head s) ! i)"
    by (auto simp: in_set_conv_nth)
  from table_wf_bucket[OF assms this] next_addr_fresh[OF assms] show False by simp
qed

lemma insert_node_wf:
  assumes wf: "table_wf s" and new: "table s (n_src_ip n) = None"
    and room: "unat (elem_num (the_head s)) < 2 ^ 32 - 1"
  shows "table_wf (insert_node n s)"
proof -
  let ?b = "bucket_no s (n_src_ip n)" and ?t = "insert_node n s" and ?a = "next_addr s"
  let ?ht = "ht (the_head s)"
  note D = table_wfD[OF wf] and b = bucket_no_less[OF wf, of "n_src_ip n"]
  note C = concat_cons_update[OF b, of ?a]
  have absent: "node_heap s a = Some m \<Longrightarrow> n_src_ip m \<noteq> n_src_ip n" for a m
    using new table_None_iff[OF wf] lookup_None_iff[OF wf] by blast
  have heap: "node_heap ?t a = Some m \<longleftrightarrow> (a = ?a \<and> m = n) \<or> (a \<noteq> ?a \<and> node_heap s a = Some m)" for a m
    by (auto simp: insert_node_fields)
  have linked: "a \<in> set (concat (ht (the_head ?t))) \<longleftrightarrow> a = ?a \<or> a \<in> set (concat ?ht)" for a
    using C(1) by (auto simp: insert_node_fields)
  show ?thesis
    unfolding table_wf_def
  proof (intro conjI allI impI ballI)
    fix i a
    assume i: "i < length (ht (the_head ?t))" and a: "a \<in> set (ht (the_head ?t) ! i)"
    have "(i = ?b \<and> a = ?a) \<or> (i < length ?ht \<and> a \<in> set (?ht ! i))"
      using i a b by (cases "i = ?b") (auto simp: insert_node_fields)
    then show "\<exists>m. node_heap ?t a = Some m \<and> bucket_no ?t (n_src_ip m) = i"
      using table_wf_bucket[OF wf] next_addr_fresh[OF wf] by (fastforce simp: insert_node_fields)
  next
    fix a a' m m'
    assume "node_heap ?t a = Some m" "node_heap ?t a' = Some m'" "n_src_ip m = n_src_ip m'"
    then show "a = a'" using absent table_wf_unique[OF wf] unfolding heap by metis
  next
    fix a m
    assume "node_heap ?t a = Some m"
    then have "(a = ?a \<and> m = n) \<or> (a \<noteq> ?a \<and> node_heap s a = Some m)" by (simp only: heap)
    with table_wf_heap[OF wf] show "a \<in> set (concat (ht (the_head ?t)))" "a < next_addr ?t"
      unfolding linked by (auto simp: insert_node_fields less_Suc_eq)
  next
    show "distinct (concat (ht (the_head ?t)))"
      using C(3) D(5) next_addr_not_linked[OF wf] by (simp add: insert_node_fields)
    have "unat (elem_num (the_head s) + 1) = Suc (unat (elem_num (the_head s)))"
      using room by (simp add: unat_word_ariths)
    then show "unat (elem_num (the_head ?t)) = length (concat (ht (the_head ?t)))"
      using C(2) D(6) by (simp add: insert_node_fields)
  qed (use D in \<open>auto simp: insert_node_fields word_neq_0_conv\<close>)
qed

lemma table_insert_node:
  assumes wf: "table_wf s" and new: "table s (n_src_ip n) = None"
    and room: "unat (elem_num (the_head s)) < 2 ^ 32 - 1"
  shows "table (insert_node n s) = (table s)(n_src_ip n \<mapsto> n)"
proof (intro ext option_eqI)
  fix ip m
  have wf': "table_wf (insert_node n s)" by (rule insert_node_wf[OF assms])
  show "table (insert_node n s) ip = Some m \<longleftrightarrow> ((table s)(n_src_ip n \<mapsto> n)) ip = Some m"
    unfolding table_Some_iff[OF wf'] upd_Some_iff table_Some_iff[OF wf] insert_node_fields(3)
    using new next_addr_fresh[OF wf] table_None_iff[OF wf] lookup_None_iff[OF wf]
    by (metis option.distinct(1))
qed

lemma remove_node_wf:
  assumes wf: "table_wf s" and at: "node_heap s a = Some n" and ip: "n_src_ip n = ip"
  shows "table_wf (remove_node a ip s)"
proof -
  let ?b = "bucket_no s ip" and ?t = "remove_node a ip s" and ?ht = "ht (the_head s)"
  note D = table_wfD[OF wf] and b = bucket_no_less[OF wf, of ip]
  have a: "a \<in> set (?ht ! ?b)" using heap_in_bucket[OF wf at] by (simp add: ip)
  note C = concat_remove_update[OF b a D(5)]
  have linked: "x \<in> set (concat (ht (the_head ?t))) \<longleftrightarrow> x \<noteq> a \<and> x \<in> set (concat ?ht)" for x
    using C(1) by (auto simp: remove_node_fields)
  show ?thesis
    unfolding table_wf_def
  proof (intro conjI allI impI ballI)
    fix i x
    assume i: "i < length (ht (the_head ?t))" and x: "x \<in> set (ht (the_head ?t) ! i)"
    have "i < length ?ht" using i by (simp add: remove_node_fields)
    moreover have "x \<in> set (?ht ! i)"
      using i x b by (cases "i = ?b") (auto simp: remove_node_fields dest: set_mp[OF set_remove1_subset])
    moreover have "x \<noteq> a"
      using linked[of x] nth_in_concat[OF i x] by simp
    ultimately show "\<exists>m. node_heap ?t x = Some m \<and> bucket_no ?t (n_src_ip m) = i"
      using table_wf_bucket[OF wf] by (fastforce simp: remove_node_fields)
  next
    fix x y m m'
    assume "node_heap ?t x = Some m" "node_heap ?t y = Some m'" "n_src_ip m = n_src_ip m'"
    then show "x = y" using table_wf_unique[OF wf] by (auto simp: remove_node_fields split: if_splits)
  next
    fix x m
    assume "node_heap ?t x = Some m"
    then have "x \<noteq> a" "node_heap s x = Some m" by (auto simp: remove_node_fields split: if_splits)
    with table_wf_heap[OF wf] show "x \<in> set (concat (ht (the_head ?t)))" "x < next_addr ?t"
      unfolding linked by (auto simp: remove_node_fields)
  next
    show "distinct (concat (ht (the_head ?t)))" using C(3) by (simp add: remove_node_fields)
    have "unat (elem_num (the_head s)) \<noteq> 0" using D(6) C(2) by linarith
    then have "unat (elem_num (the_head s) - 1) = unat (elem_num (the_head s)) - 1"
      by (metis unat_minus_one unat_0)
    then show "unat (elem_num (the_head ?t)) = length (concat (ht (the_head ?t)))"
      using C(2) D(6) by (simp add: remove_node_fields)
  qed (use D in \<open>auto simp: remove_node_fields word_neq_0_conv\<close>)
qed

lemma table_remove_node:
  assumes wf: "table_wf s" and at: "node_heap s a = Some n" and ip: "n_src_ip n = ip"
  shows "table (remove_node a ip s) = (table s)(ip := None)"
proof (intro ext option_eqI)
  fix k m
  have wf': "table_wf (remove_node a ip s)" by (rule remove_node_wf[OF assms])
  show "table (remove_node a ip s) k = Some m \<longleftrightarrow> ((table s)(ip := None)) k = Some m"
    unfolding table_Some_iff[OF wf'] upd_None_iff table_Some_iff[OF wf] remove_node_fields(3)
    using table_wf_unique[OF wf] at ip by (metis option.inject)
qed

text \<open>Writing through a node pointer, as long as the key is left alone.\<close>

lemma put_node_fields:
  "the_head (put_node a n s) = the_head s" "g_marktbl_head (put_node a n s) = g_marktbl_head s"
  "node_heap (put_node a n s) = (node_heap s)(a \<mapsto> n)" "next_addr (put_node a n s) = next_addr s"
  "env (put_node a n s) = env s"
  by (simp_all add: put_node_def the_head_def)

lemma bucket_no_put [simp]: "bucket_no (put_node a n s) = bucket_no s"
  by (rule ext) (simp add: bucket_no_def hash_val_def put_node_fields)

lemma put_node_wf:
  assumes wf: "table_wf s" and at: "node_heap s a = Some m" and key: "n_src_ip n = n_src_ip m"
  shows "table_wf (put_node a n s)"
proof -
  note D = table_wfD[OF wf]
  show ?thesis
    unfolding table_wf_def
  proof (intro conjI allI impI ballI)
    fix i x
    assume "i < length (ht (the_head (put_node a n s)))" "x \<in> set (ht (the_head (put_node a n s)) ! i)"
    then show "\<exists>m. node_heap (put_node a n s) x = Some m \<and> bucket_no (put_node a n s) (n_src_ip m) = i"
      using table_wf_bucket[OF wf, of i x] at key by (auto simp: put_node_fields)
  next
    fix x y k l
    assume "node_heap (put_node a n s) x = Some k" "node_heap (put_node a n s) y = Some l"
      "n_src_ip k = n_src_ip l"
    then show "x = y"
      using table_wf_unique[OF wf] at key by (auto simp: put_node_fields split: if_splits)
  next
    fix x k
    assume "node_heap (put_node a n s) x = Some k"
    then show "x \<in> set (concat (ht (the_head (put_node a n s))))" "x < next_addr (put_node a n s)"
      using table_wf_heap[OF wf] at by (auto simp: put_node_fields split: if_splits)
  qed (use D in \<open>auto simp: put_node_fields word_neq_0_conv\<close>)
qed

lemma table_put_node:
  assumes wf: "table_wf s" and at: "node_heap s a = Some m" and key: "n_src_ip n = n_src_ip m"
  shows "table (put_node a n s) = (table s)(n_src_ip n \<mapsto> n)"
proof (intro ext option_eqI)
  fix k l
  have wf': "table_wf (put_node a n s)" by (rule put_node_wf[OF assms])
  show "table (put_node a n s) k = Some l \<longleftrightarrow> ((table s)(n_src_ip n \<mapsto> n)) k = Some l"
    unfolding table_Some_iff[OF wf'] upd_Some_iff table_Some_iff[OF wf] put_node_fields(3)
    using table_wf_unique[OF wf] at key by (metis option.inject)
qed

end
