(* ===== verification/Mark_Table_Spec.thy ===== *)
theory Mark_Table_Spec
  imports Mark_Table_Inv
begin

text \<open>
  What every operation of the hash table returns on a well-formed table, as equations over the state
  transformers of \<open>Mark_Table_Inv\<close>; the loops that empty it; its construction and destruction.
\<close>

section \<open>What the operations return\<close>

lemma hash_fn_val: "hash_fn (key_bytes (big_endian (env s)) ip) 4 = Inr (hash_val s ip)"
  using hash_fn_4[of "key_bytes (big_endian (env s)) ip"] by (auto simp: hash_val_def)

lemma hash_index_spec [kspec]: "table_wf s \<Longrightarrow> hash_index ip s = Inr (bucket_no s ip, s)"
  using table_wfD[of s] by (simp add: hash_index_def hash_fn_val bucket_no_def)

lemma bucket_at_Ptr [kmonad, simp]:
  "g_marktbl_head s = Ptr h \<Longrightarrow> i < length (ht h) \<Longrightarrow> bucket_at i s = Inr (ht h ! i, s)"
  by (simp add: bucket_at_def)

lemma set_bucket_Ptr [kmonad, simp]:
  "g_marktbl_head s = Ptr h \<Longrightarrow>
   set_bucket i f s = Inr ((), s\<lparr>g_marktbl_head := Ptr (h\<lparr>ht := (ht h)[i := f (ht h ! i)]\<rparr>)\<rparr>)"
  by (simp add: set_bucket_def)

lemma find_entry_find:
  assumes "\<forall>a \<in> set as. \<exists>n. node_heap s a = Some n"
  shows "find_entry ip as s = Inr (List.find (\<lambda>a. map_option n_src_ip (node_heap s a) = Some ip) as, s)"
  using assms by (induction as) (auto simp: marktbl_hash_cmp_def)

lemma find_entry_lookup:
  assumes "table_wf s" and "node_heap t = node_heap s"
  shows "find_entry ip (ht (the_head s) ! bucket_no s ip) t = Inr (lookup s ip, t)"
proof -
  have "\<forall>a \<in> set (ht (the_head s) ! bucket_no s ip). \<exists>n. node_heap t a = Some n"
    using table_wf_bucket[OF assms(1) bucket_no_less[OF assms(1)]] assms(2) by fastforce
  from find_entry_find[OF this] show ?thesis by (simp add: lookup_def assms(2))
qed

lemma marktbl_hash_get_spec [kspec]:
  assumes "table_wf s"
  shows "marktbl_hash_get ip s = Inr (lookup s ip, s)"
proof -
  note D = table_wfD[OF assms] and b = bucket_no_less[OF assms, of ip]
  show ?thesis
    using D(1,2) b by (simp add: marktbl_hash_get_def hash_index_spec[OF assms]
      find_entry_lookup[OF assms] split: option.split)
qed

lemma elem_over_limit_spec:
  "table_wf s \<Longrightarrow> elem_over_limit s = Inr (max_ip_cnt s < elem_num (the_head s) + 1, s)"
  using table_wfD(1)[of s] by (simp add: elem_over_limit_def)

lemma marktbl_hash_add_full:
  "table_wf s \<Longrightarrow> max_ip_cnt s < elem_num (the_head s) + 1 \<Longrightarrow>
   marktbl_hash_add ip rid mark s = Inr (OVER_MAX, s)"
  by (simp add: marktbl_hash_add_def elem_over_limit_spec)

text \<open>The address is in the table already: the increment goes through a NULL pointer.\<close>

lemma marktbl_hash_add_dup:
  assumes "table_wf s" and "\<not> max_ip_cnt s < elem_num (the_head s) + 1" and "lookup s ip = Some a"
  shows "marktbl_hash_add ip rid mark s = Inl NullDeref"
proof -
  note D = table_wfD[OF assms(1)] and b = bucket_no_less[OF assms(1), of ip]
  show ?thesis
    using D(1,2) b assms(2,3) by (simp add: marktbl_hash_add_def elem_over_limit_spec[OF assms(1)]
      hash_index_spec[OF assms(1)] find_entry_lookup[OF assms(1)] add_count_def)
qed

lemma marktbl_hash_add_new:
  assumes wf: "table_wf s" and room: "\<not> max_ip_cnt s < elem_num (the_head s) + 1"
    and absent: "lookup s ip = None" and rules: "rules_live s" and rid: "unat (rid - 1) < length (the_rules s)"
  shows "marktbl_hash_add ip rid mark s =
    (if kmalloc_ok (env s) (env_time s) (sizeof_marktbl_node (env s))
     then Inr (OK, count_rule (rid - 1) 1 (insert_node
       \<lparr>n_src_ip = ip, n_id = rid, n_mark = mark, n_count = 0\<rparr> (advance s)))
     else Inr (ALLOC_FAIL, advance s))"
proof -
  note D = table_wfD[OF wf] and b = bucket_no_less[OF wf, of ip]
  have h: "the_head (advance s) = the_head s" "bucket_no (advance s) = bucket_no s"
    using table_wf_cong[of "advance s" s] by (simp_all add: advance_def)
  show ?thesis
    using D(1,2) b room absent rules rid
    by (auto simp: marktbl_hash_add_def elem_over_limit_spec[OF wf] rules_live_def
      hash_index_spec[OF wf] find_entry_lookup[OF wf] count_rule_def map_rule_def insert_node_def
      h[unfolded advance_def] Let_def the_rules_upd advance_def kst_sort)
qed

text \<open>The rule number is not checked: past the table, the node is allocated and the count written outside it.\<close>

lemma marktbl_hash_add_oob:
  assumes wf: "table_wf s" and room: "\<not> max_ip_cnt s < elem_num (the_head s) + 1"
    and absent: "lookup s ip = None" and rules: "rules_live s" and rid: "\<not> unat (rid - 1) < length (the_rules s)"
  shows "marktbl_hash_add ip rid mark s =
    (if kmalloc_ok (env s) (env_time s) (sizeof_marktbl_node (env s)) then Inl OutOfBounds
     else Inr (ALLOC_FAIL, advance s))"
proof -
  note D = table_wfD[OF wf] and b = bucket_no_less[OF wf, of ip]
  show ?thesis
    using D(1,2) b room absent rules rid
    by (auto simp: marktbl_hash_add_def elem_over_limit_spec[OF wf] rules_live_def
      hash_index_spec[OF wf] find_entry_lookup[OF wf] set_rule_def the_rules_upd advance_def kst_sort)
qed

lemma qos_marktbl_hashtbl_del_spec [kspec]:
  assumes wf: "table_wf s" and at: "lookup s ip = Some a" "node_heap s a = Some n"
    and idle: "\<not> 0 < sint (n_count n)"
    and rules: "rules_live s" and rid: "unat (n_id n - 1) < length (the_rules s)"
  shows "qos_marktbl_hashtbl_del ip s = Inr ((OK, n_mark n), count_rule (n_id n - 1) (- 1) (remove_node a ip s))"
proof -
  note D = table_wfD[OF wf] and b = bucket_no_less[OF wf, of ip]
  show ?thesis
    using D(1,2) b at idle rules rid
    by (simp add: qos_marktbl_hashtbl_del_def marktbl_hash_remove_def rules_live_def
      hash_index_spec[OF wf] find_entry_lookup[OF wf] count_rule_def map_rule_def remove_node_def
      Let_def kst_sort)
qed

lemma qos_marktbl_hashtbl_del_busy:
  assumes wf: "table_wf s" and at: "lookup s ip = Some a" "node_heap s a = Some n" and busy: "0 < sint (n_count n)"
  shows "qos_marktbl_hashtbl_del ip s = Inr ((COUNT_NOZERO, 0), s)"
proof -
  note D = table_wfD[OF wf] and b = bucket_no_less[OF wf, of ip]
  show ?thesis
    using D(1,2) b at busy
    by (simp add: qos_marktbl_hashtbl_del_def marktbl_hash_remove_def
      hash_index_spec[OF wf] find_entry_lookup[OF wf])
qed

lemma qos_marktbl_hashtbl_del_absent:
  assumes wf: "table_wf s" and absent: "lookup s ip = None"
  shows "qos_marktbl_hashtbl_del ip s = Inr ((NO_EXIST, 0), s)"
proof -
  note D = table_wfD[OF wf] and b = bucket_no_less[OF wf, of ip]
  show ?thesis
    using D(1,2) b absent
    by (simp add: qos_marktbl_hashtbl_del_def marktbl_hash_remove_def
      hash_index_spec[OF wf] find_entry_lookup[OF wf])
qed

lemma qos_marktbl_hashtbl_get_spec [kspec]:
  assumes wf: "table_wf s"
  shows "qos_marktbl_hashtbl_get ip s =
    (case table s ip of None \<Rightarrow> Inr ((NO_EXIST, 0), s) | Some n \<Rightarrow> Inr ((OK, n_mark n), s))"
proof (cases "lookup s ip")
  case None
  then show ?thesis by (simp add: qos_marktbl_hashtbl_get_def marktbl_hash_get_spec[OF wf] table_def)
next
  case (Some a)
  then obtain n where "node_heap s a = Some n" using lookup_SomeD(2) by blast
  with Some show ?thesis
    by (simp add: qos_marktbl_hashtbl_get_def marktbl_hash_get_spec[OF wf] table_def)
qed

text \<open>A deletion that goes through has a rule to count down.\<close>

lemma qos_marktbl_hashtbl_del_oob:
  assumes wf: "table_wf s" and at: "lookup s ip = Some a" "node_heap s a = Some n"
    and idle: "\<not> 0 < sint (n_count n)"
    and rules: "rules_live s" and rid: "\<not> unat (n_id n - 1) < length (the_rules s)"
  shows "qos_marktbl_hashtbl_del ip s = Inl OutOfBounds"
proof -
  note D = table_wfD[OF wf] and b = bucket_no_less[OF wf, of ip]
  show ?thesis
    using D(1,2) b at idle rules rid
    by (simp add: qos_marktbl_hashtbl_del_def marktbl_hash_remove_def rules_live_def set_rule_def
      hash_index_spec[OF wf] find_entry_lookup[OF wf])
qed

section \<open>Emptying, building and tearing down the table\<close>

lemma clean_bucket_spec:
  assumes "g_marktbl_head s = Ptr h" "i < length (ht h)" "ht h ! i = as" "distinct as"
    "\<forall>a \<in> set as. \<exists>n. node_heap s a = Some n"
  shows "clean_bucket i as s = Inr ((), s\<lparr>node_heap := node_heap s |` (- set as),
    g_marktbl_head := Ptr (h\<lparr>ht := (ht h)[i := []], elem_num := elem_num h - of_nat (length as)\<rparr>)\<rparr>)"
  using assms
proof (induction as arbitrary: s h)
  case Nil
  have same: "(ht h)[i := []] = ht h" using Nil(3) by (metis list_update_id)
  show ?case using Nil(1) by (simp add: same restrict_UNIV)
next
  case (Cons a as)
  let ?h = "h\<lparr>ht := (ht h)[i := as], elem_num := elem_num h - 1\<rparr>"
  let ?t = "s\<lparr>g_marktbl_head := Ptr ?h, node_heap := (node_heap s)(a := None)\<rparr>"
  obtain n where n: "node_heap s a = Some n" using Cons.prems(5) by auto
  have step: "clean_bucket i (a # as) s = clean_bucket i as ?t"
    using Cons.prems(1-3) n by (simp add: kst_sort)
  have IH: "clean_bucket i as ?t = Inr ((), ?t\<lparr>node_heap := node_heap ?t |` (- set as),
     g_marktbl_head := Ptr (?h\<lparr>ht := (ht ?h)[i := []], elem_num := elem_num ?h - of_nat (length as)\<rparr>)\<rparr>)"
  proof (rule Cons.IH)
    show "\<forall>x \<in> set as. \<exists>n. node_heap ?t x = Some n" using Cons.prems(4,5) by auto
  qed (use Cons.prems(2,4) in simp_all)
  have heap: "(node_heap s)(a := None) |` (- set as) = node_heap s |` (- set (a # as))"
    by (auto simp: restrict_map_def)
  have num: "elem_num h - 1 - of_nat (length as) = elem_num h - of_nat (length (a # as))"
    by simp
  show ?case
    unfolding step IH by (simp add: heap num kst_sort del: restrict_fun_upd list.set length_Cons of_nat_Suc)
qed

lemma clean_buckets_spec:
  assumes "g_marktbl_head s = Ptr h" "length (ht h) = k + m" "distinct (concat (ht h))"
    "\<forall>a \<in> set (concat (ht h)). \<exists>n. node_heap s a = Some n"
  shows "clean_buckets [k..<k + m] s = Inr ((), s\<lparr>
    node_heap := node_heap s |` (- set (concat (drop k (ht h)))),
    g_marktbl_head := Ptr (h\<lparr>ht := take k (ht h) @ replicate m [],
      elem_num := elem_num h - of_nat (length (concat (drop k (ht h))))\<rparr>)\<rparr>)"
  using assms
proof (induction m arbitrary: k s h)
  case 0
  then show ?case by (simp add: restrict_UNIV)
next
  case (Suc m)
  let ?b = "ht h ! k"
  let ?h = "h\<lparr>ht := (ht h)[k := []], elem_num := elem_num h - of_nat (length ?b)\<rparr>"
  let ?t = "s\<lparr>node_heap := node_heap s |` (- set ?b), g_marktbl_head := Ptr ?h\<rparr>"
  have k: "k < length (ht h)" using Suc.prems(2) by simp
  note split = concat_split[OF k]
  have drop: "drop k (ht h) = ?b # drop (Suc k) (ht h)" using k by (simp add: Cons_nth_drop_Suc)
  have cb: "clean_bucket k ?b s = Inr ((), ?t)"
    using Suc.prems k by (intro clean_bucket_spec) (auto simp: split)
  have disj: "set ?b \<inter> set (concat (take k (ht h)) @ concat (drop (Suc k) (ht h))) = {}"
    using Suc.prems(3) unfolding split by auto
  have "clean_buckets [Suc k..<Suc k + m] ?t = Inr ((), ?t\<lparr>
    node_heap := node_heap ?t |` (- set (concat (drop (Suc k) (ht ?h)))),
    g_marktbl_head := Ptr (?h\<lparr>ht := take (Suc k) (ht ?h) @ replicate m [],
      elem_num := elem_num ?h - of_nat (length (concat (drop (Suc k) (ht ?h))))\<rparr>)\<rparr>)"
  proof (intro Suc.IH)
    show "\<forall>a \<in> set (concat (ht ?h)). \<exists>n. node_heap ?t a = Some n"
      using Suc.prems(4) disj k unfolding split
      by (auto simp: concat_update restrict_map_def simp del: set_concat)
    show "distinct (concat (ht ?h))"
      using Suc.prems(3) k unfolding split by (auto simp: concat_update)
  qed (use Suc.prems(2) in auto)
  moreover have "[k..<k + Suc m] = k # [Suc k..<Suc k + m]" by (simp add: upt_conv_Cons)
  moreover have "take (Suc k) ((ht h)[k := []]) @ replicate m [] = take k (ht h) @ replicate (Suc m) []"
    using k by (simp add: take_Suc_conv_app_nth)
  moreover have "node_heap s |` (- set ?b) |` (- set (concat (drop (Suc k) (ht h)))) =
      node_heap s |` (- set (concat (drop k (ht h))))"
    unfolding drop by (auto simp: restrict_map_def)
  ultimately show ?case
    using Suc.prems(1) k
    by (simp add: cb drop kst_sort diff_diff_eq add.commute del: restrict_restrict set_concat length_concat)
qed

lemma marktbl_hash_clean_spec:
  assumes wf: "table_wf s"
  shows "marktbl_hash_clean s = Inr ((), s\<lparr>node_heap := \<lambda>_. None,
    g_marktbl_head := Ptr (the_head s\<lparr>ht := replicate (unat (hsize (the_head s))) [], elem_num := 0\<rparr>)\<rparr>)"
proof -
  note D = table_wfD[OF wf]
  let ?h = "the_head s\<lparr>hlock := True\<rparr>" and ?n = "unat (hsize (the_head s))"
  let ?s = "s\<lparr>g_marktbl_head := Ptr ?h\<rparr>"
  have linked: "\<exists>n. node_heap s a = Some n" if "a \<in> set (concat (ht (the_head s)))" for a
  proof -
    from that obtain b where "b \<in> set (ht (the_head s))" "a \<in> set b" by auto
    then obtain i where "i < length (ht (the_head s))" "a \<in> set (ht (the_head s) ! i)"
      by (metis in_set_conv_nth)
    then show ?thesis using table_wf_bucket[OF wf] by blast
  qed
  have all: "clean_buckets [0..<0 + ?n] ?s = Inr ((), ?s\<lparr>
    node_heap := node_heap ?s |` (- set (concat (drop 0 (ht ?h)))),
    g_marktbl_head := Ptr (?h\<lparr>ht := take 0 (ht ?h) @ replicate ?n [],
      elem_num := elem_num ?h - of_nat (length (concat (drop 0 (ht ?h))))\<rparr>)\<rparr>)"
    using D linked by (intro clean_buckets_spec) auto
  have empty: "node_heap s |` (- set (concat (ht (the_head s)))) = (\<lambda>_. None)"
  proof (rule ext)
    fix a
    show "(node_heap s |` (- set (concat (ht (the_head s))))) a = None"
      using table_wf_heap[OF wf, of a] by (cases "node_heap s a") (simp_all add: restrict_map_def)
  qed
  have zero: "elem_num (the_head s) - of_nat (length (concat (ht (the_head s)))) = 0"
    unfolding D(6)[symmetric] by simp
  show ?thesis
    using D(1,2) all empty zero
    by (simp add: marktbl_hash_clean_def kst_sort del: set_concat length_concat)
qed

lemma qos_marktbl_hashtbl_exit_spec [kspec]:
  assumes "table_wf s"
  shows "qos_marktbl_hashtbl_exit s = Inr ((), s\<lparr>node_heap := \<lambda>_. None, g_marktbl_head := Null\<rparr>)"
  using table_wfD(1)[OF assms]
  by (simp add: qos_marktbl_hashtbl_exit_def marktbl_hash_clean_spec[OF assms] kst_sort)

definition empty_head :: "u32 \<Rightarrow> marktbl_head" where
  "empty_head n = \<lparr>elem_num = 0, hsize = n, ht = replicate (unat n) [], hlock = False\<rparr>"

lemma qos_marktbl_hashtbl_init_spec [kspec]:
  assumes "kmalloc_ok (env s) (env_time s) (sizeof_marktbl_head (env s))"
    and "kmalloc_ok (env s) (Suc (env_time s)) (unat (max_ip_cnt s) * (long_bits (env s) div 8))"
    and "unat (max_ip_cnt s) * (long_bits (env s) div 8) < 2 ^ long_bits (env s)"
  shows "qos_marktbl_hashtbl_init s =
    Inr (0, s\<lparr>env_time := env_time s + 2, g_marktbl_head := Ptr (empty_head (max_ip_cnt s))\<rparr>)"
  using assms by (simp add: qos_marktbl_hashtbl_init_def size_t_def empty_head_def)

lemma empty_head_wf:
  assumes "g_marktbl_head s = Ptr (empty_head n)" "node_heap s = (\<lambda>_. None)" "0 < n"
  shows "table_wf s" "table s ip = None"
proof -
  have h: "the_head s = empty_head n" by (simp add: the_head_def assms(1))
  show wf: "table_wf s" using assms by (simp add: table_wf_def h empty_head_def)
  show "table s ip = None" using assms(2) by (simp add: table_None_iff[OF wf] lookup_None_iff[OF wf])
qed

end
