(* ===== verification/Rule_Table.thy ===== *)
theory Rule_Table
  imports Mark_Table_Spec
begin

text \<open>
  The rule table of \<open>kmod/qos_marktbl_main.c\<close>: an array of \<open>max_rule_cnt\<close> rules, rule \<open>id\<close> at index
  \<open>id - 1\<close>. The array is allocated with \<open>sizeof(ruletbl_node_t) * max_rule_cnt\<close> bytes, a product in
  \<open>size_t\<close>, and holds as many whole rules as those bytes do; an access past them is a fault. No call
  compares an id with \<open>max_rule_cnt\<close>.
\<close>

section \<open>Definitions\<close>

definition sizeof_ruletbl_node :: nat where [simp]: "sizeof_ruletbl_node = 36"

definition qos_ruletbl_init :: "int kop" where
  "qos_ruletbl_init =
    bindM (gets (\<lambda>s. size_t s (sizeof_ruletbl_node * unat (max_rule_cnt s)))) (\<lambda>bytes.
    bindM (kmalloc bytes) (\<lambda>ok.
    if \<not> ok then thenM (modify (\<lambda>s. s\<lparr>g_ruletbl := Null\<rparr>)) (ret ERROR)
    else thenM (modify (\<lambda>s. s\<lparr>g_ruletbl := Ptr (replicate (bytes div sizeof_ruletbl_node) zero_rule)\<rparr>)) (ret OK)))"

definition qos_ruletbl_exit :: "unit kop" where
  "qos_ruletbl_exit =
    bindM (gets g_ruletbl) (\<lambda>p. case p of
      Null \<Rightarrow> ret ()
    | Dangling \<Rightarrow> fail UseAfterFree
    | Ptr _ \<Rightarrow> modify (\<lambda>s. s\<lparr>g_ruletbl := Null\<rparr>))"

definition qmark_add_rule :: "u32 \<Rightarrow> u32 \<Rightarrow> u32 \<Rightarrow> u32 \<Rightarrow> u32 \<Rightarrow> u32 \<Rightarrow> u32 \<Rightarrow> unit kop" where
  "qmark_add_rule rid mode devid rate rate_mate rate_min rate_min_mate =
    thenM op_lock (
    thenM (set_rule (rid - 1) (\<lambda>r. r\<lparr>r_on := True, r_mode := mode, r_devid := devid, r_rate := rate,
      r_rate_mate := rate_mate, r_rate_min := rate_min, r_rate_min_mate := rate_min_mate\<rparr>))
    op_unlock)"

definition qmark_del_rule :: "u32 \<Rightarrow> unit kop" where
  "qmark_del_rule rid =
    thenM op_lock (
    thenM (set_rule (rid - 1) (\<lambda>_. zero_rule)) (
    thenM (set_rule (rid - 1) (\<lambda>r. r\<lparr>r_on := False\<rparr>))
    op_unlock))"

text \<open>The characters a line of a listing shows, as the codes that \<open>%c\<close> is given.\<close>

definition on_char :: "ruletbl_node \<Rightarrow> u32" where
  "on_char r = (if r_on r then 42 else 45)"

definition mode_char :: "ruletbl_node \<Rightarrow> u32" where
  "mode_char r = (if r_mode r \<noteq> 0 then 83 else 80)"

definition rule_columns :: "ruletbl_node \<Rightarrow> u32 list" where
  "rule_columns r = [r_mark r, r_count r, r_devid r, r_rate r, r_rate_mate r, r_rate_min r, r_rate_min_mate r]"

primrec list_rules :: "nat list \<Rightarrow> unit kop" where
  "list_rules [] = ret ()"
| "list_rules (i # is) =
    bindM (rule_at (of_nat i)) (\<lambda>r.
    thenM (printk ''%c %-3d %c    0x%-6x %-4d  %-1d     %-7d %-7d   %-7d  %-7d''
      (on_char r # of_nat (i + 1) # mode_char r # rule_columns r))
    (list_rules is))"

definition qmark_list_rule :: "unit kop" where
  "qmark_list_rule =
    thenM op_lock (
    thenM (printk ''  id  mode mark     count devid rate    rate_mate rate_min rate_min_mate'' []) (
    bindM (gets max_rule_cnt) (\<lambda>cnt.
    thenM (list_rules [0..<unat cnt]) op_unlock)))"

text \<open>The result of the new allocation is dropped.\<close>

definition qmark_flush_rule :: "unit kop" where
  "qmark_flush_rule = thenM op_lock (thenM qos_ruletbl_exit (thenM qos_ruletbl_init op_unlock))"

section \<open>What the operations return\<close>

lemma the_rules_same: "rules_live s \<Longrightarrow> g_ruletbl s = Ptr (the_rules s)"
  by (simp add: rules_live_def)

lemma rules_live_map [simp]: "rules_live (map_rule i f s)" "the_rules (map_rule i f s) = (the_rules s)[unat i := f (the_rules s ! unat i)]"
  by (simp_all add: rules_live_def map_rule_def)

lemma rule_at_spec [kspec]:
  "rules_live s \<Longrightarrow> rule_at i s = (if unat i < length (the_rules s) then Inr (the_rules s ! unat i, s) else Inl OutOfBounds)"
  by (simp add: rules_live_def rule_at_def)

lemma set_rule_spec [kspec]:
  "rules_live s \<Longrightarrow> set_rule i f s = (if unat i < length (the_rules s) then Inr ((), map_rule i f s) else Inl OutOfBounds)"
  by (simp add: rules_live_def set_rule_def map_rule_def)

definition rule_settings :: "u32 \<Rightarrow> u32 \<Rightarrow> u32 \<Rightarrow> u32 \<Rightarrow> u32 \<Rightarrow> u32 \<Rightarrow> ruletbl_node \<Rightarrow> ruletbl_node" where
  "rule_settings mode devid rate rate_mate rate_min rate_min_mate r =
    r\<lparr>r_on := True, r_mode := mode, r_devid := devid, r_rate := rate,
      r_rate_mate := rate_mate, r_rate_min := rate_min, r_rate_min_mate := rate_min_mate\<rparr>"

lemma qmark_add_rule_spec [kspec]:
  assumes "rules_live s" "\<not> qmark_op_lock s"
  shows "qmark_add_rule rid mode devid rate rm rmin rmm s =
    (if unat (rid - 1) < length (the_rules s)
     then Inr ((), map_rule (rid - 1) (rule_settings mode devid rate rm rmin rmm) s) else Inl OutOfBounds)"
  using assms by (simp add: qmark_add_rule_def set_rule_def rules_live_def map_rule_def rule_settings_def kst_sort)

lemma qmark_del_rule_spec [kspec]:
  assumes "rules_live s" "\<not> qmark_op_lock s"
  shows "qmark_del_rule rid s =
    (if unat (rid - 1) < length (the_rules s)
     then Inr ((), map_rule (rid - 1) (\<lambda>_. zero_rule) s) else Inl OutOfBounds)"
  using assms by (simp add: qmark_del_rule_def set_rule_def rules_live_def map_rule_def zero_rule_def kst_sort)

lemma qos_ruletbl_init_spec [kspec]:
  assumes "kmalloc_ok (env s) (env_time s) (36 * unat (max_rule_cnt s))"
    and "36 * unat (max_rule_cnt s) < 2 ^ long_bits (env s)"
  shows "qos_ruletbl_init s = Inr (OK, s\<lparr>env_time := Suc (env_time s),
    g_ruletbl := Ptr (replicate (unat (max_rule_cnt s)) zero_rule)\<rparr>)"
  using assms by (simp add: qos_ruletbl_init_def size_t_def)

lemma qmark_flush_rule_spec [kspec]:
  assumes "rules_live s" "\<not> qmark_op_lock s"
    and "kmalloc_ok (env s) (env_time s) (36 * unat (max_rule_cnt s))"
    and "36 * unat (max_rule_cnt s) < 2 ^ long_bits (env s)"
  shows "qmark_flush_rule s = Inr ((), s\<lparr>env_time := Suc (env_time s),
    g_ruletbl := Ptr (replicate (unat (max_rule_cnt s)) zero_rule)\<rparr>)"
  using assms by (simp add: qmark_flush_rule_def qos_ruletbl_exit_def qos_ruletbl_init_spec rules_live_def kst_sort)

text \<open>A listing shows every rule, in order, and changes nothing but the log.\<close>

definition rule_line :: "kst \<Rightarrow> nat \<Rightarrow> string \<times> u32 list" where
  "rule_line s i = (''%c %-3d %c    0x%-6x %-4d  %-1d     %-7d %-7d   %-7d  %-7d'',
     on_char (the_rules s ! i) # of_nat (i + 1) # mode_char (the_rules s ! i) # rule_columns (the_rules s ! i))"

lemma rule_line_upd [simp]:
  "rule_line (s\<lparr>klog := l\<rparr>) = rule_line s" "rule_line (s\<lparr>qmark_op_lock := b\<rparr>) = rule_line s"
  by (simp_all add: rule_line_def fun_eq_iff)

lemma list_rules_spec:
  assumes "rules_live s" "\<forall>i \<in> set js. i < length (the_rules s) \<and> i < 2 ^ 32"
  shows "list_rules js s = Inr ((), s\<lparr>klog := klog s @ map (rule_line s) js\<rparr>)"
  using assms
proof (induction js arbitrary: s)
  case (Cons i js)
  let ?t = "s\<lparr>klog := klog s @ [rule_line s i]\<rparr>"
  have "rules_live ?t" "the_rules ?t = the_rules s" using Cons.prems by (simp_all add: rules_live_def)
  then have "list_rules js ?t = Inr ((), s\<lparr>klog := klog s @ rule_line s i # map (rule_line s) js\<rparr>)"
    using Cons by simp
  moreover have "list_rules (i # js) s = list_rules js ?t"
    using Cons.prems by (simp add: rule_at_spec unat_of_nat_u32 rule_line_def)
  ultimately show ?case by simp
qed simp

lemma qmark_list_rule_spec:
  assumes "rules_live s" "\<not> qmark_op_lock s" "length (the_rules s) = unat (max_rule_cnt s)"
  shows "qmark_list_rule s = Inr ((), s\<lparr>klog := klog s @
    (''  id  mode mark     count devid rate    rate_mate rate_min rate_min_mate'', []) #
    map (rule_line s) [0..<length (the_rules s)]\<rparr>)"
proof -
  let ?t = "s\<lparr>qmark_op_lock := True, klog := klog s @
    [(''  id  mode mark     count devid rate    rate_mate rate_min rate_min_mate'', [])]\<rparr>"
  have "rules_live ?t" using assms by (simp add: rules_live_def)
  moreover have "\<forall>i \<in> set [0..<unat (max_rule_cnt s)]. i < length (the_rules ?t) \<and> i < 2 ^ 32"
    using assms(3) unsigned_less[of "max_rule_cnt s"] by (auto intro: less_trans)
  ultimately have "list_rules [0..<unat (max_rule_cnt s)] ?t =
      Inr ((), ?t\<lparr>klog := klog ?t @ map (rule_line ?t) [0..<unat (max_rule_cnt s)]\<rparr>)"
    by (rule list_rules_spec)
  then show ?thesis using assms by (simp add: qmark_list_rule_def kst_sort)
qed

end
