(* ===== verification/Tc_Netlink.thy ===== *)
theory Tc_Netlink
  imports Qmark_State
begin

text \<open>
  Traffic control, \<open>kmod/qos_marktbl_tc.c\<close>: for every mark the module keeps an htb class, a pfifo
  queue and an fw filter on the LAN and on the WAN device, by building rtnetlink requests and sending
  them on a kernel socket. A request is built attribute by attribute in a buffer of fixed size;
  writing past it is a fault, as is the division by a rate below ten.
\<close>

section \<open>Building requests\<close>

text \<open>\<open>NLMSG_ALIGN\<close> and \<open>RTA_ALIGN\<close>; the sizes of the fixed part and of \<open>struct rtnl_req\<close>.\<close>

definition align4 :: "nat \<Rightarrow> nat" where
  "align4 n = 4 * ((n + 3) div 4)"

definition NLMSG_HDR :: nat where [simp]: "NLMSG_HDR = 36"
definition TCA_BUF_MAX :: nat where [simp]: "TCA_BUF_MAX = 4096"
definition sizeof_req :: nat where [simp]: "sizeof_req = 4132"

definition NLMSG_TAIL :: "rtnl_req \<Rightarrow> nat" where
  "NLMSG_TAIL n = align4 (nlmsg_len n)"

definition qmark_tc_addattr :: "rtnl_req \<Rightarrow> nat \<Rightarrow> tca \<Rightarrow> payload \<Rightarrow> nat \<Rightarrow> (int \<times> rtnl_req) kop" where
  "qmark_tc_addattr n maxlen type data alen =
    (let len = 4 + alen in
     if maxlen < align4 (nlmsg_len n) + align4 len then
       thenM (printk ''qmark_tc_err: message exceeded bound of %d'' [of_nat maxlen]) (ret (ERROR, n))
     else if sizeof_req < NLMSG_TAIL n + len then fail OutOfBounds
     else ret (OK, n\<lparr>attrs := attrs n @ [\<lparr>rta_at = NLMSG_TAIL n, rta_type = type, rta_len = len, rta_data = data\<rparr>],
                     nlmsg_len := align4 (nlmsg_len n) + align4 len\<rparr>))"

text \<open>
  \<open>tail->rta_len = NLMSG_TAIL(n) - tail\<close>: the attribute at \<open>tail\<close> now spans what follows it. The attribute is
  there because opening it, with no data, always fits (\<open>Props_Tc.tc_add_frame\<close> covers the sizes); were it refused the
  code would write the length past the last attribute, where the model changes nothing.
\<close>

definition close_nest :: "nat \<Rightarrow> rtnl_req \<Rightarrow> rtnl_req" where
  "close_nest tail n = n\<lparr>attrs := map (\<lambda>a. if rta_at a = tail then a\<lparr>rta_len := NLMSG_TAIL n - tail\<rparr> else a) (attrs n)\<rparr>"

text \<open>The calls all drop the return value of \<open>qmark_tc_addattr\<close>.\<close>

definition addattr :: "rtnl_req \<Rightarrow> nat \<Rightarrow> tca \<Rightarrow> payload \<Rightarrow> nat \<Rightarrow> rtnl_req kop" where
  "addattr n maxlen type data alen = bindM (qmark_tc_addattr n maxlen type data alen) (\<lambda>(_, n'). ret n')"

text \<open>\<open>while ((mtu >> cell_log) > 255) cell_log++\<close>.\<close>

function cell_log_loop :: "u32 \<Rightarrow> nat \<Rightarrow> nat" where
  "cell_log_loop mtu cell_log =
    (if 255 < unat (drop_bit cell_log mtu) then cell_log_loop mtu (Suc cell_log) else cell_log)"
  by pat_completeness auto
termination
proof (relation "measure (\<lambda>(m, c). unat (drop_bit c m))")
  fix m :: u32 and c :: nat
  assume h: "255 < unat (drop_bit c m)"
  have "unat (drop_bit (Suc c) m) = unat (drop_bit c m) div 2"
    unfolding unat_drop_bit_eq by (simp only: drop_bit_eq_div power_Suc2 div_mult2_eq)
  with h show "((m, Suc c), m, c) \<in> measure (\<lambda>(m, c). unat (drop_bit c m))" by simp
qed simp

declare cell_log_loop.simps [simp del]

text \<open>
  One entry of the rate table. \<open>100 * sz\<close> is computed in 32 bits, the product with the ticks of a
  millisecond in \<open>long\<close>, and the quotient is stored in 32 bits.
\<close>

definition rtab_entry :: "kst \<Rightarrow> u32 \<Rightarrow> u32 \<Rightarrow> nat \<Rightarrow> nat \<Rightarrow> u32" where
  "rtab_entry s bps mpu cell_log i =
    (let sz = push_bit cell_log (of_nat (i + 1) :: u32);
         sz = (if sz < mpu then mpu else sz)
     in of_nat (size_t s (unat (100 * sz) * ticks_per_ms (env s)) div unat (bps div 10)))"

definition qmark_tc_calc_rtable :: "tc_ratespec \<Rightarrow> int \<Rightarrow> u32 \<Rightarrow> (u32 list \<times> tc_ratespec) kop" where
  "qmark_tc_calc_rtable r cell_log mtu0 =
    (let bps = rs_rate r;
         mpu = ucast (rs_mpu r);
         mtu = (if mtu0 = 0 then 2047 else mtu0);
         cl = (if cell_log < 0 then cell_log_loop mtu 0 else nat cell_log)
     in if bps div 10 = 0 then fail DivideByZero
        else bindM (gets (\<lambda>s. map (rtab_entry s bps mpu cl) [0..<256])) (\<lambda>rtab.
             bindM (gets (\<lambda>s. 1 AND TC_LINKLAYER_MASK (env s))) (\<lambda>ll.
             ret (rtab, r\<lparr>rs_cell_align := - 1, rs_cell_log := of_nat cl, rs_linklayer := ll\<rparr>))))"

section \<open>The operations\<close>

text \<open>\<open>(rate * 1000) / 8\<close> in 32 bits, with the replacement for zero.\<close>

definition tc_rate :: "u32 \<Rightarrow> u32 \<Rightarrow> u32" where
  "tc_rate kbit dflt = (let r = (kbit * 1000) div 8 in if r = 0 then dflt else r)"

definition zero_ratespec :: tc_ratespec where
  "zero_ratespec = \<lparr>rs_cell_log = 0, rs_linklayer = 0, rs_overhead = 0, rs_cell_align = 0, rs_mpu = 0, rs_rate = 0\<rparr>"

text \<open>
  The local \<open>buffer\<close> and \<open>cbuffer\<close> (a fiftieth of the rate, at least the mtu) never reach the
  request: \<open>opt.buffer\<close> and \<open>opt.cbuffer\<close> are 20 milliseconds' worth of ticks.
\<close>

definition tc_htb_opt_parse :: "rtnl_req \<Rightarrow> u32 \<Rightarrow> u32 \<Rightarrow> u32 \<Rightarrow> rtnl_req kop" where
  "tc_htb_opt_parse n rate ceil mtu =
    (let rate = tc_rate rate 125; ceil = tc_rate ceil 125000000 in
     bindM (qmark_tc_calc_rtable (zero_ratespec\<lparr>rs_rate := rate\<rparr>) (- 1) mtu) (\<lambda>(rtab, rspec).
     bindM (qmark_tc_calc_rtable (zero_ratespec\<lparr>rs_rate := ceil\<rparr>) (- 1) mtu) (\<lambda>(ctab, cspec).
     bindM (gets (\<lambda>s. of_nat (20 * ticks_per_ms (env s)))) (\<lambda>buf.
     bindM (gets (\<lambda>s. sizeof_tc_htb_opt (env s))) (\<lambda>optlen.
     let opt = \<lparr>ho_rate = rspec, ho_ceil = cspec, ho_buffer = buf, ho_cbuffer = buf\<rparr>;
         tail = NLMSG_TAIL n in
     bindM (addattr n 1024 TCA_OPTIONS PNone 0) (\<lambda>n.
     bindM (addattr n 2024 TCA_HTB_PARMS (PHtb opt) optlen) (\<lambda>n.
     bindM (addattr n 3024 TCA_HTB_RTAB (PTable rtab) 1024) (\<lambda>n.
     bindM (addattr n 4024 TCA_HTB_CTAB (PTable ctab) 1024) (\<lambda>n.
     ret (close_nest tail n))))))))))"

text \<open>
  The send. \<open>rtnl_is_locked\<close> and the result of \<open>sock_sendmsg\<close> come from the environment; every request
  handed to the socket is recorded in \<open>nl_sent\<close>.
\<close>

definition qmark_tc_rtnl_talk :: "rtnl_req \<Rightarrow> int kop" where
  "qmark_tc_rtnl_talk n0 =
    (let n = n0\<lparr>nlmsg_flags := insert NLM_F_ACK (nlmsg_flags n0)\<rparr> in
     bindM (gets (\<lambda>s. rtnl_busy (env s) (env_time s))) (\<lambda>busy.
     thenM tick (
     if busy then
       thenM (printk ''qmark_tc_msg: rtnetlink is locked, skip tc sock_sendmsg.'' []) (ret ERROR)
     else
       bindM (gets (\<lambda>s. sendmsg_ret (env s) (env_time s) n)) (\<lambda>r.
       thenM tick (
       thenM (modify (\<lambda>s. s\<lparr>nl_sent := nl_sent s @ [n]\<rparr>)) (
       if r < 0 then thenM (printk ''qmark_tc_err: cannot talk to rtnetlink'' []) (ret ERROR)
       else thenM (whenM (int (nlmsg_len n) \<noteq> r)
              (printk ''qmark_tc_msg: kernel_sendmsg return %d != %d(nlmsg_len)'' [of_int r, of_nat (nlmsg_len n)]))
            (ret OK)))))))"

text \<open>A device name is read from its 16-byte buffer up to the first NUL, past the buffer without one.\<close>

definition cstr :: "string \<Rightarrow> fault + string" where
  "cstr buf = (if CHR 0x00 \<in> set buf then Inr (takeWhile (\<lambda>c. c \<noteq> CHR 0x00) buf) else Inl OutOfBounds)"

text \<open>\<open>dev_get_by_name\<close> on the LAN device in the first round and on the WAN device in the second.\<close>

definition get_dev :: "nat \<Rightarrow> netdev option kop" where
  "get_dev i =
    bindM (gets (if i = 0 then qmark_lan_dev else qmark_wan_dev)) (\<lambda>buf.
    bindM (of_sum (cstr buf)) (\<lambda>name.
    bindM (gets (\<lambda>s. net_device (env s) (env_time s) name)) (\<lambda>d.
    thenM tick (ret d))))"

definition new_req :: "nl_cmd \<Rightarrow> nl_flag set \<Rightarrow> rtnl_req" where
  "new_req cmd flags = \<lparr>nlmsg_len = NLMSG_HDR, nlmsg_type = cmd, nlmsg_flags = insert NLM_F_REQUEST flags,
     tcm_ifindex = 0, tcm_handle = 0, tcm_parent = 0, tcm_info = 0, attrs = []\<rparr>"

text \<open>\<open>for (i = 0; i < 2; i++)\<close> over a body that returns \<open>ERROR\<close> from the function when it fails.\<close>

definition both_devices :: "(nat \<Rightarrow> bool kop) \<Rightarrow> int kop" where
  "both_devices body =
    bindM (body 0) (\<lambda>ok. if \<not> ok then ret ERROR else
    bindM (body 1) (\<lambda>ok. if \<not> ok then ret ERROR else ret OK))"

text \<open>The minor number of a mark's class under root \<open>1:\<close>, and of the class's parent.\<close>

definition class_minor :: "u32 \<Rightarrow> u32 \<Rightarrow> u32" where
  "class_minor devid mark_offset =
    (if devid = 0 then mark_offset + 1 else (devid + 1) * TC_MAX_IP_CNT + mark_offset)"

definition parent_minor :: "u32 \<Rightarrow> u32" where
  "parent_minor devid = (if devid = 0 then 1 else devid + 1)"

definition tc_htb_class_modify :: "nl_cmd \<Rightarrow> nl_flag set \<Rightarrow> ruletbl_node \<Rightarrow> u32 \<Rightarrow> int kop" where
  "tc_htb_class_modify cmd flags rn mark =
    (let mark_offset = drop_bit MARK_BASE mark in
     both_devices (\<lambda>i.
       let req = (new_req cmd flags)\<lparr>
             tcm_handle := push_bit 16 1 OR class_minor (r_devid rn) mark_offset,
             tcm_parent := push_bit 16 1 OR parent_minor (r_devid rn)\<rparr> in
       bindM (get_dev i) (\<lambda>d. case d of None \<Rightarrow> ret False | Some dev \<Rightarrow>
         bindM (addattr (req\<lparr>tcm_ifindex := dev_ifindex dev\<rparr>) sizeof_req TCA_KIND (PStr ''htb'') 4) (\<lambda>req.
         bindM (if cmd = RTM_NEWTCLASS then
                  if i = 0 then tc_htb_opt_parse req (r_rate_min_mate rn) (r_rate_mate rn) (dev_mtu dev)
                  else tc_htb_opt_parse req (r_rate_min rn) (r_rate rn) (dev_mtu dev)
                else ret req) (\<lambda>req.
         thenM (qmark_tc_rtnl_talk req) (ret True))))))"

definition tc_pfifo_qdisc_modify :: "nl_cmd \<Rightarrow> nl_flag set \<Rightarrow> ruletbl_node \<Rightarrow> u32 \<Rightarrow> int kop" where
  "tc_pfifo_qdisc_modify cmd flags rn mark =
    (let mark_offset = drop_bit MARK_BASE mark in
     both_devices (\<lambda>i.
       let req = (new_req cmd flags)\<lparr>
             tcm_handle := push_bit 16 (class_minor (r_devid rn) mark_offset),
             tcm_parent := push_bit 16 1 OR class_minor (r_devid rn) mark_offset\<rparr> in
       bindM (get_dev i) (\<lambda>d. case d of None \<Rightarrow> ret False | Some dev \<Rightarrow>
         bindM (addattr (req\<lparr>tcm_ifindex := dev_ifindex dev\<rparr>) sizeof_req TCA_KIND (PStr ''pfifo'') 6) (\<lambda>req.
         bindM (gets (\<lambda>s. sizeof_tc_fifo_qopt (env s))) (\<lambda>optlen.
         bindM (if cmd = RTM_NEWQDISC then addattr req 1024 TCA_OPTIONS (PWord 100) optlen else ret req) (\<lambda>req.
         thenM (qmark_tc_rtnl_talk req) (ret True)))))))"

text \<open>
  \<open>tc_sfq_qdisc_modify\<close>, which nothing calls: one request, sent to the LAN device and then, with the
  index changed, to the WAN device.
\<close>

definition tc_sfq_qdisc_modify :: "nl_cmd \<Rightarrow> nl_flag set \<Rightarrow> ruletbl_node \<Rightarrow> u32 \<Rightarrow> int kop" where
  "tc_sfq_qdisc_modify cmd flags rn mark =
    (let mark_offset = drop_bit MARK_BASE mark;
         req = (new_req cmd flags)\<lparr>
             tcm_handle := push_bit 16 (class_minor (r_devid rn) mark_offset),
             tcm_parent := push_bit 16 1 OR class_minor (r_devid rn) mark_offset\<rparr> in
     bindM (get_dev 0) (\<lambda>d. case d of None \<Rightarrow> ret ERROR | Some lan \<Rightarrow>
       bindM (addattr (req\<lparr>tcm_ifindex := dev_ifindex lan\<rparr>) sizeof_req TCA_KIND (PStr ''sfq'') 4) (\<lambda>req.
       thenM (qmark_tc_rtnl_talk req) (
       bindM (get_dev 1) (\<lambda>d. case d of None \<Rightarrow> ret ERROR | Some wan \<Rightarrow>
         thenM (qmark_tc_rtnl_talk (req\<lparr>tcm_ifindex := dev_ifindex wan,
                  nlmsg_flags := insert NLM_F_ACK (nlmsg_flags req)\<rparr>)) (ret OK))))))"

definition PRIO_FILTER :: u32 where [simp]: "PRIO_FILTER = 3"

text \<open>\<open>TC_H_MAKE(maj, min)\<close>: the upper half of one number and the lower half of the other.\<close>

definition TC_H_MAKE :: "u32 \<Rightarrow> u32 \<Rightarrow> u32" where
  "TC_H_MAKE maj mn = (maj AND 0xFFFF0000) OR (mn AND 0x0000FFFF)"

definition tc_fw_filter_modify :: "nl_cmd \<Rightarrow> nl_flag set \<Rightarrow> ruletbl_node \<Rightarrow> u32 \<Rightarrow> int kop" where
  "tc_fw_filter_modify cmd flags rn mark =
    (let mark_offset = drop_bit MARK_BASE mark; mask = 0xfff800 in
     bindM (gets (\<lambda>s. if cmd = RTM_NEWTFILTER \<and> NLM_F_CREATE \<in> flags then htons_ETH_P_ALL (env s) else 0)) (\<lambda>protocol.
     both_devices (\<lambda>i.
       let req = (new_req cmd flags)\<lparr>
             tcm_parent := push_bit 16 1,
             tcm_info := TC_H_MAKE (push_bit 16 PRIO_FILTER) protocol,
             tcm_handle := mark\<rparr>;
           flowid = push_bit 16 1 OR class_minor (r_devid rn) mark_offset in
       bindM (addattr req sizeof_req TCA_KIND (PStr ''fw'') 3) (\<lambda>req.
       let tail = NLMSG_TAIL req in
       bindM (addattr req 4096 TCA_OPTIONS PNone 0) (\<lambda>req.
       bindM (addattr req 16384 TCA_FW_MASK (PWord mask) 4) (\<lambda>req.
       bindM (addattr req 4096 TCA_FW_CLASSID (PWord flowid) 4) (\<lambda>req.
       bindM (get_dev i) (\<lambda>d. case d of None \<Rightarrow> ret False | Some dev \<Rightarrow>
         thenM (qmark_tc_rtnl_talk ((close_nest tail req)\<lparr>tcm_ifindex := dev_ifindex dev\<rparr>)) (ret True)))))))))"

definition qmark_tc_add_rule :: "ruletbl_node \<Rightarrow> u32 \<Rightarrow> unit kop" where
  "qmark_tc_add_rule rn mark =
    thenM (tc_htb_class_modify RTM_NEWTCLASS {NLM_F_EXCL, NLM_F_CREATE} rn mark) (
    thenM (tc_pfifo_qdisc_modify RTM_NEWQDISC {NLM_F_EXCL, NLM_F_CREATE} rn mark) (
    thenM (tc_fw_filter_modify RTM_NEWTFILTER {NLM_F_EXCL, NLM_F_CREATE} rn mark) (ret ())))"

definition qmark_tc_del_rule :: "ruletbl_node \<Rightarrow> u32 \<Rightarrow> unit kop" where
  "qmark_tc_del_rule rn mark =
    thenM (tc_fw_filter_modify RTM_DELTFILTER {} rn mark) (
    thenM (tc_htb_class_modify RTM_DELTCLASS {} rn mark) (ret ()))"

end
