(* ===== verification/Qmark_Api.thy ===== *)
theory Qmark_Api
  imports Rule_Table Tc_Netlink
begin

text \<open>
  The calls \<open>kmod/qos_marktbl_main.c\<close> exports to the packet path and to the ioctl interface, and the
  conntrack event handler. They tie the three tables together: an address has a node in the hash
  table, the node names its rule, and the node's mark comes from the bitmap; nodes of a private rule
  have marks of their own, those of a shared rule the rule's mark.
\<close>

section \<open>Calls on the hash table\<close>

definition qmark_find_hash :: "u32 \<Rightarrow> (int \<times> u32) kop" where
  "qmark_find_hash src_ip = qos_marktbl_hashtbl_get src_ip"

definition qmark_add_hash :: "u32 \<Rightarrow> u32 \<Rightarrow> u32 \<Rightarrow> int kop" where
  "qmark_add_hash src_ip rid mark =
    thenM op_lock (
    bindM (qos_marktbl_hashtbl_add src_ip rid mark) (\<lambda>r.
    thenM op_unlock (ret r)))"

text \<open>The part that \<open>qmark_del_hash\<close> and the conntrack handler share up to the freeing of the mark.\<close>

definition mark_unshared :: "u32 \<Rightarrow> bool kop" where
  "mark_unshared rid = bindM (rule_at (rid - 1)) (\<lambda>r. ret (r_mode r = PRIV_MODE \<or> r_count r = 0))"

text \<open>The argument \<open>mark0\<close> is what \<open>*mark\<close> holds at the call.\<close>

definition qmark_del_hash :: "u32 \<Rightarrow> u32 \<Rightarrow> (int \<times> u32) kop" where
  "qmark_del_hash src_ip mark0 =
    thenM op_lock (
    bindM (marktbl_hash_get src_ip) (\<lambda>mark_node.
    case mark_node of
      None \<Rightarrow> thenM op_unlock (ret (ERROR, mark0))
    | Some a \<Rightarrow>
        thenM (add_count mark_node (- 1)) (
        bindM (node_at a) (\<lambda>n.
        if sint (n_count n) \<le> 0 then
          let rid = n_id n in
          bindM (qos_marktbl_hashtbl_del src_ip) (\<lambda>(_, mark).
          bindM (mark_unshared rid) (\<lambda>last.
          thenM (whenM last (
            thenM (set_rule (rid - 1) (\<lambda>r. r\<lparr>r_mark := 0\<rparr>))
            (free_mark mark))) (
          thenM op_unlock (ret (OK, mark)))))
        else thenM op_unlock (ret (ERROR, mark0))))))"

definition qmark_list_hash :: "unit kop" where
  "qmark_list_hash = thenM op_lock (thenM qos_marktbl_hashtbl_list op_unlock)"

definition qmark_flush_hash :: "unit kop" where
  "qmark_flush_hash =
    thenM op_lock (thenM qos_marktbl_hashtbl_exit (thenM qos_marktbl_hashtbl_init op_unlock))"

section \<open>The packet path\<close>

text \<open>
  \<open>qmark_alloc_mark_auto\<close>: the mark of a new address under rule \<open>rid\<close>, with its traffic class. The
  rule is read outside \<open>qmark_op_lock\<close>, which each of the calls takes for itself.
\<close>

definition choose_mark :: "u32 \<Rightarrow> (int \<times> u32) kop" where
  "choose_mark rid =
    bindM (rule_at (rid - 1)) (\<lambda>r.
    if r_mode r = PRIV_MODE then qmark_alloc_mark
    else if r_count r = 0 then
      bindM qmark_alloc_mark (\<lambda>(e, mark).
      if e \<noteq> 0 then ret (ERROR, mark)
      else thenM (set_rule (rid - 1) (\<lambda>r. r\<lparr>r_mark := mark\<rparr>)) (ret (OK, mark)))
    else ret (OK, r_mark r))"

definition qmark_alloc_mark_auto :: "u32 \<Rightarrow> u32 \<Rightarrow> u32 \<Rightarrow> (int \<times> u32) kop" where
  "qmark_alloc_mark_auto src_ip rid mark0 =
    bindM (gets reset_flag) (\<lambda>resetting.
    if resetting then ret (ERROR, mark0) else
    bindM (choose_mark rid) (\<lambda>(e, mark).
    if e \<noteq> 0 then ret (ERROR, mark) else
    bindM (qmark_add_hash src_ip rid mark) (\<lambda>e.
    if e \<noteq> 0 then
      bindM (mark_unshared rid) (\<lambda>last.
      thenM (whenM last (
        thenM (set_rule (rid - 1) (\<lambda>r. r\<lparr>r_mark := 0\<rparr>))
        (qmark_free_mark mark)))
      (ret (ERROR, mark)))
    else
      thenM op_lock (
      bindM (rule_at (rid - 1)) (\<lambda>r.
      thenM (qmark_tc_add_rule r mark) (
      thenM op_unlock (ret (OK, mark))))))))"

section \<open>Conntrack events\<close>

text \<open>What the handler reads of a connection: its protocol, whether it is tracked, its mark, its tuples.\<close>

record nf_conn =
  nf_ct_l3num :: u16
  nf_ct_is_untracked :: bool
  ct_mark :: u32
  orig_src_ip :: u32
  orig_dst_ip :: u32
  reply_src_ip :: u32

definition ct_ip_addr :: "nf_conn \<Rightarrow> u32" where
  "ct_ip_addr ct = (if orig_dst_ip ct = reply_src_ip ct then orig_src_ip ct else reply_src_ip ct)"

text \<open>The branch for \<open>IPCT_DESTROY\<close>: the connection that ends no longer counts for its address.\<close>

definition ct_destroy :: "u32 \<Rightarrow> unit kop" where
  "ct_destroy ip_addr =
    thenM op_lock (
    bindM (marktbl_hash_get ip_addr) (\<lambda>mark_node.
    case mark_node of
      None \<Rightarrow> op_unlock
    | Some a \<Rightarrow>
        thenM (add_count mark_node (- 1)) (
        bindM (node_at a) (\<lambda>n.
        if sint (n_count n) \<le> 0 then
          let rid = n_id n in
          bindM (qos_marktbl_hashtbl_del ip_addr) (\<lambda>(_, mark).
          bindM (mark_unshared rid) (\<lambda>last.
          thenM (whenM last (
            thenM (set_rule (rid - 1) (\<lambda>r. r\<lparr>r_mark := 0\<rparr>)) (
            bindM (rule_at (rid - 1)) (\<lambda>r.
            thenM (qmark_tc_del_rule r mark)
            (free_mark mark)))))
          op_unlock))
        else op_unlock))))"

text \<open>The branch for \<open>IPCT_MARK\<close>: one more connection of the address.\<close>

definition ct_marked :: "u32 \<Rightarrow> unit kop" where
  "ct_marked ip_addr =
    thenM op_lock (
    bindM (marktbl_hash_get ip_addr) (\<lambda>mark_node.
    thenM (whenM (mark_node \<noteq> None) (add_count mark_node 1))
    op_unlock))"

definition event_bit :: "u32 \<Rightarrow> nat \<Rightarrow> bool" where
  "event_bit events n \<longleftrightarrow> events AND push_bit n 1 \<noteq> 0"

definition qmark_conntrack_event :: "u32 \<Rightarrow> nf_conn option \<Rightarrow> unit kop" where
  "qmark_conntrack_event events item_ct =
    (case item_ct of
      None \<Rightarrow> ret ()
    | Some ct \<Rightarrow>
        bindM (gets env) (\<lambda>e.
        if nf_ct_l3num ct \<noteq> AF_INET e then ret ()
        else if nf_ct_is_untracked ct then ret ()
        else if ct_mark ct AND 0xfff800 = 0 then ret ()
        else if event_bit events (IPCT_DESTROY e) then ct_destroy (ct_ip_addr ct)
        else if event_bit events (IPCT_MARK e) then ct_marked (ct_ip_addr ct)
        else ret ()))"

section \<open>Reconfiguration\<close>

text \<open>The results of the three allocations are dropped.\<close>

definition qmark_set_spec :: "u32 \<Rightarrow> u32 \<Rightarrow> unit kop" where
  "qmark_set_spec ip_spec rule_spec =
    thenM op_lock (
    thenM qos_marktbl_hashtbl_exit (
    thenM qos_ruletbl_exit (
    thenM mark_bitmap_exit (
    thenM (modify (\<lambda>s. s\<lparr>max_rule_cnt := rule_spec\<rparr>)) (
    thenM (modify (\<lambda>s. s\<lparr>max_ip_cnt := ip_spec\<rparr>)) (
    thenM (mark_bitmap_init ip_spec) (
    thenM qos_ruletbl_init (
    thenM qos_marktbl_hashtbl_init op_unlock))))))))"

primrec zero_counts :: "nat list \<Rightarrow> unit kop" where
  "zero_counts [] = ret ()"
| "zero_counts (i # is) = thenM (set_rule (of_nat i) (\<lambda>r. r\<lparr>r_count := 0\<rparr>)) (zero_counts is)"

text \<open>\<open>qmark_flush_hash\<close> is called with \<open>qmark_op_lock\<close> held.\<close>

definition qmark_reset :: "u32 \<Rightarrow> unit kop" where
  "qmark_reset flag =
    (if flag = 0 then modify (\<lambda>s. s\<lparr>reset_flag := False\<rparr>)
     else
       thenM (modify (\<lambda>s. s\<lparr>reset_flag := True\<rparr>)) (
       thenM op_lock (
       thenM flush_mark (
       thenM qmark_flush_hash (
       bindM (gets max_rule_cnt) (\<lambda>cnt.
       thenM (zero_counts [0..<unat cnt]) op_unlock))))))"

section \<open>Debug output\<close>

primrec dump_rules :: "nat list \<Rightarrow> unit kop" where
  "dump_rules [] = ret ()"
| "dump_rules (i # is) =
    bindM (rule_at (of_nat i)) (\<lambda>r.
    thenM (whenM (r_on r) (printk ''%-3d %c    0x%-6x %-4d  %-1d     %-7d %-7d   %-7d  %-7d''
      (of_nat (i + 1) # mode_char r # rule_columns r)))
    (dump_rules is))"

primrec dump_marks :: "nat list \<Rightarrow> unit kop" where
  "dump_marks [] = ret ()"
| "dump_marks (i # is) =
    bindM (test_bit i) (\<lambda>b.
    thenM (whenM b (printk ''%-3d 0x%x'' [of_nat (i + 1), push_bit MARK_BASE (of_nat (i + 1))]))
    (dump_marks is))"

definition banner :: "string \<Rightarrow> string" where
  "banner title = ''=========='' @ [CHR 0x0A] @ title @ [CHR 0x0A] @ ''==========''"

definition qmark_dump :: "unit kop" where
  "qmark_dump =
    thenM op_lock (
    thenM (printk (banner ''rule table'' @ [CHR 0x0A] @
      ''id  mode mark     count devid rate    rate_mate rate_min rate_min_mate'') []) (
    bindM (gets max_rule_cnt) (\<lambda>rules.
    thenM (dump_rules [0..<unat rules]) (
    thenM (printk (CHR 0x0A # banner ''hash table'') []) (
    thenM qos_marktbl_hashtbl_list (
    thenM (printk (CHR 0x0A # banner ''mark table'' @ [CHR 0x0A] @ ''id  mark'') []) (
    bindM (gets max_ip_cnt) (\<lambda>ips.
    thenM (dump_marks [0..<unat ips]) (
    thenM (printk '''' []) op_unlock)))))))))"

end
