(* ===== verification/Qmark_Model.thy ===== *)
theory Qmark_Model
  imports Qmark_State
begin

text \<open>
  The abstract specification of the module: what the tables are for, without their representation.
  A view is a map from addresses to their nodes, the list of rules and the set of marks in use; a
  view is consistent (\<open>view_ok\<close>) when every address has a mark of its own or shares its rule's mark
  with the addresses of that rule, every rule counts its addresses, and the marks in use are
  exactly those of some address. The transitions of a view are what the module's calls may do to
  it; they keep it consistent.
\<close>

section \<open>Views\<close>

record qview =
  v_table :: "u32 \<Rightarrow> marktbl_node option"
  v_rules :: "ruletbl_node list"
  v_used :: "u32 set"

definition rule_ix :: "marktbl_node \<Rightarrow> nat" where
  "rule_ix n = unat (n_id n - 1)"

lemma rule_ix_node [simp]:
  "rule_ix \<lparr>n_src_ip = ip, n_id = rid, n_mark = mark, n_count = c\<rparr> = unat (rid - 1)"
  "rule_ix (n\<lparr>n_count := c\<rparr>) = rule_ix n"
  by (simp_all add: rule_ix_def)

definition members :: "(u32 \<Rightarrow> marktbl_node option) \<Rightarrow> nat \<Rightarrow> u32 set" where
  "members T i = {ip. \<exists>n. T ip = Some n \<and> rule_ix n = i}"

definition nodes_ok :: "qview \<Rightarrow> bool" where
  "nodes_ok v \<longleftrightarrow> finite (dom (v_table v)) \<and> (\<forall>ip n. v_table v ip = Some n \<longrightarrow>
     n_src_ip n = ip \<and> rule_ix n < length (v_rules v) \<and> n_mark n \<in> v_used v)"

definition marks_separate :: "qview \<Rightarrow> bool" where
  "marks_separate v \<longleftrightarrow> (\<forall>ip jp n m. v_table v ip = Some n \<longrightarrow> v_table v jp = Some m \<longrightarrow> n_mark n = n_mark m \<longrightarrow>
     ip = jp \<or> (rule_ix n = rule_ix m \<and> r_mode (v_rules v ! rule_ix n) \<noteq> PRIV_MODE))"

definition marks_shared :: "qview \<Rightarrow> bool" where
  "marks_shared v \<longleftrightarrow> (\<forall>ip n. v_table v ip = Some n \<longrightarrow> r_mode (v_rules v ! rule_ix n) \<noteq> PRIV_MODE \<longrightarrow>
     n_mark n = r_mark (v_rules v ! rule_ix n))"

definition counts_ok :: "qview \<Rightarrow> bool" where
  "counts_ok v \<longleftrightarrow> (\<forall>i < length (v_rules v). unat (r_count (v_rules v ! i)) = card (members (v_table v) i))"

definition no_leak :: "qview \<Rightarrow> bool" where
  "no_leak v \<longleftrightarrow> (\<forall>k \<in> v_used v. \<exists>ip n. v_table v ip = Some n \<and> n_mark n = k)"

definition view_ok :: "qview \<Rightarrow> bool" where
  "view_ok v \<longleftrightarrow> nodes_ok v \<and> marks_separate v \<and> marks_shared v \<and> counts_ok v \<and> no_leak v"

lemmas view_defs = nodes_ok_def marks_separate_def marks_shared_def counts_ok_def no_leak_def

text \<open>The mark of a rule is unshared when the rule is private or has no addresses.\<close>

definition unshared :: "ruletbl_node \<Rightarrow> bool" where
  "unshared r \<longleftrightarrow> r_mode r = PRIV_MODE \<or> r_count r = 0"

section \<open>Members of a rule\<close>

lemma members_upd_new:
  "T ip = None \<Longrightarrow> members (T(ip \<mapsto> n)) i = (if i = rule_ix n then insert ip (members T i) else members T i)"
  by (auto simp: members_def)

lemma members_del:
  "T ip = Some n \<Longrightarrow> members (T(ip := None)) i = (if i = rule_ix n then members T i - {ip} else members T i)"
  by (auto simp: members_def)

lemma members_dom: "members T i \<subseteq> dom T"
  by (auto simp: members_def)

lemma finite_members: "nodes_ok v \<Longrightarrow> finite (members (v_table v) i)"
  by (meson members_dom finite_subset nodes_ok_def)

lemma not_member: "T ip = None \<Longrightarrow> ip \<notin> members T i"
  by (simp add: members_def)

text \<open>A rule with no addresses.\<close>

lemma count_zero:
  assumes "view_ok v" "i < length (v_rules v)" "r_count (v_rules v ! i) = 0" "v_table v ip = Some n"
  shows "rule_ix n \<noteq> i"
proof
  assume "rule_ix n = i"
  then have "ip \<in> members (v_table v) i" using assms(4) by (auto simp: members_def)
  moreover have "card (members (v_table v) i) = 0"
    using assms(1-3) by (metis view_ok_def counts_ok_def unat_0)
  ultimately show False using finite_members[of v i] assms(1) by (auto simp: view_ok_def)
qed

lemma word_count_up: "unat (c :: u32) = k \<Longrightarrow> k < 2 ^ 32 - 1 \<Longrightarrow> unat (c + 1) = Suc k"
  by (simp add: unat_word_ariths)

lemma word_count_down: "unat (c :: u32) = k \<Longrightarrow> 0 < k \<Longrightarrow> unat (c - 1) = k - 1"
  by (metis unat_minus_one unat_0 less_numeral_extra(3))

lemma no_leak_upd:
  assumes "no_leak v" "v_table v ip = None \<or> v_table v ip = Some m \<and> n_mark m = n_mark n" "U \<subseteq> insert (n_mark n) (v_used v)"
  shows "no_leak (v\<lparr>v_table := (v_table v)(ip \<mapsto> n), v_rules := R, v_used := U\<rparr>)"
  unfolding no_leak_def
proof (intro ballI)
  fix k
  assume "k \<in> v_used (v\<lparr>v_table := (v_table v)(ip \<mapsto> n), v_rules := R, v_used := U\<rparr>)"
  then have "k = n_mark n \<or> k \<in> v_used v" using assms(3) by auto
  then obtain jp m' where "k = n_mark n \<or> (jp \<noteq> ip \<and> v_table v jp = Some m' \<and> n_mark m' = k)"
    using assms(1,2) unfolding no_leak_def by (metis option.distinct(1) option.inject)
  then show "\<exists>jp m. v_table (v\<lparr>v_table := (v_table v)(ip \<mapsto> n), v_rules := R, v_used := U\<rparr>) jp = Some m \<and> n_mark m = k"
    by (cases "k = n_mark n") (auto intro: exI[of _ ip] exI[of _ jp])
qed

section \<open>Transitions\<close>

text \<open>An address is admitted under a rule with a fresh mark, which becomes the mark of a shared rule.\<close>

definition admit_fresh :: "u32 \<Rightarrow> u32 \<Rightarrow> u32 \<Rightarrow> qview \<Rightarrow> qview" where
  "admit_fresh ip rid mark v =
    (let i = unat (rid - 1); r = v_rules v ! i in
     v\<lparr>v_table := (v_table v)(ip \<mapsto> \<lparr>n_src_ip = ip, n_id = rid, n_mark = mark, n_count = 0\<rparr>),
       v_rules := (v_rules v)[i := r\<lparr>r_mark := (if r_mode r = PRIV_MODE then r_mark r else mark), r_count := r_count r + 1\<rparr>],
       v_used := insert mark (v_used v)\<rparr>)"

text \<open>An address is admitted under a shared rule that has a mark.\<close>

definition admit_shared :: "u32 \<Rightarrow> u32 \<Rightarrow> qview \<Rightarrow> qview" where
  "admit_shared ip rid v =
    (let i = unat (rid - 1); r = v_rules v ! i in
     v\<lparr>v_table := (v_table v)(ip \<mapsto> \<lparr>n_src_ip = ip, n_id = rid, n_mark = r_mark r, n_count = 0\<rparr>),
       v_rules := (v_rules v)[i := r\<lparr>r_count := r_count r + 1\<rparr>]\<rparr>)"

text \<open>An address leaves; its mark is released when no other address has it.\<close>

definition leave :: "u32 \<Rightarrow> qview \<Rightarrow> qview" where
  "leave ip v = (case v_table v ip of None \<Rightarrow> v | Some n \<Rightarrow>
     let i = rule_ix n; r = (v_rules v ! i)\<lparr>r_count := r_count (v_rules v ! i) - 1\<rparr> in
     if unshared r then v\<lparr>v_table := (v_table v)(ip := None), v_rules := (v_rules v)[i := r\<lparr>r_mark := 0\<rparr>],
                          v_used := v_used v - {n_mark n}\<rparr>
     else v\<lparr>v_table := (v_table v)(ip := None), v_rules := (v_rules v)[i := r]\<rparr>)"

text \<open>The connections of an address change.\<close>

definition recount :: "u32 \<Rightarrow> u32 \<Rightarrow> qview \<Rightarrow> qview" where
  "recount ip d v = (case v_table v ip of None \<Rightarrow> v
     | Some n \<Rightarrow> v\<lparr>v_table := (v_table v)(ip \<mapsto> n\<lparr>n_count := n_count n + d\<rparr>)\<rparr>)"

text \<open>A rule without addresses is reconfigured.\<close>

definition configure :: "u32 \<Rightarrow> (ruletbl_node \<Rightarrow> ruletbl_node) \<Rightarrow> qview \<Rightarrow> qview" where
  "configure rid f v = v\<lparr>v_rules := (v_rules v)[unat (rid - 1) := f (v_rules v ! unat (rid - 1))]\<rparr>"

lemma admit_fresh_ok:
  assumes ok: "view_ok v" and i: "unat (rid - 1) < length (v_rules v)" and new: "v_table v ip = None"
    and fresh: "mark \<notin> v_used v" and un: "unshared (v_rules v ! unat (rid - 1))" and room: "card (dom (v_table v)) < 2 ^ 32 - 1"
  shows "view_ok (admit_fresh ip rid mark v)"
proof -
  let ?T = "v_table v" and ?R = "v_rules v" and ?i = "unat (rid - 1)"
  let ?n = "\<lparr>n_src_ip = ip, n_id = rid, n_mark = mark, n_count = 0\<rparr>"
  note V = ok[unfolded view_ok_def]
  have other: "n_mark m \<noteq> mark" "rule_ix m < length ?R" if "?T jp = Some m" for jp m
    using V fresh that by (auto simp: nodes_ok_def)
  have empty: "r_mode (?R ! rule_ix m) = PRIV_MODE" if "?T jp = Some m" "?i = rule_ix m" for jp m
    using count_zero[OF ok i _ that(1)] un that(2) by (auto simp: unshared_def)
  have fin: "finite (members ?T j)" for j using finite_members V by blast
  have card: "card (members ?T j) < 2 ^ 32 - 1" for j
    using card_mono[of "dom ?T" "members ?T j"] members_dom[of ?T j] V room by (auto simp: nodes_ok_def)
  have "nodes_ok (admit_fresh ip rid mark v)"
    using V i by (auto simp: nodes_ok_def admit_fresh_def Let_def)
  moreover have "marks_separate (admit_fresh ip rid mark v)"
    using V other i by (auto simp: marks_separate_def admit_fresh_def Let_def nth_list_update)
  moreover have "marks_shared (admit_fresh ip rid mark v)"
    using V i by (auto simp: marks_shared_def admit_fresh_def Let_def nth_list_update dest: empty)
  moreover have "counts_ok (admit_fresh ip rid mark v)"
    using V i fin card not_member[of ?T ip] new
    by (auto simp: counts_ok_def admit_fresh_def Let_def nth_list_update members_upd_new word_count_up)
  moreover have "no_leak (admit_fresh ip rid mark v)"
    unfolding admit_fresh_def Let_def using V new by (intro no_leak_upd) auto
  ultimately show ?thesis by (simp add: view_ok_def)
qed

lemma admit_shared_ok:
  assumes ok: "view_ok v" and i: "unat (rid - 1) < length (v_rules v)" and new: "v_table v ip = None"
    and sh: "\<not> unshared (v_rules v ! unat (rid - 1))" and room: "card (dom (v_table v)) < 2 ^ 32 - 1"
  shows "view_ok (admit_shared ip rid v)" "r_mark (v_rules v ! unat (rid - 1)) \<in> v_used v"
proof -
  let ?T = "v_table v" and ?R = "v_rules v" and ?i = "unat (rid - 1)"
  let ?n = "\<lparr>n_src_ip = ip, n_id = rid, n_mark = r_mark (?R ! ?i), n_count = 0\<rparr>"
  note V = ok[unfolded view_ok_def]
  have mode: "r_mode (?R ! ?i) \<noteq> PRIV_MODE" "r_count (?R ! ?i) \<noteq> 0" using sh by (auto simp: unshared_def)
  have fin: "finite (members ?T j)" for j using finite_members V by blast
  have card: "card (members ?T j) < 2 ^ 32 - 1" for j
    using card_mono[of "dom ?T" "members ?T j"] members_dom[of ?T j] V room by (auto simp: nodes_ok_def)
  have "card (members ?T ?i) \<noteq> 0" using V i mode(2) by (metis counts_ok_def unat_eq_zero)
  then obtain jp m where m: "?T jp = Some m" "rule_ix m = ?i" using fin[of ?i] by (auto simp: members_def)
  with V mode(1) have mm: "n_mark m = r_mark (?R ! ?i)" by (metis marks_shared_def)
  show used: "r_mark (?R ! ?i) \<in> v_used v" using V m mm by (metis nodes_ok_def)
  have sep: "rule_ix k = ?i" if "?T kp = Some k" "n_mark k = r_mark (?R ! ?i)" for kp k
    using V that m mm unfolding marks_separate_def by (metis option.inject)
  have "nodes_ok (admit_shared ip rid v)"
    using V i used by (auto simp: nodes_ok_def admit_shared_def Let_def)
  moreover have "marks_separate (admit_shared ip rid v)"
    using V i sep mode(1) by (auto simp: marks_separate_def admit_shared_def Let_def nth_list_update)
  moreover have "marks_shared (admit_shared ip rid v)"
    using V i by (auto simp: marks_shared_def admit_shared_def Let_def nth_list_update)
  moreover have "counts_ok (admit_shared ip rid v)"
    using V i fin card not_member[of ?T ip] new
    by (auto simp: counts_ok_def admit_shared_def Let_def nth_list_update members_upd_new word_count_up)
  moreover have "no_leak (admit_shared ip rid v)"
    using no_leak_upd[of v ip _ ?n "v_used v"] V new by (auto simp: admit_shared_def Let_def)
  ultimately show "view_ok (admit_shared ip rid v)" by (simp add: view_ok_def)
qed

lemma leave_ok:
  assumes ok: "view_ok v" and T: "v_table v ip = Some n"
  shows "view_ok (leave ip v)"
proof -
  let ?T = "v_table v" and ?R = "v_rules v" and ?i = "rule_ix n"
  note V = ok[unfolded view_ok_def]
  have i: "?i < length ?R" using V T by (auto simp: nodes_ok_def)
  have fin: "finite (members ?T j)" for j using finite_members V by blast
  have mem: "ip \<in> members ?T ?i" using T by (auto simp: members_def)
  then have pos: "0 < card (members ?T ?i)" using fin[of ?i] by (auto simp: card_gt_0_iff)
  have cnt: "unat (r_count (?R ! ?i)) = card (members ?T ?i)" using V i by (auto simp: counts_ok_def)
  have down: "unat (r_count (?R ! ?i) - 1) = card (members ?T ?i - {ip})"
    using word_count_down[OF cnt pos] mem fin[of ?i] by simp
  have last: "jp = ip" if "r_count (?R ! ?i) - 1 = 0" "?T jp = Some m" "rule_ix m = ?i" for jp m
  proof -
    have "card (members ?T ?i - {ip}) = 0" using down that(1) by simp
    then have "members ?T ?i - {ip} = {}" using fin[of ?i] by simp
    with that(2,3) show ?thesis by (auto simp: members_def)
  qed
  have alone: "jp = ip" if u: "unshared ((?R ! ?i)\<lparr>r_count := r_count (?R ! ?i) - 1\<rparr>)"
      and m: "?T jp = Some m" "n_mark m = n_mark n" for jp m
  proof -
    have "jp = ip \<or> (rule_ix m = ?i \<and> r_mode (?R ! ?i) \<noteq> PRIV_MODE)"
      using V T m unfolding marks_separate_def by metis
    then show ?thesis using u last[OF _ m(1)] by (auto simp: unshared_def)
  qed
  have other: "\<exists>jp m. jp \<noteq> ip \<and> ?T jp = Some m \<and> n_mark m = n_mark n"
    if u: "\<not> unshared ((?R ! ?i)\<lparr>r_count := r_count (?R ! ?i) - 1\<rparr>)"
  proof -
    have mode: "r_mode (?R ! ?i) \<noteq> PRIV_MODE" and "r_count (?R ! ?i) - 1 \<noteq> 0" using u by (auto simp: unshared_def)
    then have "card (members ?T ?i - {ip}) \<noteq> 0" using down by (metis unat_eq_zero)
    then have "members ?T ?i - {ip} \<noteq> {}" by (metis card.empty)
    then obtain jp where "jp \<in> members ?T ?i - {ip}" by blast
    then obtain m where m: "jp \<noteq> ip" "?T jp = Some m" "rule_ix m = ?i" by (auto simp: members_def)
    then have "n_mark m = n_mark n" using V T mode by (metis marks_shared_def)
    with m show ?thesis by blast
  qed
  show ?thesis
  proof (cases "unshared ((?R ! ?i)\<lparr>r_count := r_count (?R ! ?i) - 1\<rparr>)")
    case True
    have v': "leave ip v = v\<lparr>v_table := ?T(ip := None),
        v_rules := ?R[?i := (?R ! ?i)\<lparr>r_count := r_count (?R ! ?i) - 1, r_mark := 0\<rparr>], v_used := v_used v - {n_mark n}\<rparr>"
      using T True by (simp add: leave_def Let_def)
    have "nodes_ok (leave ip v)" using V alone[OF True] by (auto simp: nodes_ok_def v')
    moreover have "marks_separate (leave ip v)"
      using V i by (auto simp: marks_separate_def v' nth_list_update)
    moreover have "marks_shared (leave ip v)"
      using V i True last by (auto simp: marks_shared_def v' nth_list_update unshared_def)
    moreover have "counts_ok (leave ip v)"
      using V i down by (auto simp: counts_ok_def v' nth_list_update members_del[where T = "?T" and ip = ip and n = n, OF T])
    moreover have "no_leak (leave ip v)"
      using V T by (auto simp: no_leak_def v') (metis option.inject)
    ultimately show ?thesis by (simp add: view_ok_def)
  next
    case False
    have v': "leave ip v = v\<lparr>v_table := ?T(ip := None),
        v_rules := ?R[?i := (?R ! ?i)\<lparr>r_count := r_count (?R ! ?i) - 1\<rparr>]\<rparr>"
      using T False by (simp add: leave_def Let_def)
    have "nodes_ok (leave ip v)" using V by (auto simp: nodes_ok_def v')
    moreover have "marks_separate (leave ip v)"
      using V i by (auto simp: marks_separate_def v' nth_list_update)
    moreover have "marks_shared (leave ip v)"
      using V i by (auto simp: marks_shared_def v' nth_list_update)
    moreover have "counts_ok (leave ip v)"
      using V i down by (auto simp: counts_ok_def v' nth_list_update members_del[where T = "?T" and ip = ip and n = n, OF T])
    moreover have "no_leak (leave ip v)"
      using V T other[OF False] by (auto simp: no_leak_def v') (metis option.inject)
    ultimately show ?thesis by (simp add: view_ok_def)
  qed
qed

lemma recount_ok:
  assumes ok: "view_ok v"
  shows "view_ok (recount ip d v)"
proof (cases "v_table v ip")
  case None
  then show ?thesis using ok by (simp add: recount_def)
next
  case (Some n)
  have v': "recount ip d v = v\<lparr>v_table := (v_table v)(ip \<mapsto> n\<lparr>n_count := n_count n + d\<rparr>)\<rparr>"
    using Some by (simp add: recount_def)
  note V = ok[unfolded view_ok_def]
  have m: "members ((v_table v)(ip \<mapsto> n\<lparr>n_count := n_count n + d\<rparr>)) = members (v_table v)"
    using Some by (auto simp: fun_eq_iff members_def)
  have "nodes_ok (recount ip d v)" using V Some by (auto simp: nodes_ok_def v')
  moreover have "marks_separate (recount ip d v)" using V Some by (auto simp: marks_separate_def v')
  moreover have "marks_shared (recount ip d v)" using V Some by (auto simp: marks_shared_def v')
  moreover have "counts_ok (recount ip d v)" using V by (simp add: counts_ok_def v' m)
  moreover have "no_leak (recount ip d v)"
  proof -
    have "recount ip d v = v\<lparr>v_table := (v_table v)(ip \<mapsto> n\<lparr>n_count := n_count n + d\<rparr>), v_rules := v_rules v, v_used := v_used v\<rparr>"
      by (simp add: v')
    moreover have "no_leak \<dots>" using V Some by (intro no_leak_upd) auto
    ultimately show ?thesis by (simp only:)
  qed
  ultimately show ?thesis by (simp add: view_ok_def)
qed

lemma configure_ok:
  assumes ok: "view_ok v" and i: "unat (rid - 1) < length (v_rules v)"
    and idle: "r_count (v_rules v ! unat (rid - 1)) = 0" and f: "\<And>r. r_count r = 0 \<Longrightarrow> r_count (f r) = 0"
  shows "view_ok (configure rid f v)"
proof -
  note V = ok[unfolded view_ok_def]
  have e: "(v_rules v)[unat (rid - 1) := x] ! rule_ix n = v_rules v ! rule_ix n" if "v_table v ip = Some n" for ip n x
    using count_zero[OF ok i idle that] by simp
  have "nodes_ok (configure rid f v)" using V by (auto simp: nodes_ok_def configure_def)
  moreover have "marks_separate (configure rid f v)"
    using V by (auto simp: marks_separate_def configure_def e)
  moreover have "marks_shared (configure rid f v)"
    using V by (auto simp: marks_shared_def configure_def e)
  moreover have "counts_ok (configure rid f v)"
    using V i idle f[OF idle] by (auto simp: counts_ok_def configure_def nth_list_update)
  moreover have "no_leak (configure rid f v)" using V by (auto simp: no_leak_def configure_def)
  ultimately show ?thesis by (simp add: view_ok_def)
qed

text \<open>The mark of a rule that is private or has no addresses does not matter.\<close>

lemma forget_mark_ok:
  assumes ok: "view_ok v" and i: "unat (rid - 1) < length (v_rules v)" and un: "unshared (v_rules v ! unat (rid - 1))"
  shows "view_ok (configure rid (\<lambda>r. r\<lparr>r_mark := m\<rparr>) v)"
proof (cases "r_count (v_rules v ! unat (rid - 1)) = 0")
  case True
  then show ?thesis by (intro configure_ok ok i) simp_all
next
  case False
  with un have p: "r_mode (v_rules v ! unat (rid - 1)) = PRIV_MODE" by (simp add: unshared_def)
  show ?thesis
    using ok i p unfolding view_ok_def view_defs configure_def by (auto simp: nth_list_update)
qed

end
