(* ===== verification/Tc_Spec.thy ===== *)
theory Tc_Spec
  imports Tc_Netlink
begin

text \<open>
  Correctness of the traffic control requests. A call of \<open>Tc_Netlink\<close> changes nothing of the module's
  state but its clock of environment calls, its log and the list of requests sent; the judgement
  \<open>tcok\<close> says so and bounds the requests. The locale \<open>tc_context\<close> proves the operations once for any
  condition on the state that such calls keep; it is interpreted for a module whose device names
  are strings (whatever the devices do) and for one whose two devices are present.
\<close>

section \<open>A judgement for calls that only send and log\<close>

definition tcok :: "(kst \<Rightarrow> bool) \<Rightarrow> 'a kop \<Rightarrow> ('a \<Rightarrow> rtnl_req list \<Rightarrow> bool) \<Rightarrow> bool" where
  "tcok P m Q \<longleftrightarrow> (\<forall>s. P s \<longrightarrow>
     (\<exists>x k l ms. m s = Inr (x, s\<lparr>env_time := k, klog := l, nl_sent := nl_sent s @ ms\<rparr>) \<and> Q x ms))"

definition tc_stable :: "(kst \<Rightarrow> bool) \<Rightarrow> bool" where
  "tc_stable P \<longleftrightarrow> (\<forall>s k l q. P s \<longrightarrow> P (s\<lparr>env_time := k, klog := l, nl_sent := q\<rparr>))"

lemma tcokI:
  "(\<And>s. P s \<Longrightarrow> \<exists>x k l ms. m s = Inr (x, s\<lparr>env_time := k, klog := l, nl_sent := nl_sent s @ ms\<rparr>) \<and> Q x ms) \<Longrightarrow>
   tcok P m Q"
  by (simp add: tcok_def)

lemma tcok_same: "(\<And>s. P s \<Longrightarrow> \<exists>x. m s = Inr (x, s) \<and> Q x []) \<Longrightarrow> tcok P m Q"
proof (rule tcokI)
  fix s
  assume "\<And>s. P s \<Longrightarrow> \<exists>x. m s = Inr (x, s) \<and> Q x []" "P s"
  then obtain x where "m s = Inr (x, s)" "Q x []" by blast
  moreover have "s = s\<lparr>env_time := env_time s, klog := klog s, nl_sent := nl_sent s @ []\<rparr>" by (cases s) simp
  ultimately show "\<exists>x k l ms. m s = Inr (x, s\<lparr>env_time := k, klog := l, nl_sent := nl_sent s @ ms\<rparr>) \<and> Q x ms"
    by metis
qed

lemma tcok_weaken: "tcok P m Q \<Longrightarrow> (\<And>x ms. Q x ms \<Longrightarrow> Q' x ms) \<Longrightarrow> tcok P m Q'"
  unfolding tcok_def by meson

lemma tcok_ret: "Q x [] \<Longrightarrow> tcok P (ret x) Q"
  by (rule tcok_same) simp

lemma tcok_bind:
  assumes "tc_stable P" and "tcok P m R" and "\<And>x ms. R x ms \<Longrightarrow> tcok P (f x) (\<lambda>y ms'. Q y (ms @ ms'))"
  shows "tcok P (bindM m f) Q"
proof (rule tcokI)
  fix s
  assume "P s"
  then obtain x k l ms where m: "m s = Inr (x, s\<lparr>env_time := k, klog := l, nl_sent := nl_sent s @ ms\<rparr>)" "R x ms"
    using assms(2) unfolding tcok_def by blast
  let ?t = "s\<lparr>env_time := k, klog := l, nl_sent := nl_sent s @ ms\<rparr>"
  have "P ?t" using assms(1) \<open>P s\<close> unfolding tc_stable_def by blast
  with assms(3)[OF m(2)] obtain y k' l' ms' where
    f: "f x ?t = Inr (y, ?t\<lparr>env_time := k', klog := l', nl_sent := nl_sent ?t @ ms'\<rparr>)" "Q y (ms @ ms')"
    unfolding tcok_def by blast
  have "?t\<lparr>env_time := k', klog := l', nl_sent := nl_sent ?t @ ms'\<rparr> =
      s\<lparr>env_time := k', klog := l', nl_sent := nl_sent s @ (ms @ ms')\<rparr>" by (simp add: kst_sort)
  with m f show "\<exists>x k l ms. bindM m f s = Inr (x, s\<lparr>env_time := k, klog := l, nl_sent := nl_sent s @ ms\<rparr>) \<and> Q x ms"
    by (metis bindM_Inr)
qed

lemma tcok_then:
  "tc_stable P \<Longrightarrow> tcok P m R \<Longrightarrow> (\<And>x ms. R x ms \<Longrightarrow> tcok P n (\<lambda>y ms'. Q y (ms @ ms'))) \<Longrightarrow>
   tcok P (thenM m n) Q"
  unfolding thenM_def by (rule tcok_bind)

lemma tcok_printk: "Q () [] \<Longrightarrow> tcok P (printk f as) Q"
  by (rule tcokI, intro exI conjI) (auto simp: kst_sort intro!: kst.equality)

lemma tcok_tick: "Q () [] \<Longrightarrow> tcok P tick Q"
  by (rule tcokI, intro exI conjI) (auto simp: kst_sort intro!: kst.equality)

section \<open>Requests\<close>

text \<open>
  What a request says: its command, device, handle and parent, the rates of its htb options and its
  plain 32-bit attributes.
\<close>

definition htb_rates :: "rtnl_req \<Rightarrow> (u32 \<times> u32) list" where
  "htb_rates m = concat (map (\<lambda>a. case rta_data a of
     PHtb opt \<Rightarrow> [(rs_rate (ho_rate opt), rs_rate (ho_ceil opt))] | _ \<Rightarrow> []) (attrs m))"

definition plain_words :: "rtnl_req \<Rightarrow> u32 list" where
  "plain_words m = concat (map (\<lambda>a. case rta_data a of PWord w \<Rightarrow> [w] | _ \<Rightarrow> []) (attrs m))"

definition summary :: "rtnl_req \<Rightarrow> nl_cmd \<times> u32 \<times> u32 \<times> u32 \<times> (u32 \<times> u32) list \<times> u32 list" where
  "summary m = (nlmsg_type m, tcm_ifindex m, tcm_handle m, tcm_parent m, htb_rates m, plain_words m)"

text \<open>The request lies inside its buffer and every attribute inside the request.\<close>

definition req_fits :: "rtnl_req \<Rightarrow> bool" where
  "req_fits m \<longleftrightarrow> nlmsg_len m \<le> sizeof_req \<and> NLM_F_REQUEST \<in> nlmsg_flags m \<and>
     (\<forall>a \<in> set (attrs m). NLMSG_HDR \<le> rta_at a \<and> rta_at a + rta_len a \<le> nlmsg_len m)"

definition append_attr :: "rtnl_req \<Rightarrow> tca \<Rightarrow> payload \<Rightarrow> nat \<Rightarrow> rtnl_req" where
  "append_attr n type data alen =
    n\<lparr>attrs := attrs n @ [\<lparr>rta_at = NLMSG_TAIL n, rta_type = type, rta_len = 4 + alen, rta_data = data\<rparr>],
      nlmsg_len := align4 (nlmsg_len n) + align4 (4 + alen)\<rparr>"

lemma align4_ge: "n \<le> align4 n"
  by (simp add: align4_def)

lemma align4_le: "align4 n \<le> n + 3"
  by (simp add: align4_def)

lemma align4_align4 [simp]: "align4 (align4 n) = align4 n"
  by (simp add: align4_def)

lemma align4_add [simp]: "align4 (align4 m + align4 n) = align4 m + align4 n"
proof -
  have "(4 * a + 4 * b + 3) div 4 = a + b" for a b :: nat by presburger
  then show ?thesis by (simp add: align4_def)
qed

lemma addattr_fits:
  assumes "align4 (nlmsg_len n) + align4 (4 + alen) \<le> maxlen" and "align4 (nlmsg_len n) + align4 (4 + alen) \<le> sizeof_req"
  shows "addattr n maxlen type data alen = ret (append_attr n type data alen)"
proof -
  have "align4 (nlmsg_len n) + (4 + alen) \<le> sizeof_req"
    using assms(2) align4_ge[of "4 + alen"] by linarith
  with assms show ?thesis
    by (intro ext) (simp add: addattr_def qmark_tc_addattr_def Let_def NLMSG_TAIL_def append_attr_def)
qed

text \<open>A rate for which the table can be computed: at least ten bytes per second.\<close>

definition rate_ok :: "u32 \<Rightarrow> u32 \<Rightarrow> bool" where
  "rate_ok kbit dflt \<longleftrightarrow> tc_rate kbit dflt div 10 \<noteq> 0"

definition rule_rates_ok :: "ruletbl_node \<Rightarrow> bool" where
  "rule_rates_ok r \<longleftrightarrow> rate_ok (r_rate_min_mate r) 125 \<and> rate_ok (r_rate_mate r) 125000000 \<and>
     rate_ok (r_rate_min r) 125 \<and> rate_ok (r_rate r) 125000000"

lemma calc_rtable_ok:
  assumes "rs_rate r div 10 \<noteq> 0"
  shows "\<exists>rtab r'. qmark_tc_calc_rtable r cl mtu s = Inr ((rtab, r'), s) \<and> length rtab = 256 \<and> rs_rate r' = rs_rate r"
  using assms by (auto simp: qmark_tc_calc_rtable_def Let_def)

definition kind_only :: "rtnl_req \<Rightarrow> bool" where
  "kind_only n \<longleftrightarrow> (\<exists>k l. attrs n = [\<lparr>rta_at = NLMSG_HDR, rta_type = TCA_KIND, rta_len = l, rta_data = PStr k\<rparr>] \<and>
     NLMSG_HDR + l \<le> nlmsg_len n) \<and> 36 < nlmsg_len n \<and> nlmsg_len n \<le> 48 \<and> align4 (nlmsg_len n) = nlmsg_len n"

lemma htb_opt_parse_ok:
  assumes n: "kind_only n" and rates: "rate_ok rate 125" "rate_ok ceil 125000000"
    and opt: "sizeof_tc_htb_opt (env s) \<le> 256"
  shows "\<exists>n'. tc_htb_opt_parse n rate ceil mtu s = Inr (n', s) \<and>
    nlmsg_type n' = nlmsg_type n \<and> nlmsg_flags n' = nlmsg_flags n \<and> tcm_ifindex n' = tcm_ifindex n \<and>
    tcm_handle n' = tcm_handle n \<and> tcm_parent n' = tcm_parent n \<and>
    htb_rates n' = [(tc_rate rate 125, tc_rate ceil 125000000)] \<and> plain_words n' = [] \<and>
    nlmsg_len n' \<le> sizeof_req \<and> (\<forall>a \<in> set (attrs n'). NLMSG_HDR \<le> rta_at a \<and> rta_at a + rta_len a \<le> nlmsg_len n')"
proof -
  let ?o = "sizeof_tc_htb_opt (env s)"
  obtain rtab r1 where r1: "qmark_tc_calc_rtable (zero_ratespec\<lparr>rs_rate := tc_rate rate 125\<rparr>) (- 1) mtu s = Inr ((rtab, r1), s)"
      "rs_rate r1 = tc_rate rate 125"
    using calc_rtable_ok[of "zero_ratespec\<lparr>rs_rate := tc_rate rate 125\<rparr>" "- 1" mtu s] rates(1) by (auto simp: rate_ok_def)
  obtain ctab r2 where r2: "qmark_tc_calc_rtable (zero_ratespec\<lparr>rs_rate := tc_rate ceil 125000000\<rparr>) (- 1) mtu s = Inr ((ctab, r2), s)"
      "rs_rate r2 = tc_rate ceil 125000000"
    using calc_rtable_ok[of "zero_ratespec\<lparr>rs_rate := tc_rate ceil 125000000\<rparr>" "- 1" mtu s] rates(2) by (auto simp: rate_ok_def)
  obtain k l where a: "attrs n = [\<lparr>rta_at = 36, rta_type = TCA_KIND, rta_len = l, rta_data = PStr k\<rparr>]"
      "36 + l \<le> nlmsg_len n" and len: "36 < nlmsg_len n" "nlmsg_len n \<le> 48" "align4 (nlmsg_len n) = nlmsg_len n"
    using n by (auto simp: kind_only_def)
  have c: "align4 4 = 4" "align4 1028 = 1028" by (simp_all add: align4_def)
  have o: "align4 (4 + ?o) \<le> 263" "4 + ?o \<le> align4 (4 + ?o)" using opt align4_le[of "4 + ?o"] align4_ge by auto
  have al: "align4 (nlmsg_len n + 4) = nlmsg_len n + 4"
    "align4 (nlmsg_len n + 4 + align4 (4 + ?o)) = nlmsg_len n + 4 + align4 (4 + ?o)"
    "align4 (nlmsg_len n + 4 + align4 (4 + ?o) + 1028) = nlmsg_len n + 4 + align4 (4 + ?o) + 1028"
    "align4 (1032 + (nlmsg_len n + align4 (4 + ?o))) = 1032 + (nlmsg_len n + align4 (4 + ?o))"
    "align4 (2060 + (nlmsg_len n + align4 (4 + ?o))) = 2060 + (nlmsg_len n + align4 (4 + ?o))"
    using len(3) by (simp_all add: align4_def, presburger+)
  show ?thesis
    using r1 r2 a len o
    by (simp add: tc_htb_opt_parse_def Let_def addattr_fits append_attr_def c al close_nest_def NLMSG_TAIL_def
      htb_rates_def plain_words_def)
qed

section \<open>The operations, under any condition that sending keeps\<close>

text \<open>What the requests need of the state: device names that are strings, options of sensible size.\<close>

definition tc_ready :: "kst \<Rightarrow> bool" where
  "tc_ready s \<longleftrightarrow> CHR 0x00 \<in> set (qmark_lan_dev s) \<and> CHR 0x00 \<in> set (qmark_wan_dev s) \<and>
     sizeof_tc_htb_opt (env s) \<le> 256 \<and> sizeof_tc_fifo_qopt (env s) \<le> 256"

definition dev_name :: "nat \<Rightarrow> kst \<Rightarrow> string" where
  "dev_name i s = takeWhile (\<lambda>c. c \<noteq> CHR 0x00) (if i = 0 then qmark_lan_dev s else qmark_wan_dev s)"

definition both_up :: "(nat \<Rightarrow> netdev) \<Rightarrow> kst \<Rightarrow> bool" where
  "both_up D s \<longleftrightarrow> tc_ready s \<and> (\<forall>t. \<not> rtnl_busy (env s) t) \<and>
     (\<forall>t. net_device (env s) t (dev_name 0 s) = Some (D 0)) \<and> (\<forall>t. net_device (env s) t (dev_name 1 s) = Some (D 1))"

lemma tc_stable_ready: "tc_stable tc_ready"
  by (simp add: tc_stable_def tc_ready_def)

lemma tc_stable_up: "tc_stable (both_up D)"
  by (simp add: tc_stable_def both_up_def tc_ready_def dev_name_def)

text \<open>
  \<open>sent up d h i x ms\<close>: the messages \<open>ms\<close> are at most one, with summary \<open>h\<close> of the device it went to;
  when the devices are up there is one, for device \<open>i\<close>, and the call says so.
\<close>

definition sent :: "bool \<Rightarrow> (nat \<Rightarrow> netdev) \<Rightarrow> (netdev \<Rightarrow> nl_cmd \<times> u32 \<times> u32 \<times> u32 \<times> (u32 \<times> u32) list \<times> u32 list) \<Rightarrow>
    nat \<Rightarrow> bool \<Rightarrow> rtnl_req list \<Rightarrow> bool" where
  "sent up D h i x ms \<longleftrightarrow> (\<forall>m \<in> set ms. req_fits m) \<and> (if up then x \<and> map summary ms = [h (D i)] else True)"

definition sent_both :: "bool \<Rightarrow> (nl_cmd \<times> u32 \<times> u32 \<times> u32 \<times> (u32 \<times> u32) list \<times> u32 list) list \<Rightarrow>
    'a \<Rightarrow> rtnl_req list \<Rightarrow> bool" where
  "sent_both up hs x ms \<longleftrightarrow> (\<forall>m \<in> set ms. req_fits m) \<and> (if up then map summary ms = hs else True)"

text \<open>The three ways a call of the socket can go, all of which return.\<close>

lemma talk_cases:
  "(rtnl_busy (env s) (env_time s) \<and>
     (\<exists>k l. qmark_tc_rtnl_talk n s = Inr (ERROR, s\<lparr>env_time := k, klog := l, nl_sent := nl_sent s @ []\<rparr>))) \<or>
   (\<exists>r k l. qmark_tc_rtnl_talk n s = Inr (r, s\<lparr>env_time := k, klog := l,
      nl_sent := nl_sent s @ [n\<lparr>nlmsg_flags := insert NLM_F_ACK (nlmsg_flags n)\<rparr>]\<rparr>))"
proof (cases "rtnl_busy (env s) (env_time s)")
  case True
  have "qmark_tc_rtnl_talk n s = Inr (ERROR, s\<lparr>env_time := Suc (env_time s),
      klog := klog s @ [(''qmark_tc_msg: rtnetlink is locked, skip tc sock_sendmsg.'', [])], nl_sent := nl_sent s @ []\<rparr>)"
    using True by (simp add: qmark_tc_rtnl_talk_def Let_def)
  with True show ?thesis by blast
next
  case False
  let ?n = "n\<lparr>nlmsg_flags := insert NLM_F_ACK (nlmsg_flags n)\<rparr>"
  let ?r = "sendmsg_ret (env s) (Suc (env_time s)) ?n"
  let ?l = "if ?r < 0 then [(''qmark_tc_err: cannot talk to rtnetlink'', [])]
    else if int (nlmsg_len n) \<noteq> ?r then [(''qmark_tc_msg: kernel_sendmsg return %d != %d(nlmsg_len)'',
      [of_int ?r, of_nat (nlmsg_len n)])] else []"
  have "qmark_tc_rtnl_talk n s = Inr (if ?r < 0 then ERROR else OK, s\<lparr>env_time := Suc (Suc (env_time s)),
      klog := klog s @ ?l, nl_sent := nl_sent s @ [?n]\<rparr>)"
    using False by (auto simp: qmark_tc_rtnl_talk_def Let_def kst_sort whenM_def)
  then show ?thesis by blast
qed

text \<open>What the class requests say, by device: the rates of the download direction go to the LAN device.\<close>

definition class_summary :: "nl_cmd \<Rightarrow> ruletbl_node \<Rightarrow> u32 \<Rightarrow> nat \<Rightarrow> netdev \<Rightarrow>
    nl_cmd \<times> u32 \<times> u32 \<times> u32 \<times> (u32 \<times> u32) list \<times> u32 list" where
  "class_summary cmd rn mark i d =
    (cmd, dev_ifindex d, push_bit 16 1 OR class_minor (r_devid rn) (drop_bit MARK_BASE mark),
     push_bit 16 1 OR parent_minor (r_devid rn),
     if cmd \<noteq> RTM_NEWTCLASS then []
     else if i = 0 then [(tc_rate (r_rate_min_mate rn) 125, tc_rate (r_rate_mate rn) 125000000)]
     else [(tc_rate (r_rate_min rn) 125, tc_rate (r_rate rn) 125000000)], [])"

definition pfifo_summary :: "nl_cmd \<Rightarrow> ruletbl_node \<Rightarrow> u32 \<Rightarrow> netdev \<Rightarrow>
    nl_cmd \<times> u32 \<times> u32 \<times> u32 \<times> (u32 \<times> u32) list \<times> u32 list" where
  "pfifo_summary cmd rn mark d =
    (cmd, dev_ifindex d, push_bit 16 (class_minor (r_devid rn) (drop_bit MARK_BASE mark)),
     push_bit 16 1 OR class_minor (r_devid rn) (drop_bit MARK_BASE mark), [],
     if cmd = RTM_NEWQDISC then [100] else [])"

definition filter_summary :: "nl_cmd \<Rightarrow> ruletbl_node \<Rightarrow> u32 \<Rightarrow> netdev \<Rightarrow>
    nl_cmd \<times> u32 \<times> u32 \<times> u32 \<times> (u32 \<times> u32) list \<times> u32 list" where
  "filter_summary cmd rn mark d =
    (cmd, dev_ifindex d, mark, push_bit 16 1, [],
     [0xfff800, push_bit 16 1 OR class_minor (r_devid rn) (drop_bit MARK_BASE mark)])"

text \<open>The requests of \<open>qmark_tc_add_rule\<close> and of \<open>qmark_tc_del_rule\<close>, in order.\<close>

definition add_msgs :: "(nat \<Rightarrow> netdev) \<Rightarrow> ruletbl_node \<Rightarrow> u32 \<Rightarrow>
    (nl_cmd \<times> u32 \<times> u32 \<times> u32 \<times> (u32 \<times> u32) list \<times> u32 list) list" where
  "add_msgs D rn mark = map (\<lambda>i. class_summary RTM_NEWTCLASS rn mark i (D i)) [0, 1] @
     map (\<lambda>i. pfifo_summary RTM_NEWQDISC rn mark (D i)) [0, 1] @
     map (\<lambda>i. filter_summary RTM_NEWTFILTER rn mark (D i)) [0, 1]"

definition del_msgs :: "(nat \<Rightarrow> netdev) \<Rightarrow> ruletbl_node \<Rightarrow> u32 \<Rightarrow>
    (nl_cmd \<times> u32 \<times> u32 \<times> u32 \<times> (u32 \<times> u32) list \<times> u32 list) list" where
  "del_msgs D rn mark = map (\<lambda>i. filter_summary RTM_DELTFILTER rn mark (D i)) [0, 1] @
     map (\<lambda>i. class_summary RTM_DELTCLASS rn mark i (D i)) [0, 1]"

locale tc_context =
  fixes P :: "kst \<Rightarrow> bool" and up :: bool and D :: "nat \<Rightarrow> netdev"
  assumes stable: "tc_stable P"
    and ready: "P s \<Longrightarrow> tc_ready s"
    and devices: "up \<Longrightarrow> P s \<Longrightarrow> both_up D s"
begin

lemma talk_ok:
  assumes "nlmsg_len n \<le> sizeof_req" "NLM_F_REQUEST \<in> nlmsg_flags n"
    "\<forall>a \<in> set (attrs n). NLMSG_HDR \<le> rta_at a \<and> rta_at a + rta_len a \<le> nlmsg_len n"
  shows "tcok P (thenM (qmark_tc_rtnl_talk n) (ret True)) (sent up D (\<lambda>_. summary n) i)"
proof (rule tcokI)
  fix s
  assume "P s"
  let ?n = "n\<lparr>nlmsg_flags := insert NLM_F_ACK (nlmsg_flags n)\<rparr>"
  have fits: "req_fits ?n" "summary ?n = summary n"
    using assms by (simp_all add: req_fits_def summary_def htb_rates_def plain_words_def)
  have idle: "up \<Longrightarrow> \<not> rtnl_busy (env s) (env_time s)"
    using devices[OF _ \<open>P s\<close>] by (simp add: both_up_def)
  consider k l where "rtnl_busy (env s) (env_time s)"
      "qmark_tc_rtnl_talk n s = Inr (ERROR, s\<lparr>env_time := k, klog := l, nl_sent := nl_sent s @ []\<rparr>)"
    | r k l where "qmark_tc_rtnl_talk n s = Inr (r, s\<lparr>env_time := k, klog := l, nl_sent := nl_sent s @ [?n]\<rparr>)"
    using talk_cases[of s n] by blast
  then show "\<exists>x k l ms. thenM (qmark_tc_rtnl_talk n) (ret True) s =
      Inr (x, s\<lparr>env_time := k, klog := l, nl_sent := nl_sent s @ ms\<rparr>) \<and> sent up D (\<lambda>_. summary n) i x ms"
  proof cases
    case (1 k l)
    then have "thenM (qmark_tc_rtnl_talk n) (ret True) s =
        Inr (True, s\<lparr>env_time := k, klog := l, nl_sent := nl_sent s @ []\<rparr>)" by (simp add: thenM_Inr)
    moreover have "sent up D (\<lambda>_. summary n) i True []" using 1(1) idle by (auto simp: sent_def)
    ultimately show ?thesis by blast
  next
    case (2 r k l)
    then have "thenM (qmark_tc_rtnl_talk n) (ret True) s =
        Inr (True, s\<lparr>env_time := k, klog := l, nl_sent := nl_sent s @ [?n]\<rparr>)" by (simp add: thenM_Inr)
    moreover have "sent up D (\<lambda>_. summary n) i True [?n]" using fits by (simp add: sent_def)
    ultimately show ?thesis by blast
  qed
qed

lemma get_dev_ok:
  assumes "i < 2"
  shows "tcok P (get_dev i) (\<lambda>d ms. ms = [] \<and> (up \<longrightarrow> d = Some (D i)))"
proof (rule tcokI)
  fix s
  assume "P s"
  have nul: "CHR 0x00 \<in> set ((if i = 0 then qmark_lan_dev else qmark_wan_dev) s)"
    using ready[OF \<open>P s\<close>] by (simp add: tc_ready_def)
  have "get_dev i s = Inr (net_device (env s) (env_time s) (dev_name i s),
      s\<lparr>env_time := Suc (env_time s), klog := klog s, nl_sent := nl_sent s @ []\<rparr>)"
    using nul by (auto simp: get_dev_def cstr_def dev_name_def)
  moreover have "up \<longrightarrow> net_device (env s) (env_time s) (dev_name i s) = Some (D i)"
  proof
    assume up
    from devices[OF this \<open>P s\<close>] assms show "net_device (env s) (env_time s) (dev_name i s) = Some (D i)"
      by (cases i) (auto simp: both_up_def)
  qed
  ultimately show "\<exists>x k l ms. get_dev i s =
      Inr (x, s\<lparr>env_time := k, klog := l, nl_sent := nl_sent s @ ms\<rparr>) \<and> ms = [] \<and> (up \<longrightarrow> x = Some (D i))"
    by blast
qed

lemma dev_body:
  assumes "i < 2" and "\<And>d. tcok P (f d) (sent up D (\<lambda>_. h d) i)"
  shows "tcok P (bindM (get_dev i) (\<lambda>d. case d of None \<Rightarrow> ret False | Some d \<Rightarrow> f d)) (sent up D h i)"
proof (rule tcok_bind[OF stable get_dev_ok[OF assms(1)]])
  fix d :: "netdev option" and ms :: "rtnl_req list"
  assume d: "ms = [] \<and> (up \<longrightarrow> d = Some (D i))"
  show "tcok P (case d of None \<Rightarrow> ret False | Some d \<Rightarrow> f d) (\<lambda>y ms'. sent up D h i y (ms @ ms'))"
  proof (cases d)
    case None
    then show ?thesis using d by (auto intro!: tcok_ret simp: sent_def)
  next
    case (Some e)
    have "tcok P (f e) (sent up D (\<lambda>_. h e) i)" by (rule assms(2))
    then show ?thesis using d Some by (auto elim!: tcok_weaken simp: sent_def split: if_splits)
  qed
qed

lemma both_devices_ok:
  assumes "\<And>i. i < 2 \<Longrightarrow> tcok P (body i) (sent up D (h i) i)"
  shows "tcok P (both_devices body) (sent_both up [h 0 (D 0), h 1 (D 1)])"
proof -
  have second: "tcok P (bindM (body 1) (\<lambda>ok. if \<not> ok then ret ERROR else ret OK))
      (\<lambda>y ms. (\<forall>m \<in> set ms. req_fits m) \<and> (up \<longrightarrow> map summary ms = [h 1 (D 1)]))"
    by (rule tcok_bind[OF stable assms[of 1]])
      (auto intro!: tcok_ret simp: sent_def split: if_splits)
  show ?thesis
    unfolding both_devices_def
  proof (rule tcok_bind[OF stable assms[of 0]])
    fix ok ms
    assume ok: "sent up D (h 0) 0 ok ms"
    show "tcok P (if \<not> ok then ret ERROR else bindM (body 1) (\<lambda>ok. if \<not> ok then ret ERROR else ret OK))
        (\<lambda>y ms'. sent_both up [h 0 (D 0), h 1 (D 1)] y (ms @ ms'))"
    proof (cases ok)
      case True
      then show ?thesis
        using ok second by (auto elim!: tcok_weaken simp: sent_def sent_both_def split: if_splits)
    next
      case False
      then show ?thesis using ok by (auto intro!: tcok_ret simp: sent_def sent_both_def split: if_splits)
    qed
  qed simp
qed

lemma htb_parse_ok:
  assumes "kind_only n" "rate_ok rate 125" "rate_ok ceil 125000000"
  shows "tcok P (tc_htb_opt_parse n rate ceil mtu) (\<lambda>n' ms. ms = [] \<and>
    nlmsg_type n' = nlmsg_type n \<and> nlmsg_flags n' = nlmsg_flags n \<and> tcm_ifindex n' = tcm_ifindex n \<and>
    tcm_handle n' = tcm_handle n \<and> tcm_parent n' = tcm_parent n \<and>
    htb_rates n' = [(tc_rate rate 125, tc_rate ceil 125000000)] \<and> plain_words n' = [] \<and>
    nlmsg_len n' \<le> sizeof_req \<and> (\<forall>a \<in> set (attrs n'). NLMSG_HDR \<le> rta_at a \<and> rta_at a + rta_len a \<le> nlmsg_len n'))"
  using htb_opt_parse_ok[OF assms] ready by (intro tcok_same) (simp add: tc_ready_def)

text \<open>The request with its first attribute, the kind of object, which always fits.\<close>

lemma addattr_kind:
  assumes "nlmsg_len n = 36" "attrs n = []" "l \<le> 8"
  shows "addattr n sizeof_req TCA_KIND (PStr k) l = ret (append_attr n TCA_KIND (PStr k) l)"
    "0 < l \<Longrightarrow> kind_only (append_attr n TCA_KIND (PStr k) l)"
proof -
  have "align4 36 = 36" by (simp add: align4_def)
  moreover have "align4 (4 + l) \<le> 12" "4 + l \<le> align4 (4 + l)"
    using assms(3) by (simp_all add: align4_def)
  moreover have "align4 (36 + align4 (4 + l)) = 36 + align4 (4 + l)"
    using align4_add[of 36 "4 + l"] calculation(1) by simp
  ultimately show "addattr n sizeof_req TCA_KIND (PStr k) l = ret (append_attr n TCA_KIND (PStr k) l)"
    "0 < l \<Longrightarrow> kind_only (append_attr n TCA_KIND (PStr k) l)"
    using assms by (auto simp: addattr_fits append_attr_def kind_only_def NLMSG_TAIL_def)
qed

text \<open>A request that was built without a message, and is then sent.\<close>

definition built :: "nl_cmd \<times> u32 \<times> u32 \<times> u32 \<times> (u32 \<times> u32) list \<times> u32 list \<Rightarrow> rtnl_req \<Rightarrow> rtnl_req list \<Rightarrow> bool" where
  "built h n ms \<longleftrightarrow> ms = [] \<and> summary n = h \<and> nlmsg_len n \<le> sizeof_req \<and> NLM_F_REQUEST \<in> nlmsg_flags n \<and>
     (\<forall>a \<in> set (attrs n). NLMSG_HDR \<le> rta_at a \<and> rta_at a + rta_len a \<le> nlmsg_len n)"

lemma talk_after:
  assumes "tcok P m (built h)"
  shows "tcok P (bindM m (\<lambda>req. thenM (qmark_tc_rtnl_talk req) (ret True))) (sent up D (\<lambda>_. h) i)"
proof (rule tcok_bind[OF stable assms])
  fix n ms
  assume n: "built h n ms"
  then have "tcok P (thenM (qmark_tc_rtnl_talk n) (ret True)) (sent up D (\<lambda>_. summary n) i)"
    by (intro talk_ok) (simp_all add: built_def)
  then show "tcok P (thenM (qmark_tc_rtnl_talk n) (ret True)) (\<lambda>y ms'. sent up D (\<lambda>_. h) i y (ms @ ms'))"
    using n by (simp add: built_def)
qed

lemma kind_only_built:
  "kind_only n \<Longrightarrow> NLM_F_REQUEST \<in> nlmsg_flags n \<Longrightarrow>
   built (nlmsg_type n, tcm_ifindex n, tcm_handle n, tcm_parent n, [], []) n []"
  by (auto simp: built_def summary_def kind_only_def htb_rates_def plain_words_def)

lemma htb_parse_built:
  assumes "kind_only n" "rate_ok rate 125" "rate_ok ceil 125000000" "NLM_F_REQUEST \<in> nlmsg_flags n"
    and "h = (nlmsg_type n, tcm_ifindex n, tcm_handle n, tcm_parent n, [(tc_rate rate 125, tc_rate ceil 125000000)], [])"
  shows "tcok P (tc_htb_opt_parse n rate ceil mtu) (built h)"
  by (rule tcok_weaken[OF htb_parse_ok[OF assms(1-3)]]) (use assms(4,5) in \<open>auto simp: built_def summary_def\<close>)

lemma class_opts_ok:
  assumes k: "kind_only n" and f: "NLM_F_REQUEST \<in> nlmsg_flags n"
    and n: "nlmsg_type n = cmd" "tcm_ifindex n = dev_ifindex d"
      "tcm_handle n = push_bit 16 1 OR class_minor (r_devid rn) (drop_bit MARK_BASE mark)"
      "tcm_parent n = push_bit 16 1 OR parent_minor (r_devid rn)"
    and rates: "cmd = RTM_NEWTCLASS \<Longrightarrow> rule_rates_ok rn"
  shows "tcok P (if cmd = RTM_NEWTCLASS
          then if i = 0 then tc_htb_opt_parse n (r_rate_min_mate rn) (r_rate_mate rn) (dev_mtu d)
               else tc_htb_opt_parse n (r_rate_min rn) (r_rate rn) (dev_mtu d)
          else ret n) (built (class_summary cmd rn mark i d))"
proof (cases "cmd = RTM_NEWTCLASS")
  case True
  with rates have r: "rate_ok (r_rate_min_mate rn) 125" "rate_ok (r_rate_mate rn) 125000000"
      "rate_ok (r_rate_min rn) 125" "rate_ok (r_rate rn) 125000000" by (auto simp: rule_rates_ok_def)
  have "tcok P (tc_htb_opt_parse n (r_rate_min_mate rn) (r_rate_mate rn) (dev_mtu d)) (built (class_summary cmd rn mark 0 d))"
    by (rule htb_parse_built[OF k r(1,2) f]) (simp add: class_summary_def n True)
  moreover have "tcok P (tc_htb_opt_parse n (r_rate_min rn) (r_rate rn) (dev_mtu d)) (built (class_summary cmd rn mark i d))"
    if "i \<noteq> 0" by (rule htb_parse_built[OF k r(3,4) f]) (use that in \<open>simp add: class_summary_def n True\<close>)
  ultimately show ?thesis using True by auto
next
  case False
  have "built (class_summary cmd rn mark i d) n []"
    using kind_only_built[OF k f] n False by (simp add: class_summary_def)
  then show ?thesis using False by (simp add: tcok_ret)
qed

lemma class_ok:
  assumes "cmd = RTM_NEWTCLASS \<Longrightarrow> rule_rates_ok rn"
  shows "tcok P (tc_htb_class_modify cmd flags rn mark) (sent_both up
    (map (\<lambda>i. class_summary cmd rn mark i (D i)) [0, 1]))"
  unfolding tc_htb_class_modify_def Let_def list.map
proof (rule both_devices_ok, rule dev_body, goal_cases)
  case (2 i d)
  let ?m = "(new_req cmd flags)\<lparr>
      tcm_handle := push_bit 16 1 OR class_minor (r_devid rn) (drop_bit MARK_BASE mark),
      tcm_parent := push_bit 16 1 OR parent_minor (r_devid rn), tcm_ifindex := dev_ifindex d\<rparr>"
  have m: "nlmsg_len ?m = 36" "attrs ?m = []" "(4::nat) \<le> 8" "(0::nat) < 4" by (simp_all add: new_req_def)
  show ?case
    unfolding addattr_kind(1)[OF m(1-3)] bindM_ret
    by (rule talk_after, rule class_opts_ok, rule addattr_kind(2)[OF m])
      (use assms in \<open>simp_all add: append_attr_def new_req_def\<close>)
qed simp

lemma pfifo_opts_ok:
  assumes k: "kind_only n" and f: "NLM_F_REQUEST \<in> nlmsg_flags n"
    and n: "nlmsg_type n = cmd" "tcm_ifindex n = dev_ifindex d"
      "tcm_handle n = push_bit 16 (class_minor (r_devid rn) (drop_bit MARK_BASE mark))"
      "tcm_parent n = push_bit 16 1 OR class_minor (r_devid rn) (drop_bit MARK_BASE mark)"
    and l: "l \<le> 256"
  shows "tcok P (if cmd = RTM_NEWQDISC then addattr n 1024 TCA_OPTIONS (PWord 100) l else ret n)
    (built (pfifo_summary cmd rn mark d))"
proof (cases "cmd = RTM_NEWQDISC")
  case True
  have a: "align4 (4 + l) \<le> 263" "4 + l \<le> align4 (4 + l)" using align4_le[of "4 + l"] align4_ge[of "4 + l"] l by auto
  have "align4 (nlmsg_len n) = nlmsg_len n" "nlmsg_len n \<le> 48" "36 \<le> nlmsg_len n" using k by (auto simp: kind_only_def)
  moreover from this have "built (pfifo_summary cmd rn mark d) (append_attr n TCA_OPTIONS (PWord 100) l) []"
    using k f n a True by (auto simp: built_def summary_def pfifo_summary_def kind_only_def append_attr_def
      NLMSG_TAIL_def htb_rates_def plain_words_def)
  ultimately show ?thesis using True a by (simp add: addattr_fits tcok_ret)
next
  case False
  have "built (pfifo_summary cmd rn mark d) n []"
    using kind_only_built[OF k f] n False by (simp add: pfifo_summary_def)
  then show ?thesis using False by (simp add: tcok_ret)
qed

lemma pfifo_ok:
  "tcok P (tc_pfifo_qdisc_modify cmd flags rn mark) (sent_both up
    (map (\<lambda>i. pfifo_summary cmd rn mark (D i)) [0, 1]))"
  unfolding tc_pfifo_qdisc_modify_def Let_def list.map
proof (rule both_devices_ok, rule dev_body, goal_cases)
  case (2 i d)
  let ?m = "(new_req cmd flags)\<lparr>
      tcm_handle := push_bit 16 (class_minor (r_devid rn) (drop_bit MARK_BASE mark)),
      tcm_parent := push_bit 16 1 OR class_minor (r_devid rn) (drop_bit MARK_BASE mark), tcm_ifindex := dev_ifindex d\<rparr>"
  have m: "nlmsg_len ?m = 36" "attrs ?m = []" "(6::nat) \<le> 8" "(0::nat) < 6" by (simp_all add: new_req_def)
  have opt: "tcok P (gets (\<lambda>s. sizeof_tc_fifo_qopt (env s))) (\<lambda>l ms. ms = [] \<and> l \<le> 256)"
    by (rule tcok_same) (use ready in \<open>simp add: tc_ready_def\<close>)
  show ?case
    unfolding addattr_kind(1)[OF m(1-3)] bindM_ret
  proof (rule tcok_bind[OF stable opt], elim conjE, simp only: append_Nil, rule talk_after, rule pfifo_opts_ok)
    show "kind_only (append_attr ?m TCA_KIND (PStr ''pfifo'') 6)" by (rule addattr_kind(2)[OF m])
  qed (simp_all add: append_attr_def new_req_def)
qed simp

text \<open>The four attributes of a filter take 28 bytes.\<close>

lemma filter_attrs:
  fixes m :: rtnl_req and k c :: u32
  assumes "nlmsg_len m = 36" "attrs m = []"
  defines "n1 \<equiv> append_attr m TCA_KIND (PStr ''fw'') 3"
  defines "n2 \<equiv> append_attr n1 TCA_OPTIONS PNone 0"
  defines "n3 \<equiv> append_attr n2 TCA_FW_MASK (PWord k) 4"
  defines "n4 \<equiv> append_attr n3 TCA_FW_CLASSID (PWord c) 4"
  shows "addattr m sizeof_req TCA_KIND (PStr ''fw'') 3 = ret n1"
    "addattr n1 4096 TCA_OPTIONS PNone 0 = ret n2"
    "addattr n2 16384 TCA_FW_MASK (PWord k) 4 = ret n3"
    "addattr n3 4096 TCA_FW_CLASSID (PWord c) 4 = ret n4"
    "NLM_F_REQUEST \<in> nlmsg_flags m \<Longrightarrow>
     built (nlmsg_type m, x, tcm_handle m, tcm_parent m, [], [k, c]) (close_nest (NLMSG_TAIL n1) n4\<lparr>tcm_ifindex := x\<rparr>) []"
  using assms(1,2) unfolding n1_def n2_def n3_def n4_def
  by (simp_all add: addattr_fits append_attr_def align4_def built_def summary_def close_nest_def NLMSG_TAIL_def
    htb_rates_def plain_words_def)

lemma filter_ok:
  "tcok P (tc_fw_filter_modify cmd flags rn mark) (sent_both up
    (map (\<lambda>i. filter_summary cmd rn mark (D i)) [0, 1]))"
  unfolding tc_fw_filter_modify_def Let_def list.map
proof (rule tcok_bind[OF stable, where R = "\<lambda>p ms. ms = []"], goal_cases)
  case 1
  show ?case by (rule tcok_same) simp
next
  case (2 protocol ms)
  have "tcok P (both_devices (\<lambda>i.
    bindM (addattr ((new_req cmd flags)\<lparr>tcm_parent := push_bit 16 1,
        tcm_info := TC_H_MAKE (push_bit 16 PRIO_FILTER) protocol, tcm_handle := mark\<rparr>) sizeof_req TCA_KIND (PStr ''fw'') 3) (\<lambda>req.
    bindM (addattr req 4096 TCA_OPTIONS PNone 0) (\<lambda>req'.
    bindM (addattr req' 16384 TCA_FW_MASK (PWord 0xfff800) 4) (\<lambda>req'.
    bindM (addattr req' 4096 TCA_FW_CLASSID (PWord (push_bit 16 1 OR class_minor (r_devid rn) (drop_bit MARK_BASE mark))) 4) (\<lambda>req'.
    bindM (get_dev i) (\<lambda>d. case d of None \<Rightarrow> ret False | Some dev \<Rightarrow>
      thenM (qmark_tc_rtnl_talk ((close_nest (NLMSG_TAIL req) req')\<lparr>tcm_ifindex := dev_ifindex dev\<rparr>)) (ret True))))))))
    (sent_both up [filter_summary cmd rn mark (D 0), filter_summary cmd rn mark (D 1)])"
  proof (rule both_devices_ok, goal_cases)
    case (1 i)
    let ?m = "(new_req cmd flags)\<lparr>tcm_parent := push_bit 16 1,
        tcm_info := TC_H_MAKE (push_bit 16 PRIO_FILTER) protocol, tcm_handle := mark\<rparr>"
    have m: "nlmsg_len ?m = 36" "attrs ?m = []" "NLM_F_REQUEST \<in> nlmsg_flags ?m" by (simp_all add: new_req_def)
    show ?case
      unfolding filter_attrs(1-4)[OF m(1,2)] bindM_ret
    proof (rule dev_body[OF 1], goal_cases)
      case (1 d)
      show ?case
        using talk_after[OF tcok_ret, OF filter_attrs(5)[OF m], of "dev_ifindex d" "0xfff800"
          "push_bit 16 1 OR class_minor (r_devid rn) (drop_bit MARK_BASE mark)" i]
        by (simp add: bindM_ret filter_summary_def new_req_def)
    qed
  qed
  then show ?case using 2 by simp
qed

lemma add_rule_ok:
  assumes "rule_rates_ok rn"
  shows "tcok P (qmark_tc_add_rule rn mark) (sent_both up (add_msgs D rn mark))"
  unfolding qmark_tc_add_rule_def
proof (rule tcok_then[OF stable class_ok], use assms in simp, rule tcok_then[OF stable pfifo_ok],
    rule tcok_then[OF stable filter_ok], rule tcok_ret)
qed (auto simp: sent_both_def add_msgs_def split: if_splits)

lemma del_rule_ok:
  "tcok P (qmark_tc_del_rule rn mark) (sent_both up (del_msgs D rn mark))"
  unfolding qmark_tc_del_rule_def
proof (rule tcok_then[OF stable filter_ok], rule tcok_then[OF stable class_ok], simp, rule tcok_ret)
qed (auto simp: sent_both_def del_msgs_def split: if_splits)

end

text \<open>
  The two instances: device names that are strings, whatever the environment answers, and both
  devices present with an idle rtnetlink.
\<close>

interpretation rdy: tc_context tc_ready False D
  by unfold_locales (simp_all add: tc_stable_ready)

interpretation up: tc_context "both_up D" True D
  by unfold_locales (simp_all add: tc_stable_up both_up_def)

end
