(* ===== verification/Qmark_Inv.thy ===== *)
theory Qmark_Inv
  imports Qmark_Api Qmark_Model Tc_Spec
begin

text \<open>
  The invariant of the running module, and the abstract view (\<open>Qmark_Model\<close>) of a state: every
  pointer is valid, no lock is held, the bitmap and the hash table are well formed, and the view is
  consistent. The first part says what each state transformer of the tables does to the view, the
  second gives the results of the small calls on a state that satisfies the invariant.
\<close>

section \<open>The invariant\<close>

definition view :: "kst \<Rightarrow> qview" where
  "view s = \<lparr>v_table = table s, v_rules = the_rules s, v_used = used_marks s\<rparr>"

definition shape :: "kst \<Rightarrow> bool" where
  "shape s \<longleftrightarrow> bitmap_wf s \<and> table_wf s \<and> rules_live s \<and> \<not> qmark_op_lock s \<and> tc_ready s \<and>
     elem_num (the_head s) \<le> max_ip_cnt s \<and> length (the_rules s) = unat (max_rule_cnt s) \<and>
     (\<forall>r \<in> set (the_rules s). rule_rates_ok r)"

definition qos_inv :: "kst \<Rightarrow> bool" where
  "qos_inv s \<longleftrightarrow> shape s \<and> view_ok (view s)"

text \<open>
  On several processors a packet can hold a mark that no address has yet. With \<open>F\<close> the marks in
  flight, \<open>flight_inv F\<close> asks for a consistent view once they are set aside.
\<close>

definition settled :: "u32 set \<Rightarrow> qview \<Rightarrow> qview" where
  "settled F v = v\<lparr>v_used := v_used v - F\<rparr>"

definition flight_inv :: "u32 set \<Rightarrow> kst \<Rightarrow> bool" where
  "flight_inv F s \<longleftrightarrow> shape s \<and> F \<subseteq> used_marks s \<and> view_ok (settled F (view s))"

lemma settled_fields [simp]:
  "v_table (settled F v) = v_table v" "v_rules (settled F v) = v_rules v" "v_used (settled F v) = v_used v - F"
  "settled {} v = v"
  by (simp_all add: settled_def)

lemma qos_inv_flight: "qos_inv s \<longleftrightarrow> flight_inv {} s"
  by (simp add: qos_inv_def flight_inv_def)

lemma flight_invD:
  assumes "flight_inv F s"
  shows "shape s" "F \<subseteq> used_marks s" "view_ok (settled F (view s))"
  using assms by (simp_all add: flight_inv_def)

lemma view_fields [simp]:
  "v_table (view s) = table s" "v_rules (view s) = the_rules s" "v_used (view s) = used_marks s"
  by (simp_all add: view_def)

lemma shapeD:
  assumes "shape s"
  shows "bitmap_wf s" "table_wf s" "rules_live s" "\<not> qmark_op_lock s" "tc_ready s"
    "elem_num (the_head s) \<le> max_ip_cnt s" "length (the_rules s) = unat (max_rule_cnt s)"
    "\<forall>r \<in> set (the_rules s). rule_rates_ok r"
  using assms by (simp_all add: shape_def)

text \<open>Only some of the fields matter to each part.\<close>

lemma bitmap_cong:
  assumes "mark_bitmap t = mark_bitmap s" "max_ip_cnt t = max_ip_cnt s"
  shows "mark_bits t = mark_bits s" "used_marks t = used_marks s" "mark_pool t = mark_pool s"
    "bitmap_wf t = bitmap_wf s" "free_slot t = free_slot s"
proof -
  show m: "mark_bits t = mark_bits s" by (simp add: mark_bits_def assms)
  show "used_marks t = used_marks s" "mark_pool t = mark_pool s" "bitmap_wf t = bitmap_wf s" "free_slot t = free_slot s"
    by (simp_all add: used_marks_def mark_pool_def bitmap_wf_def free_slot_def m assms)
qed

lemma rules_cong: "g_ruletbl t = g_ruletbl s \<Longrightarrow> the_rules t = the_rules s \<and> rules_live t = rules_live s"
  by (simp add: the_rules_def rules_live_def)

lemma tc_ready_cong:
  "qmark_lan_dev t = qmark_lan_dev s \<Longrightarrow> qmark_wan_dev t = qmark_wan_dev s \<Longrightarrow> env t = env s \<Longrightarrow>
   tc_ready t = tc_ready s"
  by (simp add: tc_ready_def)

text \<open>Taking the lock, logging, sending and asking the environment leave every table alone.\<close>

definition quiet :: "bool \<Rightarrow> nat \<Rightarrow> (string \<times> u32 list) list \<Rightarrow> rtnl_req list \<Rightarrow> kst \<Rightarrow> kst" where
  "quiet b k l q s = s\<lparr>qmark_op_lock := b, env_time := k, klog := l, nl_sent := q\<rparr>"

lemma quiet_fields [simp]:
  "env (quiet b k l q s) = env s" "g_marktbl_head (quiet b k l q s) = g_marktbl_head s"
  "g_ruletbl (quiet b k l q s) = g_ruletbl s" "mark_bitmap (quiet b k l q s) = mark_bitmap s"
  "reset_flag (quiet b k l q s) = reset_flag s" "max_ip_cnt (quiet b k l q s) = max_ip_cnt s"
  "max_rule_cnt (quiet b k l q s) = max_rule_cnt s" "node_heap (quiet b k l q s) = node_heap s"
  "next_addr (quiet b k l q s) = next_addr s" "qmark_lan_dev (quiet b k l q s) = qmark_lan_dev s"
  "qmark_wan_dev (quiet b k l q s) = qmark_wan_dev s" "qmark_op_lock (quiet b k l q s) = b"
  "env_time (quiet b k l q s) = k" "klog (quiet b k l q s) = l" "nl_sent (quiet b k l q s) = q"
  by (simp_all add: quiet_def)

lemma quiet_tables [simp]:
  "table (quiet b k l q s) = table s" "table_wf (quiet b k l q s) = table_wf s"
  "lookup (quiet b k l q s) = lookup s" "the_head (quiet b k l q s) = the_head s"
  "bucket_no (quiet b k l q s) = bucket_no s"
  "mark_bits (quiet b k l q s) = mark_bits s" "used_marks (quiet b k l q s) = used_marks s"
  "mark_pool (quiet b k l q s) = mark_pool s" "bitmap_wf (quiet b k l q s) = bitmap_wf s"
  "free_slot (quiet b k l q s) = free_slot s"
  "the_rules (quiet b k l q s) = the_rules s" "rules_live (quiet b k l q s) = rules_live s"
  "tc_ready (quiet b k l q s) = tc_ready s"
  using table_wf_cong[of "quiet b k l q s" s] bitmap_cong[of "quiet b k l q s" s]
    rules_cong[of "quiet b k l q s" s] tc_ready_cong[of "quiet b k l q s" s] by simp_all

lemma quiet_quiet [simp]: "quiet b k l q (quiet b' k' l' q' s) = quiet b k l q s"
  by (simp add: quiet_def kst_sort)

text \<open>A state with its lock, clock and logs taken apart.\<close>

lemma quiet_same: "quiet (qmark_op_lock s) (env_time s) (klog s) (nl_sent s) s = s"
  by (simp add: quiet_def)

text \<open>Writing the bitmap and the rules.\<close>

definition put_bit :: "nat \<Rightarrow> bool \<Rightarrow> kst \<Rightarrow> kst" where
  "put_bit i b s = s\<lparr>mark_bitmap := Ptr ((mark_bits s)[i := b])\<rparr>"

lemma put_bit_fields [simp]:
  "env (put_bit i b s) = env s" "g_marktbl_head (put_bit i b s) = g_marktbl_head s"
  "g_ruletbl (put_bit i b s) = g_ruletbl s" "reset_flag (put_bit i b s) = reset_flag s"
  "max_ip_cnt (put_bit i b s) = max_ip_cnt s" "max_rule_cnt (put_bit i b s) = max_rule_cnt s"
  "node_heap (put_bit i b s) = node_heap s" "next_addr (put_bit i b s) = next_addr s"
  "qmark_lan_dev (put_bit i b s) = qmark_lan_dev s" "qmark_wan_dev (put_bit i b s) = qmark_wan_dev s"
  "qmark_op_lock (put_bit i b s) = qmark_op_lock s" "env_time (put_bit i b s) = env_time s"
  "klog (put_bit i b s) = klog s" "nl_sent (put_bit i b s) = nl_sent s"
  "mark_bits (put_bit i b s) = (mark_bits s)[i := b]"
  by (simp_all add: put_bit_def)

lemma put_bit_tables [simp]:
  "table (put_bit i b s) = table s" "table_wf (put_bit i b s) = table_wf s"
  "lookup (put_bit i b s) = lookup s" "the_head (put_bit i b s) = the_head s"
  "bucket_no (put_bit i b s) = bucket_no s" "mark_pool (put_bit i b s) = mark_pool s"
  "the_rules (put_bit i b s) = the_rules s" "rules_live (put_bit i b s) = rules_live s"
  "tc_ready (put_bit i b s) = tc_ready s" "bitmap_wf s \<Longrightarrow> bitmap_wf (put_bit i b s)"
  using table_wf_cong[of "put_bit i b s" s] rules_cong[of "put_bit i b s" s] tc_ready_cong[of "put_bit i b s" s]
  by (simp_all) (simp_all add: put_bit_def)

lemma map_rule_fields [simp]:
  "env (map_rule i f s) = env s" "g_marktbl_head (map_rule i f s) = g_marktbl_head s"
  "mark_bitmap (map_rule i f s) = mark_bitmap s"
  "reset_flag (map_rule i f s) = reset_flag s"
  "max_ip_cnt (map_rule i f s) = max_ip_cnt s" "max_rule_cnt (map_rule i f s) = max_rule_cnt s"
  "node_heap (map_rule i f s) = node_heap s" "next_addr (map_rule i f s) = next_addr s"
  "qmark_lan_dev (map_rule i f s) = qmark_lan_dev s" "qmark_wan_dev (map_rule i f s) = qmark_wan_dev s"
  "qmark_op_lock (map_rule i f s) = qmark_op_lock s" "env_time (map_rule i f s) = env_time s"
  "klog (map_rule i f s) = klog s" "nl_sent (map_rule i f s) = nl_sent s"
  by (simp_all add: map_rule_def)

lemma map_rule_tables [simp]:
  "table (map_rule i f s) = table s" "table_wf (map_rule i f s) = table_wf s"
  "lookup (map_rule i f s) = lookup s" "the_head (map_rule i f s) = the_head s"
  "bucket_no (map_rule i f s) = bucket_no s" "mark_pool (map_rule i f s) = mark_pool s"
  "mark_bits (map_rule i f s) = mark_bits s" "used_marks (map_rule i f s) = used_marks s"
  "bitmap_wf (map_rule i f s) = bitmap_wf s" "free_slot (map_rule i f s) = free_slot s"
  "tc_ready (map_rule i f s) = tc_ready s"
  using table_wf_cong[of "map_rule i f s" s] bitmap_cong[of "map_rule i f s" s] tc_ready_cong[of "map_rule i f s" s]
  by simp_all

lemma insert_node_frame [simp]:
  "env (insert_node n s) = env s"
  "g_ruletbl (insert_node n s) = g_ruletbl s"
  "mark_bitmap (insert_node n s) = mark_bitmap s"
  "reset_flag (insert_node n s) = reset_flag s"
  "max_ip_cnt (insert_node n s) = max_ip_cnt s"
  "max_rule_cnt (insert_node n s) = max_rule_cnt s"
  "qmark_lan_dev (insert_node n s) = qmark_lan_dev s"
  "qmark_wan_dev (insert_node n s) = qmark_wan_dev s"
  "qmark_op_lock (insert_node n s) = qmark_op_lock s"
  "env_time (insert_node n s) = env_time s"
  "klog (insert_node n s) = klog s"
  "nl_sent (insert_node n s) = nl_sent s"
  "the_rules (insert_node n s) = the_rules s" "rules_live (insert_node n s) = rules_live s" "tc_ready (insert_node n s) = tc_ready s"
  "mark_bits (insert_node n s) = mark_bits s" "used_marks (insert_node n s) = used_marks s" "mark_pool (insert_node n s) = mark_pool s"
  "bitmap_wf (insert_node n s) = bitmap_wf s" "free_slot (insert_node n s) = free_slot s"
proof -
  show f:
    "env (insert_node n s) = env s"
    "g_ruletbl (insert_node n s) = g_ruletbl s"
    "mark_bitmap (insert_node n s) = mark_bitmap s"
    "reset_flag (insert_node n s) = reset_flag s"
    "max_ip_cnt (insert_node n s) = max_ip_cnt s"
    "max_rule_cnt (insert_node n s) = max_rule_cnt s"
    "qmark_lan_dev (insert_node n s) = qmark_lan_dev s"
    "qmark_wan_dev (insert_node n s) = qmark_wan_dev s"
    "qmark_op_lock (insert_node n s) = qmark_op_lock s"
    "env_time (insert_node n s) = env_time s"
    "klog (insert_node n s) = klog s"
    "nl_sent (insert_node n s) = nl_sent s"
    by (simp_all add: insert_node_def Let_def)
  show "the_rules (insert_node n s) = the_rules s" "rules_live (insert_node n s) = rules_live s" "tc_ready (insert_node n s) = tc_ready s"
    "mark_bits (insert_node n s) = mark_bits s" "used_marks (insert_node n s) = used_marks s" "mark_pool (insert_node n s) = mark_pool s"
    "bitmap_wf (insert_node n s) = bitmap_wf s" "free_slot (insert_node n s) = free_slot s"
    using rules_cong[of "insert_node n s" s] tc_ready_cong[of "insert_node n s" s] bitmap_cong[of "insert_node n s" s] f by simp_all
qed

lemma remove_node_frame [simp]:
  "env (remove_node a ip s) = env s"
  "g_ruletbl (remove_node a ip s) = g_ruletbl s"
  "mark_bitmap (remove_node a ip s) = mark_bitmap s"
  "reset_flag (remove_node a ip s) = reset_flag s"
  "max_ip_cnt (remove_node a ip s) = max_ip_cnt s"
  "max_rule_cnt (remove_node a ip s) = max_rule_cnt s"
  "next_addr (remove_node a ip s) = next_addr s"
  "qmark_lan_dev (remove_node a ip s) = qmark_lan_dev s"
  "qmark_wan_dev (remove_node a ip s) = qmark_wan_dev s"
  "qmark_op_lock (remove_node a ip s) = qmark_op_lock s"
  "env_time (remove_node a ip s) = env_time s"
  "klog (remove_node a ip s) = klog s"
  "nl_sent (remove_node a ip s) = nl_sent s"
  "the_rules (remove_node a ip s) = the_rules s" "rules_live (remove_node a ip s) = rules_live s" "tc_ready (remove_node a ip s) = tc_ready s"
  "mark_bits (remove_node a ip s) = mark_bits s" "used_marks (remove_node a ip s) = used_marks s" "mark_pool (remove_node a ip s) = mark_pool s"
  "bitmap_wf (remove_node a ip s) = bitmap_wf s" "free_slot (remove_node a ip s) = free_slot s"
proof -
  show f:
    "env (remove_node a ip s) = env s"
    "g_ruletbl (remove_node a ip s) = g_ruletbl s"
    "mark_bitmap (remove_node a ip s) = mark_bitmap s"
    "reset_flag (remove_node a ip s) = reset_flag s"
    "max_ip_cnt (remove_node a ip s) = max_ip_cnt s"
    "max_rule_cnt (remove_node a ip s) = max_rule_cnt s"
    "next_addr (remove_node a ip s) = next_addr s"
    "qmark_lan_dev (remove_node a ip s) = qmark_lan_dev s"
    "qmark_wan_dev (remove_node a ip s) = qmark_wan_dev s"
    "qmark_op_lock (remove_node a ip s) = qmark_op_lock s"
    "env_time (remove_node a ip s) = env_time s"
    "klog (remove_node a ip s) = klog s"
    "nl_sent (remove_node a ip s) = nl_sent s"
    by (simp_all add: remove_node_def Let_def)
  show "the_rules (remove_node a ip s) = the_rules s" "rules_live (remove_node a ip s) = rules_live s" "tc_ready (remove_node a ip s) = tc_ready s"
    "mark_bits (remove_node a ip s) = mark_bits s" "used_marks (remove_node a ip s) = used_marks s" "mark_pool (remove_node a ip s) = mark_pool s"
    "bitmap_wf (remove_node a ip s) = bitmap_wf s" "free_slot (remove_node a ip s) = free_slot s"
    using rules_cong[of "remove_node a ip s" s] tc_ready_cong[of "remove_node a ip s" s] bitmap_cong[of "remove_node a ip s" s] f by simp_all
qed

lemma put_node_frame [simp]:
  "env (put_node a n s) = env s"
  "g_marktbl_head (put_node a n s) = g_marktbl_head s"
  "g_ruletbl (put_node a n s) = g_ruletbl s"
  "mark_bitmap (put_node a n s) = mark_bitmap s"
  "reset_flag (put_node a n s) = reset_flag s"
  "max_ip_cnt (put_node a n s) = max_ip_cnt s"
  "max_rule_cnt (put_node a n s) = max_rule_cnt s"
  "next_addr (put_node a n s) = next_addr s"
  "qmark_lan_dev (put_node a n s) = qmark_lan_dev s"
  "qmark_wan_dev (put_node a n s) = qmark_wan_dev s"
  "qmark_op_lock (put_node a n s) = qmark_op_lock s"
  "env_time (put_node a n s) = env_time s"
  "klog (put_node a n s) = klog s"
  "nl_sent (put_node a n s) = nl_sent s"
  "the_rules (put_node a n s) = the_rules s" "rules_live (put_node a n s) = rules_live s" "tc_ready (put_node a n s) = tc_ready s"
  "mark_bits (put_node a n s) = mark_bits s" "used_marks (put_node a n s) = used_marks s" "mark_pool (put_node a n s) = mark_pool s"
  "bitmap_wf (put_node a n s) = bitmap_wf s" "free_slot (put_node a n s) = free_slot s"
proof -
  show f:
    "env (put_node a n s) = env s"
    "g_marktbl_head (put_node a n s) = g_marktbl_head s"
    "g_ruletbl (put_node a n s) = g_ruletbl s"
    "mark_bitmap (put_node a n s) = mark_bitmap s"
    "reset_flag (put_node a n s) = reset_flag s"
    "max_ip_cnt (put_node a n s) = max_ip_cnt s"
    "max_rule_cnt (put_node a n s) = max_rule_cnt s"
    "next_addr (put_node a n s) = next_addr s"
    "qmark_lan_dev (put_node a n s) = qmark_lan_dev s"
    "qmark_wan_dev (put_node a n s) = qmark_wan_dev s"
    "qmark_op_lock (put_node a n s) = qmark_op_lock s"
    "env_time (put_node a n s) = env_time s"
    "klog (put_node a n s) = klog s"
    "nl_sent (put_node a n s) = nl_sent s"
    by (simp_all add: put_node_def)
  show "the_rules (put_node a n s) = the_rules s" "rules_live (put_node a n s) = rules_live s" "tc_ready (put_node a n s) = tc_ready s"
    "mark_bits (put_node a n s) = mark_bits s" "used_marks (put_node a n s) = used_marks s" "mark_pool (put_node a n s) = mark_pool s"
    "bitmap_wf (put_node a n s) = bitmap_wf s" "free_slot (put_node a n s) = free_slot s"
    using rules_cong[of "put_node a n s" s] tc_ready_cong[of "put_node a n s" s] bitmap_cong[of "put_node a n s" s] f by simp_all
qed

text \<open>The lock, the log and the clock come outermost.\<close>

lemma quiet_out [simp]:
  "put_bit i v (quiet b k l q s) = quiet b k l q (put_bit i v s)"
  "map_rule j f (quiet b k l q s) = quiet b k l q (map_rule j f s)"
  "put_node a n (quiet b k l q s) = quiet b k l q (put_node a n s)"
  "insert_node n (quiet b k l q s) = quiet b k l q (insert_node n s)"
  "remove_node a ip (quiet b k l q s) = quiet b k l q (remove_node a ip s)"
  unfolding put_bit_def map_rule_def put_node_def insert_node_def remove_node_def Let_def quiet_tables
  by (simp_all add: quiet_def kst_sort)

lemma quiet_unlocked [simp]:
  "\<not> qmark_op_lock s \<Longrightarrow> env_time s = k \<Longrightarrow> klog s = l \<Longrightarrow> nl_sent s = q \<Longrightarrow> quiet False k l q s = s"
  by (auto simp: quiet_def)

lemma quiet_intro:
  "s\<lparr>qmark_op_lock := b\<rparr> = quiet b (env_time s) (klog s) (nl_sent s) s"
  "s\<lparr>env_time := k\<rparr> = quiet (qmark_op_lock s) k (klog s) (nl_sent s) s"
  "s\<lparr>klog := l\<rparr> = quiet (qmark_op_lock s) (env_time s) l (nl_sent s) s"
  "s\<lparr>env_time := k, klog := l, nl_sent := q\<rparr> = quiet (qmark_op_lock s) k l q s"
  by (simp_all add: quiet_def)

declare op_lock_free [simp del] op_unlock_app [simp del] printk_app [simp del] tick_app [simp del] kmalloc_app [simp del]

lemma quiet_ops [simp]:
  "\<not> qmark_op_lock s \<Longrightarrow> op_lock s = Inr ((), quiet True (env_time s) (klog s) (nl_sent s) s)"
  "op_unlock s = Inr ((), quiet False (env_time s) (klog s) (nl_sent s) s)"
  "printk f as s = Inr ((), quiet (qmark_op_lock s) (env_time s) (klog s @ [(f, as)]) (nl_sent s) s)"
  "tick s = Inr ((), quiet (qmark_op_lock s) (Suc (env_time s)) (klog s) (nl_sent s) s)"
  "kmalloc m s = Inr (kmalloc_ok (env s) (env_time s) m, quiet (qmark_op_lock s) (Suc (env_time s)) (klog s) (nl_sent s) s)"
  "advance s = quiet (qmark_op_lock s) (Suc (env_time s)) (klog s) (nl_sent s) s"
  by (simp_all add: op_lock_free op_unlock_app printk_app tick_app kmalloc_app advance_def quiet_def)

end
