(* ===== verification/Qmark_Refine.thy ===== *)
theory Qmark_Refine
  imports Qmark_Inv
begin

text \<open>
  The calls of the module refine the transitions of the abstract view: on a state that satisfies the
  invariant each call returns, keeps the invariant, and does to the view what \<open>Qmark_Model\<close> says.
\<close>

section \<open>The small calls\<close>

lemma alloc_mark_put:
  "bitmap_wf s \<Longrightarrow> alloc_mark s =
    (if free_slot s < unat (max_ip_cnt s) then Inr (mark_of (free_slot s), put_bit (free_slot s) True s) else Inr (0, s))"
  by (simp add: alloc_mark_spec put_bit_def)

lemma free_mark_put:
  "bitmap_wf s \<Longrightarrow> i < unat (max_ip_cnt s) \<Longrightarrow> free_mark (mark_of i) s = Inr ((), put_bit i False s)"
  by (simp add: free_mark_spec put_bit_def)

lemma mark_of_slot: "bitmap_wf s \<Longrightarrow> i < unat (max_ip_cnt s) \<Longrightarrow> mark_of i \<noteq> 0"
  using bitmap_wfD(3) mark_of_nonzero by blast

lemma qmark_alloc_mark_spec [kspec]:
  assumes "bitmap_wf s" "\<not> qmark_op_lock s"
  shows "qmark_alloc_mark s =
    (if free_slot s < unat (max_ip_cnt s) then Inr ((OK, mark_of (free_slot s)), put_bit (free_slot s) True s)
     else Inr ((ERROR, 0), s))"
  using assms mark_of_slot[OF assms(1)] by (simp add: qmark_alloc_mark_def alloc_mark_put)

lemma qmark_free_mark_spec [kspec]:
  assumes "bitmap_wf s" "\<not> qmark_op_lock s" "i < unat (max_ip_cnt s)"
  shows "qmark_free_mark (mark_of i) s = Inr ((), put_bit i False s)"
  using assms by (simp add: qmark_free_mark_def free_mark_put)

lemma mark_unshared_spec [kspec]:
  "rules_live s \<Longrightarrow> unat (rid - 1) < length (the_rules s) \<Longrightarrow>
   mark_unshared rid s = Inr (unshared (the_rules s ! unat (rid - 1)), s)"
  by (simp add: mark_unshared_def rule_at_spec unshared_def)

definition new_entry :: "u32 \<Rightarrow> u32 \<Rightarrow> u32 \<Rightarrow> marktbl_node" where
  "new_entry ip rid mark = \<lparr>n_src_ip = ip, n_id = rid, n_mark = mark, n_count = 0\<rparr>"

text \<open>There is room in the table when another element does not exceed \<open>max_ip_cnt\<close>.\<close>

definition has_room :: "kst \<Rightarrow> bool" where
  "has_room s \<longleftrightarrow> elem_num (the_head s) < max_ip_cnt s"

lemma room_iff:
  assumes "bitmap_wf s" "elem_num (the_head s) \<le> max_ip_cnt s"
  shows "max_ip_cnt s < elem_num (the_head s) + 1 \<longleftrightarrow> \<not> has_room s"
proof -
  have m: "unat (max_ip_cnt s) < 2 ^ 21" using assms(1) by (simp add: bitmap_wf_def)
  moreover have le: "unat (elem_num (the_head s)) \<le> unat (max_ip_cnt s)" using assms(2) by (simp add: word_le_nat_alt)
  ultimately have "unat (elem_num (the_head s) + 1) = Suc (unat (elem_num (the_head s)))"
    by (simp add: unat_word_ariths)
  then show ?thesis using le by (auto simp: has_room_def word_less_nat_alt)
qed

text \<open>What adding an address to the hash table does; the log records a refusal.\<close>

lemma qmark_add_hash_spec [kspec]:
  assumes wf: "table_wf s" "bitmap_wf s" "rules_live s" "\<not> qmark_op_lock s" "elem_num (the_head s) \<le> max_ip_cnt s"
    and rid: "unat (rid - 1) < length (the_rules s)" and new: "table s ip = None"
    and i: "i < unat (max_ip_cnt s)" "mark_bits s ! i"
  shows "qmark_add_hash ip rid (mark_of i) s =
    (if \<not> has_room s
     then Inr (OVER_MAX, quiet False (env_time s) (klog s @ [(''qos mark table fail to add.'', [])]) (nl_sent s) s)
     else if kmalloc_ok (env s) (env_time s) (sizeof_marktbl_node (env s))
     then Inr (OK, quiet False (Suc (env_time s)) (klog s) (nl_sent s) (count_rule (rid - 1) 1 (insert_node (new_entry ip rid (mark_of i)) s)))
     else Inr (ALLOC_FAIL, quiet False (Suc (env_time s)) (klog s @ [(''qos mark table fail to add.'', [])]) (nl_sent s) s))"
proof -
  let ?s = "quiet True (env_time s) (klog s) (nl_sent s) s"
  have w: "table_wf ?s" "rules_live ?s" "unat (rid - 1) < length (the_rules ?s)" using wf rid by simp_all
  have n: "lookup ?s ip = None" using new table_None_iff[OF wf(1)] by simp
  have r: "max_ip_cnt ?s < elem_num (the_head ?s) + 1 \<longleftrightarrow> \<not> has_room s" using room_iff[OF wf(2,5)] by simp
  have t: "test_mark (mark_of i) ?s = Inr (True, ?s)" using test_mark_spec[of ?s i] wf(2) i by simp
  show ?thesis
  proof (cases "has_room s")
    case False
    then have "marktbl_hash_add ip rid (mark_of i) ?s = Inr (OVER_MAX, ?s)"
      using marktbl_hash_add_full[OF w(1)] r by simp
    with t False wf show ?thesis by (simp add: qmark_add_hash_def qos_marktbl_hashtbl_add_def)
  next
    case True
    with t wf show ?thesis
      using marktbl_hash_add_new[OF w(1) _ n w(2,3), of "mark_of i"] r
      by (simp add: qmark_add_hash_def qos_marktbl_hashtbl_add_def new_entry_def count_rule_def)
  qed
qed

text \<open>The traffic control calls, under the lock or not: they return and only log and send.\<close>

lemma tc_add_spec:
  assumes "tc_ready s" "rule_rates_ok r"
  shows "\<exists>k l q. qmark_tc_add_rule r mark s = Inr ((), quiet (qmark_op_lock s) k l q s)"
  using rdy.add_rule_ok[OF assms(2), of mark undefined] assms(1) unfolding tcok_def quiet_intro(4) by (metis old.unit.exhaust)

lemma tc_del_spec:
  assumes "tc_ready s"
  shows "\<exists>k l q. qmark_tc_del_rule r mark s = Inr ((), quiet (qmark_op_lock s) k l q s)"
  using rdy.del_rule_ok[of r mark undefined] assms unfolding tcok_def quiet_intro(4) by (metis old.unit.exhaust)

section \<open>Shape and view of the transformed states\<close>

lemma card_table:
  assumes "table_wf s"
  shows "finite (dom (table s))" "card (dom (table s)) = unat (elem_num (the_head s))"
proof -
  let ?H = "set (concat (ht (the_head s)))" and ?key = "\<lambda>a. n_src_ip (the (node_heap s a))"
  have heap: "a \<in> ?H \<longleftrightarrow> (\<exists>n. node_heap s a = Some n)" for a
  proof
    assume "a \<in> ?H"
    then obtain b where "b \<in> set (ht (the_head s))" "a \<in> set b" by auto
    then obtain i where "i < length (ht (the_head s))" "a \<in> set (ht (the_head s) ! i)" by (metis in_set_conv_nth)
    then show "\<exists>n. node_heap s a = Some n" using table_wf_bucket[OF assms] by blast
  qed (use table_wf_heap[OF assms] in blast)
  have inj: "inj_on ?key ?H"
    using heap table_wf_unique[OF assms] by (intro inj_onI) (metis option.sel)
  have img: "dom (table s) = ?key ` ?H"
    using heap by (force simp: dom_def table_Some_iff[OF assms] image_iff simp del: set_concat)
  show "finite (dom (table s))" unfolding img by simp
  show "card (dom (table s)) = unat (elem_num (the_head s))"
    unfolding img card_image[OF inj] using table_wfD(5,6)[OF assms] by (simp add: distinct_card del: set_concat length_concat)
qed

lemma room_bound:
  assumes "shape s"
  shows "unat (elem_num (the_head s)) < 2 ^ 32 - 1" "card (dom (table s)) < 2 ^ 32 - 1"
proof -
  have "unat (elem_num (the_head s)) \<le> unat (max_ip_cnt s)" using shapeD(6)[OF assms] by (simp add: word_le_nat_alt)
  also have "\<dots> < 2 ^ 21" using shapeD(1)[OF assms] by (simp add: bitmap_wf_def)
  finally show "unat (elem_num (the_head s)) < 2 ^ 32 - 1" by simp
  then show "card (dom (table s)) < 2 ^ 32 - 1" using card_table(2)[OF shapeD(2)[OF assms]] by simp
qed

lemma has_room_iff: "shape s \<Longrightarrow> has_room s \<longleftrightarrow> card (dom (table s)) < unat (max_ip_cnt s)"
  using card_table(2)[OF shapeD(2)] by (simp add: has_room_def word_less_nat_alt)

lemma shape_quiet [simp]: "shape s \<Longrightarrow> shape (quiet False k l q s)"
  by (simp add: shape_def)

lemma shape_put_bit [simp]: "shape s \<Longrightarrow> shape (put_bit i b s)"
  by (simp add: shape_def)

lemma shape_map_rule:
  assumes "shape s" "\<And>r. r \<in> set (the_rules s) \<Longrightarrow> rule_rates_ok (f r)"
  shows "shape (map_rule i f s)"
proof (cases "unat i < length (the_rules s)")
  case True
  then show ?thesis using assms by (auto simp: shape_def rules_live_map dest!: set_mp[OF set_update_subset_insert])
next
  case False
  then have "map_rule i f s = s" using shapeD(3)[OF assms(1)] by (simp add: map_rule_def rules_live_def list_update_beyond)
  then show ?thesis using assms(1) by simp
qed

lemma shape_insert:
  assumes "shape s" "table s (n_src_ip n) = None" "has_room s"
  shows "shape (insert_node n s)"
proof -
  have "elem_num (the_head s) + 1 \<le> max_ip_cnt s"
    using assms(3) room_iff[OF shapeD(1,6)[OF assms(1)]] by (simp add: not_less)
  then show ?thesis
    using insert_node_wf[OF shapeD(2)[OF assms(1)] assms(2) room_bound(1)[OF assms(1)]] assms(1)
    by (simp add: shape_def insert_node_fields)
qed

lemma shape_remove:
  assumes "shape s" "node_heap s a = Some n" "n_src_ip n = ip"
  shows "shape (remove_node a ip s)"
proof -
  note wf = shapeD(2)[OF assms(1)]
  have "a \<in> set (concat (ht (the_head s)))" using table_wf_heap[OF wf assms(2)] by blast
  then have "unat (elem_num (the_head s)) \<noteq> 0" using table_wfD(6)[OF wf] by (metis length_pos_if_in_set less_numeral_extra(3))
  then have "elem_num (the_head s) - 1 \<le> elem_num (the_head s)"
    by (metis word_le_nat_alt unat_minus_one unat_0 diff_le_self)
  then show ?thesis
    using remove_node_wf[OF wf assms(2,3)] assms(1)
    by (auto simp: shape_def remove_node_fields)
qed

lemma shape_put_node:
  assumes "shape s" "node_heap s a = Some m" "n_src_ip n = n_src_ip m"
  shows "shape (put_node a n s)"
  using put_node_wf[OF shapeD(2)[OF assms(1)] assms(2,3)] assms(1) by (simp add: shape_def put_node_fields)

lemma view_quiet [simp]: "view (quiet b k l q s) = view s"
  by (simp add: view_def)

lemma view_map_rule [simp]:
  "view (map_rule i f s) = (view s)\<lparr>v_rules := (the_rules s)[unat i := f (the_rules s ! unat i)]\<rparr>"
  by (simp add: view_def)

lemma view_insert:
  "shape s \<Longrightarrow> table s (n_src_ip n) = None \<Longrightarrow> view (insert_node n s) = (view s)\<lparr>v_table := (table s)(n_src_ip n \<mapsto> n)\<rparr>"
  using table_insert_node[OF shapeD(2) _ room_bound(1)] by (simp add: view_def)

lemma view_remove:
  "shape s \<Longrightarrow> node_heap s a = Some n \<Longrightarrow> n_src_ip n = ip \<Longrightarrow>
   view (remove_node a ip s) = (view s)\<lparr>v_table := (table s)(ip := None)\<rparr>"
  using table_remove_node[OF shapeD(2)] by (simp add: view_def)

lemma view_put_node:
  "shape s \<Longrightarrow> node_heap s a = Some m \<Longrightarrow> n_src_ip n = n_src_ip m \<Longrightarrow>
   view (put_node a n s) = (view s)\<lparr>v_table := (table s)(n_src_ip n \<mapsto> n)\<rparr>"
  using table_put_node[OF shapeD(2)] by (simp add: view_def)

lemma used_put_bit:
  assumes "bitmap_wf s" "i < unat (max_ip_cnt s)"
  shows "used_marks (put_bit i b s) = (if b then insert (mark_of i) (used_marks s) else used_marks s - {mark_of i})"
  using used_marks_write[OF assms] by (simp add: put_bit_def)

lemma view_put_bit:
  "shape s \<Longrightarrow> i < unat (max_ip_cnt s) \<Longrightarrow> view (put_bit i b s) =
   (view s)\<lparr>v_used := (if b then insert (mark_of i) (used_marks s) else used_marks s - {mark_of i})\<rparr>"
  using used_put_bit[OF shapeD(1)] by (simp add: view_def)

end
