(* ===== verification/Qmark_Admit.thy ===== *)
theory Qmark_Admit
  imports Qmark_Refine
begin

text \<open>
  The packet path, \<open>qmark_alloc_mark_auto\<close>, on an address that is not in the table: when it admits the
  address, with which mark, and what it leaves behind when it refuses.
\<close>

text \<open>The state after \<open>choose_mark\<close> has taken a mark from the bitmap.\<close>

definition chosen :: "u32 \<Rightarrow> kst \<Rightarrow> kst" where
  "chosen rid s = (if r_mode (the_rules s ! unat (rid - 1)) = PRIV_MODE then put_bit (free_slot s) True s
     else map_rule (rid - 1) (\<lambda>r. r\<lparr>r_mark := mark_of (free_slot s)\<rparr>) (put_bit (free_slot s) True s))"

lemma choose_mark_spec:
  assumes "bitmap_wf s" "rules_live s" "\<not> qmark_op_lock s" "unat (rid - 1) < length (the_rules s)"
  shows "choose_mark rid s =
    (if \<not> unshared (the_rules s ! unat (rid - 1)) then Inr ((OK, r_mark (the_rules s ! unat (rid - 1))), s)
     else if free_slot s < unat (max_ip_cnt s) then Inr ((OK, mark_of (free_slot s)), chosen rid s)
     else Inr ((ERROR, 0), s))"
  using assms
  by (auto simp: choose_mark_def rule_at_spec qmark_alloc_mark_spec unshared_def chosen_def set_rule_spec)

lemma rates_mark_count [simp]:
  "rule_rates_ok (r\<lparr>r_mark := m\<rparr>) = rule_rates_ok r" "rule_rates_ok (r\<lparr>r_count := c\<rparr>) = rule_rates_ok r"
  by (simp_all add: rule_rates_ok_def)

lemma unshared_mark [simp]: "unshared (r\<lparr>r_mark := m\<rparr>) = unshared r"
  by (simp add: unshared_def)

lemma shape_chosen: "shape s \<Longrightarrow> shape (chosen rid s)"
  using shapeD(8)[of s] by (auto simp: chosen_def intro!: shape_map_rule)

lemma chosen_facts:
  assumes "shape s" "free_slot s < unat (max_ip_cnt s)" "unat (rid - 1) < length (the_rules s)"
  shows "table (chosen rid s) = table s" "max_ip_cnt (chosen rid s) = max_ip_cnt s" "has_room (chosen rid s) = has_room s"
    "env (chosen rid s) = env s" "env_time (chosen rid s) = env_time s" "klog (chosen rid s) = klog s"
    "nl_sent (chosen rid s) = nl_sent s" "length (the_rules (chosen rid s)) = length (the_rules s)"
    "mark_bits (chosen rid s) ! free_slot s" "the_head (chosen rid s) = the_head s"
    "unshared (the_rules (chosen rid s) ! unat (rid - 1)) = unshared (the_rules s ! unat (rid - 1))"
    "\<not> qmark_op_lock (chosen rid s)"
proof -
  have "free_slot s < length (mark_bits s)" using assms(2) bitmap_wfD(2)[OF shapeD(1)[OF assms(1)]] by simp
  then show "mark_bits (chosen rid s) ! free_slot s" by (simp add: chosen_def)
qed (use assms shapeD(4)[OF assms(1)] in \<open>auto simp: chosen_def has_room_def\<close>)

text \<open>When the address is admitted with a fresh mark the view changes as the model says.\<close>

lemma view_admit_fresh:
  assumes s: "shape s" and i: "unat (rid - 1) < length (the_rules s)" and new: "table s ip = None"
    and k: "free_slot s < unat (max_ip_cnt s)" and room: "has_room s"
  defines "t \<equiv> count_rule (rid - 1) 1 (insert_node (new_entry ip rid (mark_of (free_slot s))) (chosen rid s))"
  shows "shape t" "view t = admit_fresh ip rid (mark_of (free_slot s)) (view s)"
proof -
  note C = chosen_facts[OF s k i] and S = shape_chosen[OF s, of rid]
  let ?n = "new_entry ip rid (mark_of (free_slot s))"
  have n: "n_src_ip ?n = ip" by (simp add: new_entry_def)
  have ins: "shape (insert_node ?n (chosen rid s))"
    using C new room by (intro shape_insert[OF S]) (simp_all add: n)
  then show "shape t" unfolding t_def count_rule_def using shapeD(8)[OF ins] by (auto intro!: shape_map_rule)
  have vc: "view (chosen rid s) = view s\<lparr>v_used := insert (mark_of (free_slot s)) (used_marks s),
      v_rules := (the_rules s)[unat (rid - 1) := (the_rules s ! unat (rid - 1))\<lparr>r_mark :=
        (if r_mode (the_rules s ! unat (rid - 1)) = PRIV_MODE then r_mark (the_rules s ! unat (rid - 1))
         else mark_of (free_slot s))\<rparr>]\<rparr>"
    using k i view_put_bit[OF s k, of True] by (simp add: chosen_def)
  have "view (insert_node ?n (chosen rid s)) = view (chosen rid s)\<lparr>v_table := (table s)(ip \<mapsto> ?n)\<rparr>"
    using view_insert[OF S, of ?n] C new by (simp add: n)
  moreover have "the_rules (chosen rid s) = v_rules (view (chosen rid s))" by simp
  ultimately show "view t = admit_fresh ip rid (mark_of (free_slot s)) (view s)"
    unfolding t_def count_rule_def view_map_rule insert_node_frame vc using i
    by (simp add: admit_fresh_def Let_def new_entry_def vc)
qed

text \<open>A refused address leaves the tables alone; of its rule at most a mark that means nothing is reset.\<close>

lemma undo_chosen:
  assumes s: "shape s" and i: "unat (rid - 1) < length (the_rules s)" and k: "free_slot s < unat (max_ip_cnt s)"
  defines "t \<equiv> put_bit (free_slot s) False (map_rule (rid - 1) (\<lambda>r. r\<lparr>r_mark := 0\<rparr>) (chosen rid s))"
  shows "shape t" "view t = configure rid (\<lambda>r. r\<lparr>r_mark := 0\<rparr>) (view s)"
proof -
  note C = chosen_facts[OF s k i] and S = shape_chosen[OF s, of rid]
  have S': "shape (map_rule (rid - 1) (\<lambda>r. r\<lparr>r_mark := 0\<rparr>) (chosen rid s))"
    using shapeD(8)[OF S] by (intro shape_map_rule[OF S]) simp
  then show "shape t" by (simp add: t_def)
  have bits: "(mark_bits s)[free_slot s := False] = mark_bits s"
    using free_slot_hit[OF shapeD(1)[OF s] k] by (metis list_update_id)
  have "mark_bits t = mark_bits s" using bits by (simp add: t_def chosen_def)
  then have "used_marks t = used_marks s" using C(2) by (simp add: used_marks_def t_def)
  then show "view t = configure rid (\<lambda>r. r\<lparr>r_mark := 0\<rparr>) (view s)"
    using i by (simp add: view_def configure_def t_def chosen_def)
qed

section \<open>The call\<close>

text \<open>When an address can be admitted: no reset is going on, the table has room, memory for a node is
  available, and a mark is left if the rule needs one.\<close>

definition node_memory :: "kst \<Rightarrow> bool" where
  "node_memory s \<longleftrightarrow> kmalloc_ok (env s) (env_time s) (sizeof_marktbl_node (env s))"

definition admissible :: "u32 \<Rightarrow> kst \<Rightarrow> bool" where
  "admissible rid s \<longleftrightarrow> \<not> reset_flag s \<and> has_room s \<and> node_memory s \<and>
     (unshared (the_rules s ! unat (rid - 1)) \<longrightarrow> used_marks s \<noteq> mark_pool s)"

text \<open>The tail of the call: the traffic class is set up under the lock.\<close>

lemma tc_tail:
  assumes "shape t" "unat (rid - 1) < length (the_rules t)"
  shows "\<exists>k l q. thenM op_lock (bindM (rule_at (rid - 1)) (\<lambda>r. thenM (qmark_tc_add_rule r mark)
      (thenM op_unlock (ret x)))) t = Inr (x, quiet False k l q t)"
proof -
  note S = shapeD[OF assms(1)]
  let ?t = "quiet True (env_time t) (klog t) (nl_sent t) t"
  have "rule_rates_ok (the_rules t ! unat (rid - 1))" using S(8) assms(2) by simp
  then obtain k l q where "qmark_tc_add_rule (the_rules t ! unat (rid - 1)) mark ?t = Inr ((), quiet (qmark_op_lock ?t) k l q ?t)"
    using tc_add_spec[of ?t] S(5) by fastforce
  then show ?thesis using S(3,4) assms(2) by (auto simp: rule_at_spec)
qed

text \<open>What a call leaves as it is beside the tables: the environment, the size and the flag.\<close>

definition same_config :: "kst \<Rightarrow> kst \<Rightarrow> bool" where
  "same_config s t \<longleftrightarrow> env t = env s \<and> max_ip_cnt t = max_ip_cnt s \<and> reset_flag t = reset_flag s"

lemma auto_fresh:
  assumes inv: "shape s" and i: "unat (rid - 1) < length (the_rules s)" and new: "table s ip = None"
    and go: "\<not> reset_flag s" and un: "unshared (the_rules s ! unat (rid - 1))" and k: "free_slot s < unat (max_ip_cnt s)"
  shows "\<exists>t. shape t \<and> same_config s t \<and> (if has_room s \<and> node_memory s
    then qmark_alloc_mark_auto ip rid m0 s = Inr ((OK, mark_of (free_slot s)), t) \<and>
         view t = admit_fresh ip rid (mark_of (free_slot s)) (view s)
    else qmark_alloc_mark_auto ip rid m0 s = Inr ((ERROR, mark_of (free_slot s)), t) \<and>
         view t = configure rid (\<lambda>r. r\<lparr>r_mark := 0\<rparr>) (view s))"
proof -
  note S = shapeD[OF inv] and C = chosen_facts[OF inv k i] and SC = shapeD[OF shape_chosen[OF inv, of rid]]
  let ?c = "chosen rid s" and ?m = "mark_of (free_slot s)"
  have choose: "choose_mark rid s = Inr ((OK, ?m), ?c)"
    using choose_mark_spec[OF S(1,3,4) i] un k by simp
  have add: "qmark_add_hash ip rid ?m ?c =
    (if \<not> has_room s then Inr (OVER_MAX, quiet False (env_time s) (klog s @ [(''qos mark table fail to add.'', [])]) (nl_sent s) ?c)
     else if node_memory s then Inr (OK, quiet False (Suc (env_time s)) (klog s) (nl_sent s) (count_rule (rid - 1) 1 (insert_node (new_entry ip rid ?m) ?c)))
     else Inr (ALLOC_FAIL, quiet False (Suc (env_time s)) (klog s @ [(''qos mark table fail to add.'', [])]) (nl_sent s) ?c))"
    using qmark_add_hash_spec[OF SC(2,1,3,4,6), of rid ip "free_slot s"] i new k C by (simp add: node_memory_def)
  let ?u = "put_bit (free_slot s) False (map_rule (rid - 1) (\<lambda>r. r\<lparr>r_mark := 0\<rparr>) ?c)"
  have undo: "bindM (mark_unshared rid) (\<lambda>last. thenM (whenM last (thenM (set_rule (rid - 1) (\<lambda>r. r\<lparr>r_mark := 0\<rparr>))
      (qmark_free_mark ?m))) (ret (ERROR, ?m))) (quiet False a b q ?c) = Inr ((ERROR, ?m), quiet False a b q ?u)" for a b q
    using SC(1,3,4) C un i k by (simp add: mark_unshared_spec set_rule_spec qmark_free_mark_spec)
  note U = undo_chosen[OF inv i k] and A = view_admit_fresh[OF inv i new k]
  show ?thesis
  proof (cases "has_room s \<and> node_memory s")
    case True
    let ?t = "quiet False (Suc (env_time s)) (klog s) (nl_sent s) (count_rule (rid - 1) 1 (insert_node (new_entry ip rid ?m) ?c))"
    have t: "shape ?t" "view ?t = admit_fresh ip rid ?m (view s)" using A True by simp_all
    have l: "unat (rid - 1) < length (the_rules ?t)" using i C by (simp add: count_rule_def)
    obtain a b q where "thenM op_lock (bindM (rule_at (rid - 1)) (\<lambda>r. thenM (qmark_tc_add_rule r ?m)
      (thenM op_unlock (ret (OK, ?m))))) ?t = Inr ((OK, ?m), quiet False a b q ?t)" using tc_tail[OF t(1) l, of ?m "(OK, ?m)"] by blast
    then have "qmark_alloc_mark_auto ip rid m0 s = Inr ((OK, ?m), quiet False a b q ?t)"
      using go choose add True by (simp add: qmark_alloc_mark_auto_def)
    moreover have "same_config s (quiet False a b q ?t)" by (simp add: same_config_def count_rule_def chosen_def)
    ultimately show ?thesis
      using t True by (intro exI[of _ "quiet False a b q ?t"]) (simp only: view_quiet shape_quiet if_True simp_thms)
  next
    case False
    then obtain a b q where "qmark_alloc_mark_auto ip rid m0 s = Inr ((ERROR, ?m), quiet False a b q ?u)"
      using go choose add undo by (auto simp: qmark_alloc_mark_auto_def split: if_splits)
    moreover have "same_config s (quiet False a b q ?u)" by (simp add: same_config_def chosen_def)
    ultimately show ?thesis
      using U False by (intro exI[of _ "quiet False a b q ?u"]) (simp only: view_quiet shape_quiet if_False simp_thms)
  qed
qed

lemma view_admit_shared:
  assumes s: "shape s" and i: "unat (rid - 1) < length (the_rules s)" and new: "table s ip = None" and room: "has_room s"
  defines "t \<equiv> count_rule (rid - 1) 1 (insert_node (new_entry ip rid (r_mark (the_rules s ! unat (rid - 1)))) s)"
  shows "shape t" "view t = admit_shared ip rid (view s)"
proof -
  let ?n = "new_entry ip rid (r_mark (the_rules s ! unat (rid - 1)))"
  have n: "n_src_ip ?n = ip" by (simp add: new_entry_def)
  have ins: "shape (insert_node ?n s)" using new room by (intro shape_insert[OF s]) (simp_all add: n)
  then show "shape t" unfolding t_def count_rule_def using shapeD(8)[OF ins] by (auto intro!: shape_map_rule)
  have "view (insert_node ?n s) = view s\<lparr>v_table := (table s)(ip \<mapsto> ?n)\<rparr>"
    using view_insert[OF s, of ?n] new by (simp add: n)
  then show "view t = admit_shared ip rid (view s)"
    unfolding t_def count_rule_def view_map_rule insert_node_frame using i
    by (simp add: admit_shared_def Let_def new_entry_def)
qed

lemma auto_shared:
  assumes inv: "shape s" and i: "unat (rid - 1) < length (the_rules s)" and new: "table s ip = None"
    and go: "\<not> reset_flag s" and sh: "\<not> unshared (the_rules s ! unat (rid - 1))"
    and used: "r_mark (the_rules s ! unat (rid - 1)) \<in> used_marks s"
  shows "\<exists>t. shape t \<and> (if has_room s \<and> node_memory s
    then qmark_alloc_mark_auto ip rid m0 s = Inr ((OK, r_mark (the_rules s ! unat (rid - 1))), t) \<and>
         view t = admit_shared ip rid (view s)
    else qmark_alloc_mark_auto ip rid m0 s = Inr ((ERROR, r_mark (the_rules s ! unat (rid - 1))), t) \<and> view t = view s)"
proof -
  note S = shapeD[OF inv]
  let ?m = "r_mark (the_rules s ! unat (rid - 1))"
  obtain k where k: "k < unat (max_ip_cnt s)" "mark_bits s ! k" "?m = mark_of k" using used by (auto simp: used_marks_def)
  have choose: "choose_mark rid s = Inr ((OK, ?m), s)"
    using choose_mark_spec[OF S(1,3,4) i] sh by simp
  have add: "qmark_add_hash ip rid ?m s =
    (if \<not> has_room s then Inr (OVER_MAX, quiet False (env_time s) (klog s @ [(''qos mark table fail to add.'', [])]) (nl_sent s) s)
     else if node_memory s then Inr (OK, quiet False (Suc (env_time s)) (klog s) (nl_sent s) (count_rule (rid - 1) 1 (insert_node (new_entry ip rid ?m) s)))
     else Inr (ALLOC_FAIL, quiet False (Suc (env_time s)) (klog s @ [(''qos mark table fail to add.'', [])]) (nl_sent s) s))"
    unfolding k(3) using qmark_add_hash_spec[OF S(2,1,3,4,6) i new k(1,2)] by (simp add: node_memory_def)
  have undo: "bindM (mark_unshared rid) (\<lambda>last. thenM (whenM last (thenM (set_rule (rid - 1) (\<lambda>r. r\<lparr>r_mark := 0\<rparr>))
      (qmark_free_mark ?m))) (ret (ERROR, ?m))) (quiet False a b q s) = Inr ((ERROR, ?m), quiet False a b q s)" for a b q
    using S(3) i sh by (simp add: mark_unshared_spec)
  show ?thesis
  proof (cases "has_room s \<and> node_memory s")
    case True
    let ?t = "quiet False (Suc (env_time s)) (klog s) (nl_sent s) (count_rule (rid - 1) 1 (insert_node (new_entry ip rid ?m) s))"
    have t: "shape ?t" "view ?t = admit_shared ip rid (view s)" using view_admit_shared[OF inv i new] True by simp_all
    have l: "unat (rid - 1) < length (the_rules ?t)" using i by (simp add: count_rule_def)
    obtain a b q where "thenM op_lock (bindM (rule_at (rid - 1)) (\<lambda>r. thenM (qmark_tc_add_rule r ?m)
      (thenM op_unlock (ret (OK, ?m))))) ?t = Inr ((OK, ?m), quiet False a b q ?t)" using tc_tail[OF t(1) l, of ?m "(OK, ?m)"] by blast
    then have "qmark_alloc_mark_auto ip rid m0 s = Inr ((OK, ?m), quiet False a b q ?t)"
      using go choose add True by (simp add: qmark_alloc_mark_auto_def)
    with t True show ?thesis by (intro exI[of _ "quiet False a b q ?t"]) (simp only: view_quiet shape_quiet if_True simp_thms)
  next
    case False
    then obtain a b q where "qmark_alloc_mark_auto ip rid m0 s = Inr ((ERROR, ?m), quiet False a b q s)"
      using go choose add undo by (auto simp: qmark_alloc_mark_auto_def split: if_splits)
    with inv False show ?thesis by (intro exI[of _ "quiet False a b q s"]) (simp only: view_quiet shape_quiet if_False simp_thms)
  qed
qed

lemma qos_invD: "qos_inv s \<Longrightarrow> shape s \<and> view_ok (view s)"
  by (simp add: qos_inv_def)

text \<open>The mark an admitted address gets: the lowest free one, or its rule's.\<close>

definition granted_mark :: "u32 \<Rightarrow> kst \<Rightarrow> u32" where
  "granted_mark rid s = (if unshared (the_rules s ! unat (rid - 1)) then mark_of (free_slot s)
     else r_mark (the_rules s ! unat (rid - 1)))"

definition admit :: "u32 \<Rightarrow> u32 \<Rightarrow> kst \<Rightarrow> qview" where
  "admit ip rid s = (if unshared (the_rules s ! unat (rid - 1)) then admit_fresh ip rid (mark_of (free_slot s)) (view s)
     else admit_shared ip rid (view s))"

lemma free_slot_iff: "bitmap_wf s \<Longrightarrow> free_slot s < unat (max_ip_cnt s) \<longleftrightarrow> used_marks s \<noteq> mark_pool s"
  using used_eq_pool_iff free_slot_le[of s] by fastforce

lemma slot_not_used: "bitmap_wf s \<Longrightarrow> free_slot s < unat (max_ip_cnt s) \<Longrightarrow> mark_of (free_slot s) \<notin> used_marks s"
  using free_slot_hit mem_used_marks by blast

lemma admit_ok:
  assumes inv: "qos_inv s" and i: "unat (rid - 1) < length (the_rules s)" and new: "table s ip = None"
    and a: "unshared (the_rules s ! unat (rid - 1)) \<longrightarrow> used_marks s \<noteq> mark_pool s"
  shows "view_ok (admit ip rid s)"
proof -
  note S = qos_invD[OF inv, THEN conjunct1] and V = qos_invD[OF inv, THEN conjunct2]
  show ?thesis
  proof (cases "unshared (the_rules s ! unat (rid - 1))")
    case True
    with a have k: "free_slot s < unat (max_ip_cnt s)" using free_slot_iff[OF shapeD(1)[OF S]] by simp
    show ?thesis
      unfolding admit_def using True room_bound(2)[OF S]
      by (auto intro!: admit_fresh_ok[OF V] simp: i new slot_not_used[OF shapeD(1)[OF S] k])
  next
    case False
    then show ?thesis
      unfolding admit_def using room_bound(2)[OF S] by (auto intro!: admit_shared_ok(1)[OF V] simp: i new)
  qed
qed

lemma alloc_mark_auto_cases:
  assumes inv: "qos_inv s" and i: "unat (rid - 1) < length (the_rules s)" and new: "table s ip = None"
  shows "\<exists>t. qos_inv t \<and> (if admissible rid s
    then qmark_alloc_mark_auto ip rid m0 s = Inr ((OK, granted_mark rid s), t) \<and> view t = admit ip rid s
    else (\<exists>m. qmark_alloc_mark_auto ip rid m0 s = Inr ((ERROR, m), t)) \<and>
      (view t = view s \<or> unshared (the_rules s ! unat (rid - 1)) \<and> view t = configure rid (\<lambda>r. r\<lparr>r_mark := 0\<rparr>) (view s)))"
proof -
  note S = qos_invD[OF inv, THEN conjunct1] and V = qos_invD[OF inv, THEN conjunct2]
  let ?r = "the_rules s ! unat (rid - 1)"
  consider (reset) "reset_flag s" | (full) "\<not> reset_flag s" "unshared ?r" "\<not> free_slot s < unat (max_ip_cnt s)"
    | (fresh) "\<not> reset_flag s" "unshared ?r" "free_slot s < unat (max_ip_cnt s)" | (shared) "\<not> reset_flag s" "\<not> unshared ?r" by blast
  then show ?thesis
  proof cases
    case reset
    then show ?thesis using inv by (intro exI[of _ s]) (simp add: qmark_alloc_mark_auto_def admissible_def)
  next
    case full
    then show ?thesis
      using inv free_slot_iff[OF shapeD(1)[OF S]] choose_mark_spec[OF shapeD(1,3,4)[OF S] i]
      by (intro exI[of _ s]) (simp add: qmark_alloc_mark_auto_def admissible_def)
  next
    case fresh
    then have u: "used_marks s \<noteq> mark_pool s" using free_slot_iff[OF shapeD(1)[OF S]] by simp
    obtain t where t: "shape t" "if has_room s \<and> node_memory s
      then qmark_alloc_mark_auto ip rid m0 s = Inr ((OK, mark_of (free_slot s)), t) \<and> view t = admit_fresh ip rid (mark_of (free_slot s)) (view s)
      else qmark_alloc_mark_auto ip rid m0 s = Inr ((ERROR, mark_of (free_slot s)), t) \<and> view t = configure rid (\<lambda>r. r\<lparr>r_mark := 0\<rparr>) (view s)"
      using auto_fresh[OF S i new fresh] by blast
    have "view_ok (configure rid (\<lambda>r. r\<lparr>r_mark := 0\<rparr>) (view s))" using fresh i by (intro forget_mark_ok[OF V]) simp_all
    moreover have "view_ok (admit ip rid s)" by (rule admit_ok[OF inv i new]) (simp add: u)
    ultimately show ?thesis
      using t fresh u by (intro exI[of _ t]) (auto simp: qos_inv_def admissible_def admit_def granted_mark_def split: if_splits)
  next
    case shared
    have "r_mark ?r \<in> used_marks s"
      using admit_shared_ok(2)[OF V, of rid ip] i new shared room_bound(2)[OF S] by simp
    then obtain t where t: "shape t" "if has_room s \<and> node_memory s
      then qmark_alloc_mark_auto ip rid m0 s = Inr ((OK, r_mark ?r), t) \<and> view t = admit_shared ip rid (view s)
      else qmark_alloc_mark_auto ip rid m0 s = Inr ((ERROR, r_mark ?r), t) \<and> view t = view s"
      using auto_shared[OF S i new shared] by blast
    moreover have "view_ok (admit ip rid s)" by (rule admit_ok[OF inv i new]) (simp add: shared)
    ultimately show ?thesis
      using shared V by (intro exI[of _ t]) (auto simp: qos_inv_def admissible_def admit_def granted_mark_def split: if_splits)
  qed
qed

end
