(* ===== verification/Qmark_Leave.thy ===== *)
theory Qmark_Leave
  imports Qmark_Admit
begin

text \<open>
  The other way round: connections of an address ending (conntrack, \<open>qmark_del_hash\<close>) or beginning
  (conntrack), down to the release of the address's mark; and the calls that only read or configure.
\<close>

section \<open>Releasing an address\<close>

text \<open>The node after its count was changed, and the tables once it is unlinked and its rule has counted down.\<close>

definition counted :: "u32 \<Rightarrow> marktbl_node \<Rightarrow> marktbl_node" where
  "counted d n = n\<lparr>n_count := n_count n + d\<rparr>"

definition unlinked :: "addr \<Rightarrow> marktbl_node \<Rightarrow> kst \<Rightarrow> kst" where
  "unlinked a n s = count_rule (n_id n - 1) (- 1) (remove_node a (n_src_ip n) (put_node a (counted (- 1) n) s))"

definition released :: "addr \<Rightarrow> marktbl_node \<Rightarrow> nat \<Rightarrow> kst \<Rightarrow> kst" where
  "released a n j s = put_bit j False (map_rule (n_id n - 1) (\<lambda>r. r\<lparr>r_mark := 0\<rparr>) (unlinked a n s))"

text \<open>The last connection ends when the count, as a signed number, is no longer positive.\<close>

definition last_conn :: "marktbl_node \<Rightarrow> bool" where
  "last_conn n \<longleftrightarrow> sint (n_count n - 1) \<le> 0"

lemma counted_simps [simp]:
  "n_src_ip (counted d n) = n_src_ip n" "n_id (counted d n) = n_id n" "n_mark (counted d n) = n_mark n"
  "n_count (counted d n) = n_count n + d" "rule_ix (counted d n) = rule_ix n"
  by (simp_all add: counted_def)

lemma unlinked_quiet [simp]:
  "unlinked a n (quiet b k l q s) = quiet b k l q (unlinked a n s)"
  by (simp add: unlinked_def count_rule_def)

lemma heap_unlinked [simp]: "node_heap (unlinked a n s) = (node_heap s)(a := None)"
  by (simp add: unlinked_def count_rule_def remove_node_fields put_node_fields)

lemma heap_released [simp]: "node_heap (released a n j s) = (node_heap s)(a := None)"
  by (simp add: released_def)

lemma addr_unlinked [simp]: "next_addr (unlinked a n s) = next_addr s" "next_addr (released a n j s) = next_addr s"
  by (simp_all add: unlinked_def released_def count_rule_def)

lemma reset_unlinked [simp]: "reset_flag (unlinked a n s) = reset_flag s"
  by (simp add: unlinked_def count_rule_def)

lemma reset_released [simp]: "reset_flag (released a n j s) = reset_flag s"
  by (simp add: released_def)

lemma flight_node:
  assumes "flight_inv F s" "table s ip = Some n"
  shows "n_src_ip n = ip" "unat (n_id n - 1) < length (the_rules s)" "n_mark n \<in> used_marks s"
  using assms by (auto simp: flight_inv_def view_ok_def nodes_ok_def rule_ix_def)

lemma not_in_flight: "flight_inv F s \<Longrightarrow> table s ip = Some n \<Longrightarrow> n_mark n \<notin> F"
  by (auto simp: flight_inv_def view_ok_def nodes_ok_def)

lemma leave_settled: "settled F (leave ip v) = leave ip (settled F v)"
  by (auto simp: leave_def Let_def settled_def Diff_eq Int_ac split: option.split)

lemma recount_settled: "settled F (recount ip d v) = recount ip d (settled F v)"
  by (auto simp: recount_def settled_def split: option.split)

lemma used_leave:
  "used_marks s - (case table s ip of None \<Rightarrow> {} | Some n \<Rightarrow> {n_mark n}) \<subseteq> v_used (leave ip (view s))"
  by (auto simp: leave_def Let_def split: option.split)

lemma used_recount [simp]: "v_used (recount ip d v) = v_used v"
  by (simp add: recount_def split: option.split)

lemma flight_recount:
  assumes "flight_inv F s" "shape t" "view t = recount ip d (view s)"
  shows "flight_inv F t"
proof -
  have "used_marks t = used_marks s" using assms(3) by (metis used_recount view_fields(3))
  then show ?thesis
    using assms recount_ok[of "settled F (view s)" ip d] by (simp add: flight_inv_def recount_settled)
qed

lemma flight_leave:
  assumes "flight_inv F s" "table s ip = Some n" "shape t" "view t = leave ip (view s)"
  shows "flight_inv F t"
proof -
  have "used_marks s - {n_mark n} \<subseteq> used_marks t" using used_leave[of s ip] assms(2,4) by (metis option.simps(5) view_fields(3))
  then have "F \<subseteq> used_marks t" using flight_invD(2)[OF assms(1)] not_in_flight[OF assms(1,2)] by blast
  then show ?thesis
    using assms leave_ok[of "settled F (view s)" ip n] by (simp add: flight_inv_def leave_settled)
qed

lemma lookup_node:
  assumes "shape s" "table s ip = Some n"
  obtains a where "lookup s ip = Some a" "node_heap s a = Some n"
  using assms by (auto simp: table_def bind_eq_Some_conv)

lemma unlinked_facts:
  assumes inv: "flight_inv F s" and at: "node_heap s a = Some n" and ip: "n_src_ip n = ip" and T: "table s ip = Some n"
  shows "shape (unlinked a n s)"
    "table (unlinked a n s) = (table s)(ip := None)" "used_marks (unlinked a n s) = used_marks s"
    "the_rules (unlinked a n s) = (the_rules s)[rule_ix n := (the_rules s ! rule_ix n)\<lparr>r_count := r_count (the_rules s ! rule_ix n) - 1\<rparr>]"
    "max_ip_cnt (unlinked a n s) = max_ip_cnt s" "\<not> qmark_op_lock (unlinked a n s)"
    "mark_bits (unlinked a n s) = mark_bits s"
proof -
  note S = flight_invD(1)[OF inv]
  let ?u = "put_node a (counted (- 1) n) s"
  have u: "shape ?u" by (rule shape_put_node[OF S at]) simp
  have tu: "table ?u = (table s)(ip \<mapsto> counted (- 1) n)" using table_put_node[OF shapeD(2)[OF S] at] ip by simp
  have au: "node_heap ?u a = Some (counted (- 1) n)" by (simp add: put_node_fields)
  have r: "shape (remove_node a ip ?u)" by (rule shape_remove[OF u au]) (simp add: ip)
  show "shape (unlinked a n s)" unfolding unlinked_def count_rule_def ip using shapeD(8)[OF r]
    by (auto intro!: shape_map_rule[OF r])
  have "table (remove_node a ip ?u) = (table ?u)(ip := None)"
    by (rule table_remove_node[OF shapeD(2)[OF u] au]) (simp add: ip)
  then show "table (unlinked a n s) = (table s)(ip := None)" by (simp add: unlinked_def count_rule_def ip tu)
  show "used_marks (unlinked a n s) = used_marks s" "max_ip_cnt (unlinked a n s) = max_ip_cnt s"
    "mark_bits (unlinked a n s) = mark_bits s" "\<not> qmark_op_lock (unlinked a n s)"
    using shapeD(4)[OF S] by (simp_all add: unlinked_def count_rule_def)
  show "the_rules (unlinked a n s) = (the_rules s)[rule_ix n := (the_rules s ! rule_ix n)\<lparr>r_count := r_count (the_rules s ! rule_ix n) - 1\<rparr>]"
    by (simp add: unlinked_def count_rule_def rule_ix_def)
qed

text \<open>Both endings give the view that the model's \<open>leave\<close> gives.\<close>

lemma leave_flight:
  assumes inv: "flight_inv F s" and at: "node_heap s a = Some n" and ip: "n_src_ip n = ip" and T: "table s ip = Some n"
    and j: "j < unat (max_ip_cnt s)" "n_mark n = mark_of j"
  shows "flight_inv F (if unshared (the_rules (unlinked a n s) ! unat (n_id n - 1)) then released a n j s else unlinked a n s)"
    "view (if unshared (the_rules (unlinked a n s) ! unat (n_id n - 1)) then released a n j s else unlinked a n s) = leave ip (view s)"
proof -
  note F = unlinked_facts[OF inv at ip T] and N = flight_node[OF inv T]
  let ?W = "unlinked a n s"
  have i: "rule_ix n < length (the_rules s)" using N(2) by (simp add: rule_ix_def)
  have M: "shape (map_rule (n_id n - 1) (\<lambda>r. r\<lparr>r_mark := 0\<rparr>) ?W)"
    using shapeD(8)[OF F(1)] by (intro shape_map_rule[OF F(1)]) simp
  have rel: "shape (released a n j s)" unfolding released_def using M by simp
  have "used_marks (released a n j s) = used_marks s - {n_mark n}"
    unfolding released_def using used_put_bit[OF shapeD(1)[OF M], of j False] j F(3,5) by simp
  then have vr: "view (released a n j s) = \<lparr>v_table = (table s)(ip := None), v_rules = (the_rules s)[rule_ix n :=
      (the_rules s ! rule_ix n)\<lparr>r_count := r_count (the_rules s ! rule_ix n) - 1, r_mark := 0\<rparr>], v_used = used_marks s - {n_mark n}\<rparr>"
    using i F(2,4) by (simp add: view_def released_def rule_ix_def)
  have vu: "view ?W = \<lparr>v_table = (table s)(ip := None), v_rules = (the_rules s)[rule_ix n :=
      (the_rules s ! rule_ix n)\<lparr>r_count := r_count (the_rules s ! rule_ix n) - 1\<rparr>], v_used = used_marks s\<rparr>"
    by (simp add: view_def F)
  show v: "view (if unshared (the_rules ?W ! unat (n_id n - 1)) then released a n j s else ?W) = leave ip (view s)"
    using T i F(4) vr vu by (simp add: leave_def Let_def rule_ix_def view_def)
  have "shape (if unshared (the_rules ?W ! unat (n_id n - 1)) then released a n j s else ?W)" using rel F(1) by simp
  then show "flight_inv F (if unshared (the_rules ?W ! unat (n_id n - 1)) then released a n j s else ?W)"
    using v by (rule flight_leave[OF inv T])
qed

section \<open>The calls\<close>

lemma add_count_put [simp]:
  "node_heap s a = Some n \<Longrightarrow> add_count (Some a) d s = Inr ((), put_node a (counted d n) s)"
  by (simp add: add_count_def put_node_def counted_def)

lemma put_node_same [simp]: "node_heap (put_node a n s) a = Some n"
  by (simp add: put_node_fields)

text \<open>The state of the calls just before the node is deleted.\<close>

lemma del_locked:
  fixes k :: nat and l :: "(string \<times> u32 list) list" and q :: "rtnl_req list"
  assumes inv: "flight_inv F s" and at: "lookup s ip = Some a" "node_heap s a = Some n" and T: "table s ip = Some n" and last: "last_conn n"
  defines "u \<equiv> put_node a (counted (- 1) n) (quiet True k l q s)"
  shows "qos_marktbl_hashtbl_del ip u = Inr ((OK, n_mark n), quiet True k l q (unlinked a n s))"
proof -
  note S = flight_invD(1)[OF inv] and N = flight_node[OF inv T]
  have key: "n_src_ip (counted (- 1) n) = n_src_ip n" by simp
  let ?p = "put_node a (counted (- 1) n) s"
  have p: "table_wf ?p" using put_node_wf[OF shapeD(2)[OF S] at(2) key] .
  have u: "u = quiet True k l q ?p" by (simp add: u_def)
  have wf: "table_wf u" using p by (simp add: u)
  have lu: "lookup u ip = Some a"
    using lookup_Some_iff[OF p, of ip a] N(1) by (simp add: u)
  have nu: "node_heap u a = Some (counted (- 1) n)" by (simp add: u)
  show ?thesis
    using qos_marktbl_hashtbl_del_spec[OF wf lu nu] shapeD(3)[OF S] N last
    by (simp add: u unlinked_def count_rule_def last_conn_def not_less)
qed

lemma flight_slot:
  assumes "flight_inv F s" "table s ip = Some n"
  obtains j where "j < unat (max_ip_cnt s)" "n_mark n = mark_of j"
  using flight_node(3)[OF assms] by (auto simp: used_marks_def)

text \<open>A connection ends: the handler's branch for \<open>IPCT_DESTROY\<close>.\<close>

lemma ct_destroy_flight:
  assumes inv: "flight_inv F s"
  shows "\<exists>t. ct_destroy ip s = Inr ((), t) \<and> flight_inv F t \<and> reset_flag t = reset_flag s \<and> next_addr t = next_addr s \<and>
    node_heap t = (case table s ip of None \<Rightarrow> node_heap s
      | Some n \<Rightarrow> (node_heap s)(the (lookup s ip) := (if last_conn n then None else Some (counted (- 1) n)))) \<and>
    view t = (case table s ip of None \<Rightarrow> view s
    | Some n \<Rightarrow> if last_conn n then leave ip (view s) else recount ip (- 1) (view s))"
proof -
  note S = flight_invD(1)[OF inv] and L = shapeD(4)[OF S]
  let ?k = "env_time s" and ?l = "klog s" and ?q = "nl_sent s"
  show ?thesis
  proof (cases "table s ip")
    case None
    then have "ct_destroy ip s = Inr ((), s)"
      using table_None_iff[OF shapeD(2)[OF S]] L shapeD(2)[OF S] by (simp add: ct_destroy_def marktbl_hash_get_spec)
    with None inv show ?thesis by simp
  next
    case (Some n)
    obtain a where a: "lookup s ip = Some a" "node_heap s a = Some n" using lookup_node[OF S Some] .
    note N = flight_node[OF inv Some] and F = unlinked_facts[OF inv a(2) flight_node(1)[OF inv Some] Some]
    let ?p = "put_node a (counted (- 1) n) s" and ?W = "unlinked a n s"
    obtain j where j: "j < unat (max_ip_cnt s)" "n_mark n = mark_of j" using flight_slot[OF inv Some] .
    show ?thesis
    proof (cases "last_conn n")
      case False
      have "ct_destroy ip s = Inr ((), ?p)"
        using a L shapeD(2)[OF S] False by (simp add: ct_destroy_def marktbl_hash_get_spec last_conn_def)
      moreover have "view ?p = recount ip (- 1) (view s)"
        using view_put_node[OF S a(2), of "counted (- 1) n"] Some N(1) by (simp add: recount_def counted_def)
      moreover have "shape ?p" by (rule shape_put_node[OF S a(2)]) simp
      ultimately show ?thesis
        using Some False a flight_recount[OF inv] by (simp add: put_node_fields)
    next
      case True
      note W = leave_flight[OF inv a(2) N(1) Some j]
      have i: "unat (n_id n - 1) < length (the_rules ?W)" using N(2) F(4) by simp
      note R = shapeD[OF F(1)]
      have head: "ct_destroy ip s = thenM (whenM (unshared (the_rules ?W ! unat (n_id n - 1)))
          (thenM (set_rule (n_id n - 1) (\<lambda>r. r\<lparr>r_mark := 0\<rparr>)) (bindM (rule_at (n_id n - 1)) (\<lambda>r.
           thenM (qmark_tc_del_rule r (n_mark n)) (free_mark (n_mark n)))))) op_unlock (quiet True ?k ?l ?q ?W)"
        using a L shapeD(2)[OF S] True del_locked[OF inv a Some True, of ?k ?l ?q] i R(3)
        by (simp add: ct_destroy_def marktbl_hash_get_spec Let_def mark_unshared_spec last_conn_def)
      show ?thesis
      proof (cases "unshared (the_rules ?W ! unat (n_id n - 1))")
        case un: False
        have "ct_destroy ip s = Inr ((), quiet False ?k ?l ?q ?W)" unfolding head using un by simp
        with W un True Some a show ?thesis by (auto simp: flight_inv_def reset_unlinked heap_unlinked)
      next
        case un: True
        let ?m = "map_rule (n_id n - 1) (\<lambda>r. r\<lparr>r_mark := 0\<rparr>) ?W"
        let ?r = "(the_rules ?m) ! unat (n_id n - 1)"
        obtain k l q where d: "qmark_tc_del_rule ?r (n_mark n) (quiet True ?k ?l ?q ?m) = Inr ((), quiet True k l q ?m)"
          using tc_del_spec[of "quiet True ?k ?l ?q ?m" ?r "n_mark n"] R(5) by auto
        have "ct_destroy ip s = Inr ((), quiet False k l q (released a n j s))"
          unfolding head using un i R d j F(5) by (simp add: set_rule_spec rule_at_spec free_mark_put released_def)
        with W un True Some a show ?thesis by (auto simp: flight_inv_def reset_released heap_released)
      qed
    qed
  qed
qed

text \<open>\<open>qmark_del_hash\<close> does the same without touching traffic control, and reports what it did.\<close>

lemma qmark_del_hash_flight:
  assumes inv: "flight_inv F s"
  shows "\<exists>t. flight_inv F t \<and> next_addr t = next_addr s \<and>
    node_heap t = (case table s ip of None \<Rightarrow> node_heap s
      | Some n \<Rightarrow> (node_heap s)(the (lookup s ip) := (if last_conn n then None else Some (counted (- 1) n)))) \<and>
    (case table s ip of
      None \<Rightarrow> qmark_del_hash ip m0 s = Inr ((ERROR, m0), t) \<and> view t = view s
    | Some n \<Rightarrow> if last_conn n then qmark_del_hash ip m0 s = Inr ((OK, n_mark n), t) \<and> view t = leave ip (view s)
        else qmark_del_hash ip m0 s = Inr ((ERROR, m0), t) \<and> view t = recount ip (- 1) (view s))"
proof -
  note S = flight_invD(1)[OF inv] and L = shapeD(4)[OF S]
  let ?k = "env_time s" and ?l = "klog s" and ?q = "nl_sent s"
  show ?thesis
  proof (cases "table s ip")
    case None
    then have "qmark_del_hash ip m0 s = Inr ((ERROR, m0), s)"
      using table_None_iff[OF shapeD(2)[OF S]] L shapeD(2)[OF S] by (simp add: qmark_del_hash_def marktbl_hash_get_spec)
    with None inv show ?thesis by auto
  next
    case (Some n)
    obtain a where a: "lookup s ip = Some a" "node_heap s a = Some n" using lookup_node[OF S Some] .
    note N = flight_node[OF inv Some] and F = unlinked_facts[OF inv a(2) flight_node(1)[OF inv Some] Some]
    let ?p = "put_node a (counted (- 1) n) s" and ?W = "unlinked a n s"
    obtain j where j: "j < unat (max_ip_cnt s)" "n_mark n = mark_of j" using flight_slot[OF inv Some] .
    show ?thesis
    proof (cases "last_conn n")
      case False
      have "qmark_del_hash ip m0 s = Inr ((ERROR, m0), ?p)"
        using a L shapeD(2)[OF S] False by (simp add: qmark_del_hash_def marktbl_hash_get_spec last_conn_def)
      moreover have "view ?p = recount ip (- 1) (view s)"
        using view_put_node[OF S a(2), of "counted (- 1) n"] Some N(1) by (simp add: recount_def counted_def)
      moreover have "shape ?p" by (rule shape_put_node[OF S a(2)]) simp
      ultimately show ?thesis
        using Some False a flight_recount[OF inv] by (simp add: put_node_fields)
    next
      case True
      note W = leave_flight[OF inv a(2) N(1) Some j] and R = shapeD[OF F(1)]
      have i: "unat (n_id n - 1) < length (the_rules ?W)" using N(2) F(4) by simp
      have "qmark_del_hash ip m0 s = Inr ((OK, n_mark n), quiet False ?k ?l ?q
          (if unshared (the_rules ?W ! unat (n_id n - 1)) then released a n j s else ?W))"
        using a L shapeD(2)[OF S] True del_locked[OF inv a Some True, of ?k ?l ?q] i R j F(5)
        by (auto simp add: qmark_del_hash_def marktbl_hash_get_spec Let_def mark_unshared_spec last_conn_def
          set_rule_spec free_mark_put released_def)
      with W True Some show ?thesis by (intro exI[of _ "quiet False ?k ?l ?q
          (if unshared (the_rules ?W ! unat (n_id n - 1)) then released a n j s else ?W)"]) (auto simp: flight_inv_def a)
    qed
  qed
qed

lemma ct_marked_flight:
  assumes inv: "flight_inv F s"
  shows "\<exists>t. ct_marked ip s = Inr ((), t) \<and> flight_inv F t \<and> next_addr t = next_addr s \<and>
    node_heap t = (case table s ip of None \<Rightarrow> node_heap s | Some n \<Rightarrow> (node_heap s)(the (lookup s ip) \<mapsto> counted 1 n)) \<and>
    view t = recount ip 1 (view s)"
proof -
  note S = flight_invD(1)[OF inv] and L = shapeD(4)[OF S]
  show ?thesis
  proof (cases "table s ip")
    case None
    then have "ct_marked ip s = Inr ((), s)"
      using table_None_iff[OF shapeD(2)[OF S]] L shapeD(2)[OF S] by (simp add: ct_marked_def marktbl_hash_get_spec)
    with None inv show ?thesis by (simp add: recount_def)
  next
    case (Some n)
    obtain a where a: "lookup s ip = Some a" "node_heap s a = Some n" using lookup_node[OF S Some] .
    let ?p = "put_node a (counted 1 n) s"
    have "ct_marked ip s = Inr ((), ?p)"
      using a L shapeD(2)[OF S] by (simp add: ct_marked_def marktbl_hash_get_spec)
    moreover have "view ?p = recount ip 1 (view s)"
      using view_put_node[OF S a(2), of "counted 1 n"] Some flight_node(1)[OF inv Some] by (simp add: recount_def counted_def)
    moreover have "shape ?p" by (rule shape_put_node[OF S a(2)]) simp
    ultimately show ?thesis
      using flight_recount[OF inv] a Some by (simp add: put_node_fields)
  qed
qed

text \<open>Which connections the handler looks at.\<close>

definition ct_relevant :: "kst \<Rightarrow> nf_conn \<Rightarrow> bool" where
  "ct_relevant s ct \<longleftrightarrow> nf_ct_l3num ct = AF_INET (env s) \<and> \<not> nf_ct_is_untracked ct \<and> ct_mark ct AND 0xfff800 \<noteq> 0"

definition ct_transition :: "kst \<Rightarrow> u32 \<Rightarrow> nf_conn option \<Rightarrow> qview \<Rightarrow> qview" where
  "ct_transition s events oct v = (case oct of None \<Rightarrow> v | Some ct \<Rightarrow>
     if \<not> ct_relevant s ct then v
     else if event_bit events (IPCT_DESTROY (env s)) then
       (case v_table v (ct_ip_addr ct) of None \<Rightarrow> v
        | Some n \<Rightarrow> if last_conn n then leave (ct_ip_addr ct) v else recount (ct_ip_addr ct) (- 1) v)
     else if event_bit events (IPCT_MARK (env s)) then recount (ct_ip_addr ct) 1 v
     else v)"

definition ct_heap :: "kst \<Rightarrow> u32 \<Rightarrow> nf_conn option \<Rightarrow> addr \<Rightarrow> marktbl_node option" where
  "ct_heap s events oct = (case oct of None \<Rightarrow> node_heap s | Some ct \<Rightarrow>
     if \<not> ct_relevant s ct then node_heap s
     else (case table s (ct_ip_addr ct) of None \<Rightarrow> node_heap s
       | Some n \<Rightarrow>
           if event_bit events (IPCT_DESTROY (env s)) then
             (node_heap s)(the (lookup s (ct_ip_addr ct)) := (if last_conn n then None else Some (counted (- 1) n)))
           else if event_bit events (IPCT_MARK (env s)) then (node_heap s)(the (lookup s (ct_ip_addr ct)) \<mapsto> counted 1 n)
           else node_heap s))"

lemma qmark_conntrack_event_flight:
  assumes inv: "flight_inv F s"
  shows "\<exists>t. qmark_conntrack_event events oct s = Inr ((), t) \<and> flight_inv F t \<and> next_addr t = next_addr s \<and>
    node_heap t = ct_heap s events oct \<and> view t = ct_transition s events oct (view s)"
proof (cases oct)
  case None
  then show ?thesis using inv by (simp add: qmark_conntrack_event_def ct_transition_def ct_heap_def)
next
  case (Some ct)
  show ?thesis
  proof (cases "ct_relevant s ct")
    case False
    then have "qmark_conntrack_event events oct s = Inr ((), s)"
      using Some by (auto simp: qmark_conntrack_event_def ct_relevant_def)
    then show ?thesis using inv False Some by (simp add: ct_transition_def ct_heap_def)
  next
    case True
    then have "qmark_conntrack_event events oct s =
        (if event_bit events (IPCT_DESTROY (env s)) then ct_destroy (ct_ip_addr ct) s
         else if event_bit events (IPCT_MARK (env s)) then ct_marked (ct_ip_addr ct) s else Inr ((), s))"
      using Some by (simp add: qmark_conntrack_event_def ct_relevant_def)
    then show ?thesis
      using ct_destroy_flight[OF inv, of "ct_ip_addr ct"] ct_marked_flight[OF inv, of "ct_ip_addr ct"] inv True Some
      by (cases "table s (ct_ip_addr ct)") (auto simp: ct_transition_def ct_heap_def)
  qed
qed

text \<open>With no mark in flight these are the facts of the invariant.\<close>

lemmas view_node = flight_node[of "{}", folded qos_inv_flight]
lemmas mark_slot = flight_slot[of "{}", folded qos_inv_flight]

lemma qmark_del_hash_cases:
  assumes inv: "qos_inv s"
  shows "\<exists>t. qos_inv t \<and> (case table s ip of
      None \<Rightarrow> qmark_del_hash ip m0 s = Inr ((ERROR, m0), t) \<and> view t = view s
    | Some n \<Rightarrow> if last_conn n then qmark_del_hash ip m0 s = Inr ((OK, n_mark n), t) \<and> view t = leave ip (view s)
        else qmark_del_hash ip m0 s = Inr ((ERROR, m0), t) \<and> view t = recount ip (- 1) (view s))"
  using qmark_del_hash_flight[of "{}" s ip m0] inv unfolding qos_inv_flight by blast

lemma qmark_conntrack_event_cases:
  assumes inv: "qos_inv s"
  shows "\<exists>t. qmark_conntrack_event events oct s = Inr ((), t) \<and> qos_inv t \<and> view t = ct_transition s events oct (view s)"
  using qmark_conntrack_event_flight[of "{}" s] inv by (auto simp: qos_inv_flight)

text \<open>Reading and configuring.\<close>

lemma qmark_find_hash_spec:
  assumes "qos_inv s"
  shows "qmark_find_hash ip s = Inr (case table s ip of None \<Rightarrow> (NO_EXIST, 0) | Some n \<Rightarrow> (OK, n_mark n), s)"
  using qos_marktbl_hashtbl_get_spec[OF shapeD(2)] qos_invD[OF assms] by (simp add: qmark_find_hash_def split: option.split)

lemma mark_nonzero:
  assumes "qos_inv s" "table s ip = Some n"
  shows "n_mark n \<noteq> 0"
proof -
  obtain j where "j < unat (max_ip_cnt s)" "n_mark n = mark_of j" using mark_slot[OF assms] .
  then show ?thesis using mark_of_slot[OF shapeD(1)[OF conjunct1[OF qos_invD[OF assms(1)]]]] by simp
qed

lemma qmark_add_rule_cases:
  assumes inv: "qos_inv s" and i: "unat (rid - 1) < length (the_rules s)"
    and idle: "r_count (the_rules s ! unat (rid - 1)) = 0"
    and ok: "\<And>r. rule_rates_ok (rule_settings mode devid rate rm rmin rmm r)"
  shows "\<exists>t. qmark_add_rule rid mode devid rate rm rmin rmm s = Inr ((), t) \<and> qos_inv t \<and>
    view t = configure rid (rule_settings mode devid rate rm rmin rmm) (view s)"
proof -
  note S = qos_invD[OF inv, THEN conjunct1]
  let ?f = "rule_settings mode devid rate rm rmin rmm"
  have "shape (map_rule (rid - 1) ?f s)" by (rule shape_map_rule[OF S ok])
  moreover have "view_ok (configure rid ?f (view s))"
    using qos_invD[OF inv] i idle by (intro configure_ok) (simp_all add: rule_settings_def)
  ultimately show ?thesis
    using qmark_add_rule_spec[OF shapeD(3,4)[OF S]] i by (simp add: qos_inv_def configure_def)
qed

lemma zero_rule_rates: "rule_rates_ok zero_rule"
  by (simp add: rule_rates_ok_def rate_ok_def tc_rate_def zero_rule_def)

lemma qmark_del_rule_cases:
  assumes inv: "qos_inv s" and i: "unat (rid - 1) < length (the_rules s)"
    and idle: "r_count (the_rules s ! unat (rid - 1)) = 0"
  shows "\<exists>t. qmark_del_rule rid s = Inr ((), t) \<and> qos_inv t \<and> view t = configure rid (\<lambda>_. zero_rule) (view s)"
proof -
  note S = qos_invD[OF inv, THEN conjunct1]
  have "shape (map_rule (rid - 1) (\<lambda>_. zero_rule) s)" by (rule shape_map_rule[OF S zero_rule_rates])
  moreover have "view_ok (configure rid (\<lambda>_. zero_rule) (view s))"
    using qos_invD[OF inv] i idle by (intro configure_ok) (simp_all add: zero_rule_def)
  ultimately show ?thesis
    using qmark_del_rule_spec[OF shapeD(3,4)[OF S]] i by (simp add: qos_inv_def configure_def)
qed

end
