(* ===== verification/Xt_Qmark.thy ===== *)
theory Xt_Qmark
  imports Qmark_Leave
begin

text \<open>
  The iptables target of \<open>xt_kmod/xt_qmark.c\<close>: it marks a packet with the mark of its source or
  destination address, and has the mark table admit the address when it is not there yet.
\<close>

section \<open>Definitions\<close>

record iphdr =
  saddr :: u32
  daddr :: u32

text \<open>What the target reads and writes of a packet: its network header, if it has one, and its mark.\<close>

record sk_buff =
  ip_hdr :: "iphdr option"
  skb_mark :: u32

record xt_qmark_tginfo =
  tg_mask :: u32
  tg_id :: u32
  tg_dir :: u32

text \<open>The struct's layout, which the kernel and iptables each declare.\<close>

definition tginfo_t :: cstruct where
  "tginfo_t = [(''mask'', U32), (''id'', U32), (''dir'', U32)]"

datatype nfproto = NFPROTO_UNSPEC

definition set_mark :: "u32 \<Rightarrow> u32 \<Rightarrow> u32 \<Rightarrow> u32" where
  "set_mark old msk mark = (old AND NOT msk) XOR mark"

text \<open>The address of a packet: its source or its destination, by the target's direction.\<close>

definition packet_ip :: "iphdr \<Rightarrow> xt_qmark_tginfo \<Rightarrow> u32" where
  "packet_ip iph info = (if tg_dir info = 0 then saddr iph else daddr iph)"

definition qmark_handle :: "sk_buff \<Rightarrow> iphdr \<Rightarrow> xt_qmark_tginfo \<Rightarrow> sk_buff kop" where
  "qmark_handle skb iph info =
    bindM (qmark_find_hash (packet_ip iph info)) (\<lambda>(_, mark).
     if mark = 0 then
       bindM (qmark_alloc_mark_auto (packet_ip iph info) (tg_id info) mark) (\<lambda>(e, mark).
       if e \<noteq> 0 then ret skb
       else ret (skb\<lparr>skb_mark := set_mark (skb_mark skb) (tg_mask info) mark\<rparr>))
     else ret (skb\<lparr>skb_mark := set_mark (skb_mark skb) (tg_mask info) mark\<rparr>))"

definition XT_CONTINUE :: u32 where "XT_CONTINUE = 0xFFFFFFFF"

text \<open>A NULL packet is reported and then read all the same.\<close>

definition qmark_tg :: "sk_buff option \<Rightarrow> xt_qmark_tginfo \<Rightarrow> (u32 \<times> sk_buff) kop" where
  "qmark_tg oskb info =
    thenM (whenM (oskb = None) (printk ''qmark_target: skb is null'' [])) (
    case oskb of
      None \<Rightarrow> fail NullDeref
    | Some skb \<Rightarrow>
        (case ip_hdr skb of
           None \<Rightarrow> ret (XT_CONTINUE, skb)
         | Some iph \<Rightarrow> bindM (qmark_handle skb iph info) (\<lambda>skb. ret (XT_CONTINUE, skb))))"

section \<open>What a packet gets\<close>

definition marked :: "sk_buff \<Rightarrow> xt_qmark_tginfo \<Rightarrow> u32 \<Rightarrow> sk_buff" where
  "marked skb info m = skb\<lparr>skb_mark := set_mark (skb_mark skb) (tg_mask info) m\<rparr>"

text \<open>
  A packet of a known address gets the address's mark and changes nothing; the first packet of an
  address gets the mark the address is admitted with, or passes unmarked.
\<close>

lemma qmark_tg_known:
  assumes "qos_inv s" "ip_hdr skb = Some iph" "table s (packet_ip iph info) = Some n"
  shows "qmark_tg (Some skb) info s = Inr ((XT_CONTINUE, marked skb info (n_mark n)), s)"
  using qmark_find_hash_spec[OF assms(1), of "packet_ip iph info"] mark_nonzero[OF assms(1,3)] assms(2,3)
  by (simp add: qmark_tg_def qmark_handle_def marked_def)

lemma qmark_tg_first:
  assumes inv: "qos_inv s" and hdr: "ip_hdr skb = Some iph" and new: "table s (packet_ip iph info) = None"
    and i: "unat (tg_id info - 1) < length (the_rules s)"
  shows "\<exists>t. qos_inv t \<and> (if admissible (tg_id info) s
    then qmark_tg (Some skb) info s = Inr ((XT_CONTINUE, marked skb info (granted_mark (tg_id info) s)), t) \<and>
      view t = admit (packet_ip iph info) (tg_id info) s
    else qmark_tg (Some skb) info s = Inr ((XT_CONTINUE, skb), t) \<and>
      (view t = view s \<or> unshared (the_rules s ! unat (tg_id info - 1)) \<and>
       view t = configure (tg_id info) (\<lambda>r. r\<lparr>r_mark := 0\<rparr>) (view s)))"
proof -
  have find: "qmark_find_hash (packet_ip iph info) s = Inr ((NO_EXIST, 0), s)"
    using qmark_find_hash_spec[OF inv, of "packet_ip iph info"] new by simp
  obtain t where t: "qos_inv t" "if admissible (tg_id info) s
    then qmark_alloc_mark_auto (packet_ip iph info) (tg_id info) 0 s = Inr ((OK, granted_mark (tg_id info) s), t) \<and>
      view t = admit (packet_ip iph info) (tg_id info) s
    else (\<exists>m. qmark_alloc_mark_auto (packet_ip iph info) (tg_id info) 0 s = Inr ((ERROR, m), t)) \<and>
      (view t = view s \<or> unshared (the_rules s ! unat (tg_id info - 1)) \<and>
       view t = configure (tg_id info) (\<lambda>r. r\<lparr>r_mark := 0\<rparr>) (view s))"
    using alloc_mark_auto_cases[OF inv i new] by blast
  then show ?thesis
    using find hdr by (intro exI[of _ t])
      (auto simp: qmark_tg_def qmark_handle_def marked_def split: if_splits)
qed

text \<open>
  The mark a packet carries, bit by bit: under the mask it is the mark, beside it the packet's old mark, changed
  where the mark has bits there.
\<close>

lemma bit_set_mark: "bit (set_mark old msk mark) i \<longleftrightarrow> (if bit msk i then bit mark i else bit old i \<noteq> bit mark i)"
  by (auto simp: set_mark_def bit_and_iff bit_xor_iff bit_not_iff dest: bit_imp_le_length)

text \<open>The bits outside the mask stay, those inside become the mark.\<close>

lemma set_mark_bits:
  assumes "mark AND NOT msk = 0"
  shows "set_mark old msk mark AND msk = mark" "set_mark old msk mark AND NOT msk = old AND NOT msk"
proof -
  have b: "bit mark i \<Longrightarrow> bit msk i" for i
  proof (rule ccontr)
    assume "bit mark i" "\<not> bit msk i"
    then have "bit (mark AND NOT msk) i" by (auto simp: bit_and_iff bit_not_iff dest: bit_imp_le_length)
    with assms show False by simp
  qed
  show "set_mark old msk mark AND msk = mark" "set_mark old msk mark AND NOT msk = old AND NOT msk"
    using b by (auto simp: set_mark_def bit_eq_iff bit_and_iff bit_xor_iff bit_not_iff)
qed

text \<open>Marks of tables with at most 8191 addresses lie in the mask \<open>0xfff800\<close> the module uses.\<close>

lemma mark_in_mask:
  assumes "i < 8191"
  shows "mark_of i AND NOT 0xfff800 = 0" "mark_of i AND 0xfff800 \<noteq> 0"
proof -
  have m: "mark_of i = push_bit 11 (of_nat (Suc i))" by (simp add: mark_of_def add.commute)
  have lt: "bit (of_nat (Suc i) :: u32) j \<Longrightarrow> j < 13" for j
  proof (rule ccontr)
    assume b: "bit (of_nat (Suc i) :: u32) j" "\<not> j < 13"
    have "Suc i < 2 ^ j" using assms power_increasing[of 13 j "2::nat"] b(2) by simp
    then have "\<not> bit (Suc i) j" by (simp add: bit_iff_odd)
    moreover have "unat (of_nat (Suc i) :: u32) = Suc i" using assms by (intro unat_of_nat_u32) simp
    then have "bit (Suc i) j" using b(1) by (metis bit_unsigned_iff bit_imp_le_length possible_bit_nat)
    ultimately show False by simp
  qed
  have mask: "(0xfff800 :: u32) = push_bit 11 (mask 13)" by (simp add: mask_eq_exp_minus_1)
  show z: "mark_of i AND NOT 0xfff800 = 0"
    unfolding m mask by (rule bit_word_eqI) (auto simp: bit_and_iff bit_not_iff bit_push_bit_iff bit_mask_iff dest: lt[unfolded of_nat_Suc])
  show "mark_of i AND 0xfff800 \<noteq> 0"
  proof
    assume a: "mark_of i AND 0xfff800 = 0"
    have "w = (w AND k) OR (w AND NOT k)" for w k :: u32
      by (rule bit_word_eqI) (auto simp: bit_and_iff bit_or_iff bit_not_iff)
    from this[of "mark_of i" "0xfff800"] a z have "mark_of i = 0" by simp
    with mark_of_nonzero[of i] assms show False by simp
  qed
qed

end
