(* ===== verification/Module_Init.thy ===== *)
theory Module_Init
  imports Qmark_Leave
begin

text \<open>
  Loading and unloading the module: \<open>qos_marktbl_init\<close> and \<open>qos_marktbl_exit\<close> of
  \<open>kmod/qos_marktbl_main.c\<close> with the netlink socket of \<open>kmod/qos_marktbl_tc.c\<close> and the character
  device of \<open>kmod/qos_marktbl_ioctl.c\<close>. A call of the kernel that can fail is a question to the
  environment (\<open>kcall_ret\<close>); what the kernel then holds for the module is the set \<open>held\<close>.
\<close>

section \<open>Calls of the kernel\<close>

definition kcall :: "string \<Rightarrow> int kop" where
  "kcall f = bindM (gets (\<lambda>s. kcall_ret (env s) (env_time s) f)) (\<lambda>r. thenM tick (ret r))"

definition set_regs :: "(kreg \<Rightarrow> kreg) \<Rightarrow> unit kop" where
  "set_regs f = modify (\<lambda>s. s\<lparr>kregs := f (kregs s)\<rparr>)"

definition hold :: "resource \<Rightarrow> unit kop" where
  "hold r = set_regs (\<lambda>k. k\<lparr>held := insert r (held k)\<rparr>)"

text \<open>Giving back what is not held changes nothing; double releases are not told apart.\<close>

definition put_back :: "resource \<Rightarrow> unit kop" where
  "put_back r = set_regs (\<lambda>k. k\<lparr>held := held k - {r}\<rparr>)"

section \<open>The netlink socket\<close>

definition qmark_tc_sock_exit :: "unit kop" where
  "qmark_tc_sock_exit =
    bindM (gets (\<lambda>s. qmark_sock (kregs s))) (\<lambda>p.
    whenM p (thenM (put_back SocketR) (set_regs (\<lambda>k. k\<lparr>qmark_sock := False\<rparr>))))"

text \<open>
  The steps after the creation each print and leave through \<open>sock_exit\<close> when they fail; the last two
  compare what \<open>kernel_getsockname\<close> answered with what is expected.
\<close>

definition sock_steps :: "(string \<times> string) list" where
  "sock_steps =
    [(''kernel_setsockopt SO_SNDBUF'', ''qmark_tc_err: kernel_setsockopt sndbuf error''),
     (''kernel_setsockopt SO_RCVBUF'', ''qmark_tc_err: kernel_setsockopt rcvbuf error''),
     (''kernel_bind'', ''qmark_tc_err: kernel_bind error''),
     (''kernel_getsockname'', ''qmark_tc_err: kernel_getsockname error'')]"

definition sock_fail :: "string \<Rightarrow> u32 list \<Rightarrow> int kop" where
  "sock_fail msg args = thenM (printk msg args) (thenM qmark_tc_sock_exit (ret ERROR))"

primrec run_sock_steps :: "(string \<times> string) list \<Rightarrow> int kop \<Rightarrow> int kop" where
  "run_sock_steps [] k = k"
| "run_sock_steps (x # xs) k =
    bindM (kcall (fst x)) (\<lambda>r. if r < 0 then sock_fail (snd x) [] else run_sock_steps xs k)"

definition sizeof_sockaddr_nl :: int where "sizeof_sockaddr_nl = 12"
definition AF_NETLINK :: int where "AF_NETLINK = 16"

definition qmark_tc_sock_init :: "int kop" where
  "qmark_tc_sock_init =
    bindM (kcall ''sock_create_kern'') (\<lambda>r.
    if r < 0 then sock_fail ''qmark_tc_err: sock_create_kern error'' []
    else
      thenM (hold SocketR) (
      thenM (set_regs (\<lambda>k. k\<lparr>qmark_sock := True\<rparr>)) (
      run_sock_steps sock_steps (
      bindM (kcall ''addr_len'') (\<lambda>len.
      if len \<noteq> sizeof_sockaddr_nl then sock_fail ''qmark_tc_err: wrong address length %d'' [of_int len]
      else bindM (kcall ''nl_family'') (\<lambda>fam.
      if fam \<noteq> AF_NETLINK then sock_fail ''qmark_tc_err: wrong address family %d'' [of_int fam]
      else ret OK))))))"

section \<open>The character device\<close>

text \<open>The labels of \<open>qmark_dev_init\<close>, each falling through to the next.\<close>

definition alloc_chrdev_err :: "int kop" where
  "alloc_chrdev_err = thenM (printk ''qmark dev init failed'' []) (ret ERROR)"

definition alloc_cdev_err :: "int kop" where
  "alloc_cdev_err = thenM (put_back ChrdevR) alloc_chrdev_err"

definition add_cdev_err :: "int kop" where
  "add_cdev_err = thenM (put_back CdevR) alloc_cdev_err"

definition create_device_err :: "int kop" where
  "create_device_err = thenM (put_back ClassR) add_cdev_err"

text \<open>
  \<open>cdev_alloc\<close> and \<open>device_create\<close> answer with a pointer: here 1 is a valid one, 0 is NULL and a
  negative number an error pointer, which \<open>device_create\<close> is not tested for. A major number is
  positive, and answered by the first call.
\<close>

definition qmark_dev_init :: "int kop" where
  "qmark_dev_init =
    bindM (gets (\<lambda>s. qmark_cdev_major (kregs s))) (\<lambda>major.
    bindM (if major \<noteq> 0 then kcall ''register_chrdev_region''
           else bindM (kcall ''alloc_chrdev_region'') (\<lambda>r.
             bindM (kcall ''MAJOR'') (\<lambda>m.
             thenM (set_regs (\<lambda>k. k\<lparr>qmark_cdev_major := (if r < 0 then 0 else of_int m)\<rparr>)) (ret r)))) (\<lambda>r.
    if r < 0 then alloc_chrdev_err else
    thenM (hold ChrdevR) (
    bindM (kcall ''cdev_alloc'') (\<lambda>p.
    thenM (set_regs (\<lambda>k. k\<lparr>qmark_cdev := (p \<noteq> 0)\<rparr>)) (
    if p = 0 then alloc_cdev_err else
    thenM (hold CdevR) (
    bindM (kcall ''cdev_add'') (\<lambda>r.
    if r < 0 then add_cdev_err else
    bindM (kcall ''class_create'') (\<lambda>c.
    thenM (set_regs (\<lambda>k. k\<lparr>qmark_class := (if c < 0 then ClassErr else ClassPtr)\<rparr>)) (
    if c < 0 then add_cdev_err else
    thenM (hold ClassR) (
    bindM (kcall ''device_create'') (\<lambda>d.
    if d = 0 then create_device_err else
    thenM (whenM (0 < d) (hold DeviceR)) (ret OK))))))))))))"

definition qmark_dev_exit :: "unit kop" where
  "qmark_dev_exit =
    bindM (gets (\<lambda>s. qmark_class (kregs s))) (\<lambda>c.
    thenM (whenM (c \<noteq> ClassNull) (
      thenM (put_back DeviceR) (
      thenM (put_back ClassR)
      (set_regs (\<lambda>k. k\<lparr>qmark_class := ClassNull\<rparr>))))) (
    bindM (gets (\<lambda>s. qmark_cdev (kregs s))) (\<lambda>p.
    whenM p (
      thenM (put_back CdevR) (
      thenM (put_back ChrdevR)
      (set_regs (\<lambda>k. k\<lparr>qmark_cdev := False, qmark_cdev_major := 0\<rparr>)))))))"

section \<open>The module\<close>

text \<open>The labels of \<open>qos_marktbl_init\<close>.\<close>

definition sock_exit_l :: "int \<Rightarrow> int kop" where
  "sock_exit_l r = thenM mark_bitmap_exit (ret r)"

definition dev_exit_l :: "int \<Rightarrow> int kop" where
  "dev_exit_l r = thenM qmark_tc_sock_exit (sock_exit_l r)"

definition ruletbl_exit_l :: "int \<Rightarrow> int kop" where
  "ruletbl_exit_l r = thenM qmark_dev_exit (dev_exit_l r)"

definition marktbl_exit_l :: "int \<Rightarrow> int kop" where
  "marktbl_exit_l r = thenM qos_ruletbl_exit (ruletbl_exit_l r)"

definition ctnotifier_exit_l :: "int \<Rightarrow> int kop" where
  "ctnotifier_exit_l r = thenM qos_marktbl_hashtbl_exit (marktbl_exit_l r)"

definition qos_marktbl_init :: "int kop" where
  "qos_marktbl_init =
    thenM (modify (\<lambda>s. s\<lparr>qmark_op_lock := False\<rparr>)) (
    bindM (bindM (gets max_ip_cnt) mark_bitmap_init) (\<lambda>r.
    if r < 0 then ret r else
    bindM qmark_tc_sock_init (\<lambda>r.
    if r < 0 then sock_exit_l r else
    bindM qmark_dev_init (\<lambda>r.
    if r < 0 then dev_exit_l r else
    bindM qos_ruletbl_init (\<lambda>r.
    if r < 0 then ruletbl_exit_l r else
    bindM qos_marktbl_hashtbl_init (\<lambda>r.
    if r < 0 then marktbl_exit_l r else
    bindM (kcall ''nf_conntrack_register_notifier'') (\<lambda>r.
    if r < 0 then
      thenM (printk ''Can't register nf notifier hook for qos marktable, ret=[%d].'' [of_int r]) (ctnotifier_exit_l r)
    else thenM (hold NotifierR) (ret r))))))))"

definition qos_marktbl_exit :: "unit kop" where
  "qos_marktbl_exit =
    thenM (put_back NotifierR) (
    thenM qos_marktbl_hashtbl_exit (
    thenM qos_ruletbl_exit (
    thenM qmark_dev_exit (
    thenM qmark_tc_sock_exit
    mark_bitmap_exit))))"

section \<open>Registration, one call at a time\<close>

text \<open>
  \<open>runs m g Q\<close>: from registrations \<open>g\<close> the call returns, changes nothing but its clock, the log and
  the registrations, and the result and the registrations satisfy \<open>Q\<close>.
\<close>

definition runs :: "'a kop \<Rightarrow> kreg \<Rightarrow> ('a \<Rightarrow> kreg \<Rightarrow> bool) \<Rightarrow> bool" where
  "runs m g Q \<longleftrightarrow> (\<forall>s. kregs s = g \<longrightarrow>
     (\<exists>x k l g'. m s = Inr (x, s\<lparr>env_time := k, klog := l, kregs := g'\<rparr>) \<and> Q x g'))"

lemma runsI:
  "(\<And>s. kregs s = g \<Longrightarrow> \<exists>x k l g'. m s = Inr (x, s\<lparr>env_time := k, klog := l, kregs := g'\<rparr>) \<and> Q x g') \<Longrightarrow> runs m g Q"
  by (simp add: runs_def)

lemma runs_same:
  assumes "\<And>s. kregs s = g \<Longrightarrow> \<exists>x. m s = Inr (x, s) \<and> Q x g"
  shows "runs m g Q"
proof (rule runsI)
  fix s :: kst
  assume "kregs s = g"
  with assms obtain x where "m s = Inr (x, s)" "Q x g" by blast
  moreover have "s = s\<lparr>env_time := env_time s, klog := klog s, kregs := g\<rparr>" using \<open>kregs s = g\<close> by (cases s) simp
  ultimately show "\<exists>x k l g'. m s = Inr (x, s\<lparr>env_time := k, klog := l, kregs := g'\<rparr>) \<and> Q x g'" by metis
qed

lemma runs_ret: "Q x g \<Longrightarrow> runs (ret x) g Q"
  by (rule runs_same) simp

lemma runs_bind:
  assumes "runs m g (\<lambda>x g'. runs (f x) g' Q)"
  shows "runs (bindM m f) g Q"
proof (rule runsI)
  fix s :: kst
  assume "kregs s = g"
  with assms obtain x k l g' where m: "m s = Inr (x, s\<lparr>env_time := k, klog := l, kregs := g'\<rparr>)" "runs (f x) g' Q"
    unfolding runs_def by blast
  let ?t = "s\<lparr>env_time := k, klog := l, kregs := g'\<rparr>"
  have "kregs ?t = g'" by simp
  with m(2) obtain y k' l' h where f: "f x ?t = Inr (y, ?t\<lparr>env_time := k', klog := l', kregs := h\<rparr>)" "Q y h"
    unfolding runs_def by blast
  have "?t\<lparr>env_time := k', klog := l', kregs := h\<rparr> = s\<lparr>env_time := k', klog := l', kregs := h\<rparr>" by (simp add: kst_sort)
  with m f show "\<exists>x k l g'. bindM m f s = Inr (x, s\<lparr>env_time := k, klog := l, kregs := g'\<rparr>) \<and> Q x g'"
    by (metis bindM_Inr)
qed

lemma runs_then: "runs m g (\<lambda>_ g'. runs n g' Q) \<Longrightarrow> runs (thenM m n) g Q"
  unfolding thenM_def by (rule runs_bind)

lemma runs_when: "(b \<Longrightarrow> runs m g Q) \<Longrightarrow> (\<not> b \<Longrightarrow> Q () g) \<Longrightarrow> runs (whenM b m) g Q"
  by (cases b) (simp_all add: runs_ret)

lemma runs_if: "(b \<Longrightarrow> runs m g Q) \<Longrightarrow> (\<not> b \<Longrightarrow> runs n g Q) \<Longrightarrow> runs (if b then m else n) g Q"
  by simp

lemma runs_gets: "Q (f g) g \<Longrightarrow> runs (gets (\<lambda>s. f (kregs s))) g Q"
  by (rule runs_same) simp

lemma runs_kcall: "(\<And>r. Q r g) \<Longrightarrow> runs (kcall f) g Q"
  by (rule runsI, intro exI conjI) (auto simp: kcall_def quiet_def intro!: kst.equality)

lemma runs_set_regs: "Q () (f g) \<Longrightarrow> runs (set_regs f) g Q"
  by (rule runsI, intro exI conjI) (auto simp: set_regs_def intro!: kst.equality)

lemma runs_printk: "Q () g \<Longrightarrow> runs (printk f as) g Q"
  by (rule runsI, intro exI conjI) (auto simp: quiet_def intro!: kst.equality)

lemma runs_weaken: "runs m g Q \<Longrightarrow> (\<And>x g'. Q x g' \<Longrightarrow> Q' x g') \<Longrightarrow> runs m g Q'"
  unfolding runs_def by blast

lemmas runs_rules = runs_ret runs_bind runs_then runs_when runs_if runs_kcall runs_printk runs_set_regs

lemma runs_hold: "Q () (g\<lparr>held := insert r (held g)\<rparr>) \<Longrightarrow> runs (hold r) g Q"
  unfolding hold_def by (rule runs_set_regs)

lemma runs_put_back: "Q () (g\<lparr>held := held g - {r}\<rparr>) \<Longrightarrow> runs (put_back r) g Q"
  unfolding put_back_def by (rule runs_set_regs)

text \<open>The socket: created and kept, or not held at all.\<close>

lemma runs_sock_exit:
  "Q () (if qmark_sock g then g\<lparr>held := held g - {SocketR}, qmark_sock := False\<rparr> else g) \<Longrightarrow> runs qmark_tc_sock_exit g Q"
  unfolding qmark_tc_sock_exit_def by (intro runs_bind runs_gets runs_when runs_then runs_put_back runs_set_regs) auto

lemma runs_sock_fail:
  "Q ERROR (if qmark_sock g then g\<lparr>held := held g - {SocketR}, qmark_sock := False\<rparr> else g) \<Longrightarrow> runs (sock_fail m as) g Q"
  unfolding sock_fail_def by (intro runs_then runs_printk runs_sock_exit runs_ret)

lemma runs_sock_steps:
  "runs k g Q \<Longrightarrow> Q ERROR (if qmark_sock g then g\<lparr>held := held g - {SocketR}, qmark_sock := False\<rparr> else g) \<Longrightarrow>
   runs (run_sock_steps xs k) g Q"
  by (induction xs) (auto intro!: runs_bind runs_kcall runs_if runs_sock_fail)

lemma runs_sock_init:
  assumes "\<not> qmark_sock g" "SocketR \<notin> held g"
  shows "runs qmark_tc_sock_init g (\<lambda>r g'. if r < 0 then g' = g
    else g' = g\<lparr>held := insert SocketR (held g), qmark_sock := True\<rparr>)"
  unfolding qmark_tc_sock_init_def
  using assms by (auto intro!: runs_bind runs_kcall runs_if runs_sock_fail runs_then runs_hold runs_set_regs
    runs_sock_steps runs_ret)

text \<open>The device: after a success all of it is held except, when its creation failed, the device node.\<close>

definition dev_live :: "kreg \<Rightarrow> bool" where
  "dev_live g \<longleftrightarrow> qmark_cdev g \<and> qmark_class g = ClassPtr"

lemma runs_dev_init:
  assumes "qmark_cdev_major g = 0" "held g \<inter> {ChrdevR, CdevR, ClassR, DeviceR} = {}"
  shows "runs qmark_dev_init g (\<lambda>r g'. qmark_sock g' = qmark_sock g \<and>
    (if r < 0 then held g' = held g
     else dev_live g' \<and> held g \<union> {ChrdevR, CdevR, ClassR} \<subseteq> held g' \<and> held g' \<subseteq> held g \<union> {ChrdevR, CdevR, ClassR, DeviceR}))"
  unfolding qmark_dev_init_def alloc_chrdev_err_def alloc_cdev_err_def add_cdev_err_def create_device_err_def
  using assms by (intro runs_rules runs_gets runs_hold runs_put_back) (auto simp: dev_live_def)

lemma runs_dev_exit:
  assumes "dev_live g" and "\<And>g'. qmark_sock g' = qmark_sock g \<Longrightarrow> held g' = held g - {ChrdevR, CdevR, ClassR, DeviceR} \<Longrightarrow> Q () g'"
  shows "runs qmark_dev_exit g Q"
  unfolding qmark_dev_exit_def
  using assms by (intro runs_rules runs_gets runs_put_back) (auto simp: dev_live_def intro!: assms(2))

section \<open>Loading is all or nothing\<close>

definition leads :: "'a kop \<Rightarrow> kst \<Rightarrow> ('a \<Rightarrow> kst \<Rightarrow> bool) \<Rightarrow> bool" where
  "leads m s Q \<longleftrightarrow> (\<exists>x t. m s = Inr (x, t) \<and> Q x t)"

lemma leads_bind: "leads m s (\<lambda>x t. leads (f x) t Q) \<Longrightarrow> leads (bindM m f) s Q"
  by (auto simp: leads_def)

lemma leads_then: "leads m s (\<lambda>_ t. leads n t Q) \<Longrightarrow> leads (thenM m n) s Q"
  unfolding thenM_def by (rule leads_bind)

lemma leads_eq: "m s = Inr (x, t) \<Longrightarrow> Q x t \<Longrightarrow> leads m s Q"
  by (auto simp: leads_def)

lemma leads_bind_eq: "m s = Inr (x, t) \<Longrightarrow> leads (bindM m f) s Q = leads (f x) t Q"
  by (simp add: leads_def)

lemma leads_then_eq: "m s = Inr (x, t) \<Longrightarrow> leads (thenM m n) s Q = leads n t Q"
  by (simp add: leads_def)

lemma leads_weaken: "leads m s Q \<Longrightarrow> (\<And>x t. Q x t \<Longrightarrow> R x t) \<Longrightarrow> leads m s R"
  by (auto simp: leads_def)

text \<open>\<open>with_regs s g\<close>: the states that differ from \<open>s\<close> in the clock, the log and the registrations \<open>g\<close>.\<close>

definition with_regs :: "kst \<Rightarrow> kreg \<Rightarrow> kst \<Rightarrow> bool" where
  "with_regs s g t \<longleftrightarrow> (\<exists>k l. t = s\<lparr>env_time := k, klog := l, kregs := g\<rparr>)"

lemma leads_runs: "runs m (kregs s) Q \<Longrightarrow> (\<And>x g t. Q x g \<Longrightarrow> with_regs s g t \<Longrightarrow> R x t) \<Longrightarrow> leads m s R"
  unfolding runs_def leads_def with_regs_def by metis

lemma with_regs_fields:
  assumes "with_regs s g t"
  shows "kregs t = g" "mark_bitmap t = mark_bitmap s" "g_ruletbl t = g_ruletbl s" "node_heap t = node_heap s"
    "g_marktbl_head t = g_marktbl_head s" "env t = env s" "max_ip_cnt t = max_ip_cnt s" "max_rule_cnt t = max_rule_cnt s"
    "qmark_op_lock t = qmark_op_lock s" "qmark_lan_dev t = qmark_lan_dev s" "qmark_wan_dev t = qmark_wan_dev s"
    "next_addr t = next_addr s" "reset_flag t = reset_flag s"
  using assms by (auto simp: with_regs_def)

text \<open>What the module has before it is loaded, and must have again after a failed attempt.\<close>

definition unloaded :: "kst \<Rightarrow> bool" where
  "unloaded s \<longleftrightarrow> mark_bitmap s = Null \<and> g_ruletbl s = Null \<and> node_heap s = (\<lambda>_. None) \<and> held (kregs s) = {}"

text \<open>The head of the hash table is there: it was neither freed nor given up.\<close>

definition head_live :: "kst \<Rightarrow> bool" where
  "head_live s \<longleftrightarrow> (case g_marktbl_head s of Ptr h \<Rightarrow> True | _ \<Rightarrow> False)"

lemma head_live_simps [simp]: "g_marktbl_head s = Null \<Longrightarrow> \<not> head_live s" "g_marktbl_head s = Dangling \<Longrightarrow> \<not> head_live s"
  by (simp_all add: head_live_def)

lemma head_live_rules [simp]: "head_live (s\<lparr>g_ruletbl := x\<rparr>) = head_live s"
  by (simp add: head_live_def)

lemma with_regs_head: "with_regs s g t \<Longrightarrow> head_live t = head_live s"
  by (simp add: head_live_def with_regs_fields)

definition regs_fresh :: "kreg \<Rightarrow> bool" where
  "regs_fresh g \<longleftrightarrow> \<not> qmark_sock g \<and> qmark_cdev_major g = 0 \<and> \<not> qmark_cdev g \<and> qmark_class g = ClassNull \<and> held g = {}"

text \<open>The specification fits the machine: a word of 32 or 64 bits, and tables whose sizes do not wrap.\<close>

definition spec_fits :: "kenv \<Rightarrow> u32 \<Rightarrow> u32 \<Rightarrow> bool" where
  "spec_fits e ips rules \<longleftrightarrow> (long_bits e = 32 \<or> long_bits e = 64) \<and> 0 < ips \<and> unat ips < 2 ^ 21 \<and> 36 * unat rules < 2 ^ 32"

definition cfg_ok :: "kst \<Rightarrow> bool" where
  "cfg_ok s \<longleftrightarrow> spec_fits (env s) (max_ip_cnt s) (max_rule_cnt s) \<and> tc_ready s"

text \<open>The globals as the C files initialise them, with nothing registered: the state before the first load.\<close>

definition module_start :: "kenv \<Rightarrow> kst" where
  "module_start e = \<lparr>env = e, env_time = 0, g_marktbl_head = Null, g_ruletbl = Null, mark_bitmap = Null,
     reset_flag = False, qmark_op_lock = False, max_ip_cnt = TC_MAX_IP_CNT, max_rule_cnt = MAX_RULE_CNT,
     node_heap = (\<lambda>_. None), next_addr = 0, qmark_lan_dev = ''eth0'' @ replicate 12 (CHR 0x00),
     qmark_wan_dev = ''agl0'' @ replicate 12 (CHR 0x00), klog = [], nl_sent = [],
     kregs = \<lparr>qmark_sock = False, qmark_cdev_major = 0, qmark_cdev = False, qmark_class = ClassNull, held = {}\<rparr>\<rparr>"

definition machine_ok :: "kenv \<Rightarrow> bool" where
  "machine_ok e \<longleftrightarrow> (long_bits e = 32 \<or> long_bits e = 64) \<and> sizeof_tc_htb_opt e \<le> 256 \<and> sizeof_tc_fifo_qopt e \<le> 256"

lemma module_start_ok:
  assumes "machine_ok e"
  shows "unloaded (module_start e)" "regs_fresh (kregs (module_start e))" "cfg_ok (module_start e)" "\<not> head_live (module_start e)"
  using assms by (auto simp: head_live_def unloaded_def regs_fresh_def cfg_ok_def module_start_def tc_ready_def spec_fits_def machine_ok_def)

lemma bitmap_bytes_cover:
  assumes "spec_fits (env s) (max_ip_cnt s) rules"
  shows "unat (max_ip_cnt s) \<le> 8 * bitmap_bytes s (max_ip_cnt s)"
    "8 * bitmap_bytes s (max_ip_cnt s) = BITS_TO_LONGS s (unat (max_ip_cnt s)) * long_bits (env s)"
proof -
  let ?n = "unat (max_ip_cnt s)"
  have n: "?n < 2 ^ 21" using assms by (simp add: spec_fits_def)
  have "long_bits (env s) = 32 \<or> long_bits (env s) = 64" using assms by (simp add: spec_fits_def)
  then show "?n \<le> 8 * bitmap_bytes s (max_ip_cnt s)"
    "8 * bitmap_bytes s (max_ip_cnt s) = BITS_TO_LONGS s ?n * long_bits (env s)"
    using n by (auto simp: bitmap_bytes_def BITS_TO_LONGS_def size_t_def)
qed

lemma mark_bitmap_init_spec:
  "mark_bitmap_init c s =
    (if kmalloc_ok (env s) (env_time s) (bitmap_bytes s c)
     then Inr (OK, s\<lparr>env_time := Suc (env_time s), mark_bitmap := Ptr (replicate (8 * bitmap_bytes s c) False)\<rparr>)
     else Inr (ALLOC_FAIL, s\<lparr>env_time := Suc (env_time s), mark_bitmap := Null\<rparr>))"
  by (simp add: mark_bitmap_init_def quiet_def)

text \<open>The labels of the error path, from the last to the first.\<close>

lemma sock_exit_l_leads:
  assumes "mark_bitmap s = Ptr bm" "g_ruletbl s = Null" "node_heap s = (\<lambda>_. None)" "held (kregs s) = {}" "head_live s = b"
  shows "leads (sock_exit_l r) s (\<lambda>x t. x = r \<and> unloaded t \<and> head_live t = b)"
  using assms by (simp add: sock_exit_l_def mark_bitmap_exit_def leads_def unloaded_def head_live_def)

lemma dev_exit_l_leads:
  assumes "mark_bitmap s = Ptr bm" "g_ruletbl s = Null" "node_heap s = (\<lambda>_. None)"
    "qmark_sock (kregs s)" "held (kregs s) = {SocketR}" "head_live s = b"
  shows "leads (dev_exit_l r) s (\<lambda>x t. x = r \<and> unloaded t \<and> head_live t = b)"
  unfolding dev_exit_l_def
proof (rule leads_then, rule leads_runs, rule runs_sock_exit)
  fix t
  show "with_regs s g t \<Longrightarrow> g = (if qmark_sock (kregs s) then kregs s\<lparr>held := held (kregs s) - {SocketR}, qmark_sock := False\<rparr> else kregs s) \<Longrightarrow>
    leads (sock_exit_l r) t (\<lambda>x t. x = r \<and> unloaded t \<and> head_live t = b)" for g
    using assms by (intro sock_exit_l_leads) (simp_all add: with_regs_fields with_regs_head)
qed (rule refl)

lemma ruletbl_exit_l_leads:
  assumes "mark_bitmap s = Ptr bm" "g_ruletbl s = Null" "node_heap s = (\<lambda>_. None)"
    "qmark_sock (kregs s)" "dev_live (kregs s)" "SocketR \<in> held (kregs s)"
    "held (kregs s) \<subseteq> {SocketR, ChrdevR, CdevR, ClassR, DeviceR}" "head_live s = b"
  shows "leads (ruletbl_exit_l r) s (\<lambda>x t. x = r \<and> unloaded t \<and> head_live t = b)"
  unfolding ruletbl_exit_l_def
proof (rule leads_then, rule leads_runs, rule runs_dev_exit[OF assms(5)])
  show "qmark_sock g = qmark_sock (kregs s) \<Longrightarrow> held g = held (kregs s) - {ChrdevR, CdevR, ClassR, DeviceR} \<Longrightarrow>
      qmark_sock g \<and> held g = {SocketR}" for g
    using assms(4,6,7) by auto
  show "qmark_sock g \<and> held g = {SocketR} \<Longrightarrow> with_regs s g t \<Longrightarrow> leads (dev_exit_l r) t (\<lambda>x t. x = r \<and> unloaded t \<and> head_live t = b)" for g t
    using assms by (intro dev_exit_l_leads) (simp_all add: with_regs_fields with_regs_head)
qed

lemma marktbl_exit_l_leads:
  assumes "mark_bitmap s = Ptr bm" "g_ruletbl s = Ptr rs" "node_heap s = (\<lambda>_. None)"
    "qmark_sock (kregs s)" "dev_live (kregs s)" "SocketR \<in> held (kregs s)"
    "held (kregs s) \<subseteq> {SocketR, ChrdevR, CdevR, ClassR, DeviceR}" "head_live s = b"
  shows "leads (marktbl_exit_l r) s (\<lambda>x t. x = r \<and> unloaded t \<and> head_live t = b)"
proof -
  have "qos_ruletbl_exit s = Inr ((), s\<lparr>g_ruletbl := Null\<rparr>)" using assms(2) by (simp add: qos_ruletbl_exit_def)
  then show ?thesis
    unfolding marktbl_exit_l_def using assms by (simp add: leads_then_eq ruletbl_exit_l_leads)
qed

text \<open>Tables that were just built satisfy the invariant.\<close>

lemma booted_inv:
  assumes cfg: "cfg_ok s" and "\<not> qmark_op_lock s" and head: "g_marktbl_head s = Ptr (empty_head (max_ip_cnt s))"
    and heap: "node_heap s = (\<lambda>_. None)" and rules: "g_ruletbl s = Ptr (replicate (unat (max_rule_cnt s)) zero_rule)"
    and bits: "mark_bitmap s = Ptr (replicate k False)" "unat (max_ip_cnt s) \<le> k"
  shows "qos_inv s" "table s = Map.empty" "used_marks s = {}" "the_rules s = replicate (unat (max_rule_cnt s)) zero_rule"
proof -
  have m: "0 < max_ip_cnt s" "unat (max_ip_cnt s) < 2 ^ 21" "tc_ready s" using cfg by (simp_all add: cfg_ok_def spec_fits_def)
  have T: "table_wf s" "table s ip = None" for ip using empty_head_wf[OF head heap m(1)] by auto
  then show t: "table s = Map.empty" by auto
  have mb: "mark_bits s = replicate k False" using bits(1) by (simp add: mark_bits_def)
  show u: "used_marks s = {}" using bits(2) by (auto simp: used_marks_def mb)
  show r: "the_rules s = replicate (unat (max_rule_cnt s)) zero_rule" using rules by (simp add: the_rules_def)
  have hd: "the_head s = empty_head (max_ip_cnt s)" using head by (simp add: the_head_def)
  have "shape s"
    using assms(2) m T(1) bits rules r zero_rule_rates
    by (simp add: shape_def bitmap_wf_def mb rules_live_def hd empty_head_def)
  moreover have "view_ok (view s)"
    by (simp add: view_ok_def view_defs t u r members_def zero_rule_def)
  ultimately show "qos_inv s" by (simp add: qos_inv_def)
qed

lemma qos_marktbl_hashtbl_init_cases:
  assumes "cfg_ok s"
  shows "\<exists>k. (qos_marktbl_hashtbl_init s = Inr (0, s\<lparr>env_time := k, g_marktbl_head := Ptr (empty_head (max_ip_cnt s))\<rparr>)) \<or>
    (\<exists>p. qos_marktbl_hashtbl_init s = Inr (ERROR, s\<lparr>env_time := k, g_marktbl_head := p\<rparr>) \<and> (p = Null \<or> p = Dangling))"
proof -
  have f: "unat (max_ip_cnt s) * (long_bits (env s) div 8) < 2 ^ long_bits (env s)"
    using assms by (auto simp: cfg_ok_def spec_fits_def)
  show ?thesis
    using f by (auto simp: qos_marktbl_hashtbl_init_def size_t_def quiet_def empty_head_def)
qed

lemma qos_ruletbl_init_cases:
  assumes "cfg_ok s"
  shows "qos_ruletbl_init s = (if kmalloc_ok (env s) (env_time s) (36 * unat (max_rule_cnt s))
    then Inr (OK, s\<lparr>env_time := Suc (env_time s), g_ruletbl := Ptr (replicate (unat (max_rule_cnt s)) zero_rule)\<rparr>)
    else Inr (ERROR, s\<lparr>env_time := Suc (env_time s), g_ruletbl := Null\<rparr>))"
  using assms by (auto simp: qos_ruletbl_init_def size_t_def quiet_def cfg_ok_def spec_fits_def)

lemma ctnotifier_exit_l_leads:
  assumes "mark_bitmap s = Ptr bm" "g_ruletbl s = Ptr rs" "node_heap s = (\<lambda>_. None)" "table_wf s"
    "qmark_sock (kregs s)" "dev_live (kregs s)" "SocketR \<in> held (kregs s)"
    "held (kregs s) \<subseteq> {SocketR, ChrdevR, CdevR, ClassR, DeviceR}"
  shows "leads (ctnotifier_exit_l r) s (\<lambda>x t. x = r \<and> unloaded t \<and> \<not> head_live t)"
  unfolding ctnotifier_exit_l_def
  by (rule leads_then, rule leads_eq, rule qos_marktbl_hashtbl_exit_spec[OF assms(4)],
    rule leads_weaken, rule marktbl_exit_l_leads[where b = False]) (use assms in simp_all)

text \<open>
  What the stages of loading establish, each for the rest of \<open>qos_marktbl_init\<close>; \<open>b\<close> tells whether a table's
  head was already there before.
\<close>

definition load_ok :: "bool \<Rightarrow> int \<Rightarrow> kst \<Rightarrow> bool" where
  "load_ok b r t \<longleftrightarrow> (if r < 0 then unloaded t \<and> (head_live t \<longrightarrow> b)
     else qos_inv t \<and> table t = Map.empty \<and> used_marks t = {} \<and> NotifierR \<in> held (kregs t))"

definition stage :: "kst \<Rightarrow> bool" where
  "stage s \<longleftrightarrow> cfg_ok s \<and> \<not> qmark_op_lock s \<and> node_heap s = (\<lambda>_. None) \<and>
     mark_bitmap s = Ptr (replicate (8 * bitmap_bytes s (max_ip_cnt s)) False)"

definition stage_dev :: "kst \<Rightarrow> bool" where
  "stage_dev s \<longleftrightarrow> qmark_sock (kregs s) \<and> dev_live (kregs s) \<and> SocketR \<in> held (kregs s) \<and>
     held (kregs s) \<subseteq> {SocketR, ChrdevR, CdevR, ClassR, DeviceR}"

lemma stage_cong:
  assumes "stage s" "mark_bitmap t = mark_bitmap s" "node_heap t = node_heap s" "qmark_op_lock t = qmark_op_lock s"
    "env t = env s" "max_ip_cnt t = max_ip_cnt s" "max_rule_cnt t = max_rule_cnt s"
    "qmark_lan_dev t = qmark_lan_dev s" "qmark_wan_dev t = qmark_wan_dev s"
  shows "stage t"
  using assms by (simp add: stage_def cfg_ok_def tc_ready_def bitmap_bytes_def BITS_TO_LONGS_def size_t_def)

lemma load_notifier:
  assumes "stage s" "stage_dev s" "g_marktbl_head s = Ptr (empty_head (max_ip_cnt s))"
    "g_ruletbl s = Ptr (replicate (unat (max_rule_cnt s)) zero_rule)"
  shows "leads (bindM (kcall ''nf_conntrack_register_notifier'') (\<lambda>r.
    if r < 0 then thenM (printk ''Can't register nf notifier hook for qos marktable, ret=[%d].'' [of_int r]) (ctnotifier_exit_l r)
    else thenM (hold NotifierR) (ret r))) s (load_ok b)"
proof -
  let ?f = "''nf_conntrack_register_notifier''"
  let ?r = "kcall_ret (env s) (env_time s) ?f"
  let ?t = "s\<lparr>env_time := Suc (env_time s)\<rparr>"
  have call: "kcall ?f s = Inr (?r, ?t)" by (simp add: kcall_def quiet_def)
  have st: "stage ?t" by (rule stage_cong[OF assms(1)]) simp_all
  show ?thesis
  proof (subst leads_bind_eq, rule call, cases "?r < 0")
    case True
    let ?u = "?t\<lparr>klog := klog s @ [(''Can't register nf notifier hook for qos marktable, ret=[%d].'', [of_int ?r])]\<rparr>"
    have p: "printk ''Can't register nf notifier hook for qos marktable, ret=[%d].'' [of_int ?r] ?t = Inr ((), ?u)"
      by (simp add: quiet_def kst_sort)
    have "table_wf ?u"
      by (rule empty_head_wf(1)[of _ "max_ip_cnt s"]) (use assms in \<open>auto simp: stage_def cfg_ok_def spec_fits_def\<close>)
    then have "leads (ctnotifier_exit_l ?r) ?u (\<lambda>x t. x = ?r \<and> unloaded t \<and> \<not> head_live t)"
      using assms by (intro ctnotifier_exit_l_leads) (simp_all add: stage_def stage_dev_def)
    then have "leads (ctnotifier_exit_l ?r) ?u (load_ok b)" using True by (auto elim!: leads_weaken simp: load_ok_def)
    with True show "leads (if ?r < 0 then thenM (printk ''Can't register nf notifier hook for qos marktable, ret=[%d].'' [of_int ?r]) (ctnotifier_exit_l ?r)
        else thenM (hold NotifierR) (ret ?r)) ?t (load_ok b)" using p by (simp add: leads_then_eq)
  next
    case False
    let ?u = "?t\<lparr>kregs := (kregs s)\<lparr>held := insert NotifierR (held (kregs s))\<rparr>\<rparr>"
    have h: "thenM (hold NotifierR) (ret ?r) ?t = Inr (?r, ?u)" by (simp add: hold_def set_regs_def)
    have "cfg_ok ?u" using assms(1) by (simp add: stage_def cfg_ok_def tc_ready_def)
    moreover have "unat (max_ip_cnt s) \<le> 8 * bitmap_bytes s (max_ip_cnt s)"
      using assms(1) bitmap_bytes_cover(1)[of s "max_rule_cnt s"] by (simp add: stage_def cfg_ok_def)
    ultimately have "qos_inv ?u" "table ?u = Map.empty" "used_marks ?u = {}"
      using booted_inv[of ?u "8 * bitmap_bytes s (max_ip_cnt s)"] assms by (simp_all add: stage_def)
    with False h show "leads (if ?r < 0 then thenM (printk ''Can't register nf notifier hook for qos marktable, ret=[%d].'' [of_int ?r]) (ctnotifier_exit_l ?r)
        else thenM (hold NotifierR) (ret ?r)) ?t (load_ok b)" by (simp add: leads_def load_ok_def)
  qed
qed

text \<open>The stages, last to first; \<open>m\<close> is the rest of the function.\<close>

lemma load_marktbl:
  assumes "stage s" "stage_dev s" "g_ruletbl s = Ptr (replicate (unat (max_rule_cnt s)) zero_rule)"
    and "\<And>t. stage t \<Longrightarrow> stage_dev t \<Longrightarrow> g_marktbl_head t = Ptr (empty_head (max_ip_cnt t)) \<Longrightarrow>
      g_ruletbl t = Ptr (replicate (unat (max_rule_cnt t)) zero_rule) \<Longrightarrow> leads m t (load_ok b)"
  shows "leads (bindM qos_marktbl_hashtbl_init (\<lambda>r. if r < 0 then marktbl_exit_l r else m)) s (load_ok b)"
proof -
  have cfg: "cfg_ok s" using assms(1) by (simp add: stage_def)
  obtain k where "qos_marktbl_hashtbl_init s = Inr (0, s\<lparr>env_time := k, g_marktbl_head := Ptr (empty_head (max_ip_cnt s))\<rparr>) \<or>
    (\<exists>p. qos_marktbl_hashtbl_init s = Inr (ERROR, s\<lparr>env_time := k, g_marktbl_head := p\<rparr>) \<and> (p = Null \<or> p = Dangling))"
    using qos_marktbl_hashtbl_init_cases[OF cfg] by blast
  then show ?thesis
  proof (elim disjE exE)
    let ?t = "s\<lparr>env_time := k, g_marktbl_head := Ptr (empty_head (max_ip_cnt s))\<rparr>"
    assume h: "qos_marktbl_hashtbl_init s = Inr (0, ?t)"
    have "leads m ?t (load_ok b)"
      using assms(2,3) by (intro assms(4) stage_cong[OF assms(1)]) (simp_all add: stage_dev_def)
    with h show ?thesis by (simp add: leads_bind_eq)
  next
    fix p
    let ?t = "s\<lparr>env_time := k, g_marktbl_head := p\<rparr>"
    assume h: "qos_marktbl_hashtbl_init s = Inr (ERROR, ?t) \<and> (p = Null \<or> p = Dangling)"
    then have "\<not> head_live ?t" by auto
    moreover have "leads (marktbl_exit_l ERROR) ?t (\<lambda>x t. x = ERROR \<and> unloaded t \<and> head_live t = head_live ?t)"
      using assms(1-3) by (intro marktbl_exit_l_leads) (simp_all add: stage_def stage_dev_def)
    ultimately have "leads (marktbl_exit_l ERROR) ?t (load_ok b)" by (auto elim: leads_weaken simp: load_ok_def)
    with h show ?thesis by (simp add: leads_bind_eq)
  qed
qed

lemma load_ruletbl:
  assumes "stage s" "stage_dev s" "head_live s \<Longrightarrow> b"
    and "\<And>t. stage t \<Longrightarrow> stage_dev t \<Longrightarrow> g_ruletbl t = Ptr (replicate (unat (max_rule_cnt t)) zero_rule) \<Longrightarrow> leads m t (load_ok b)"
  shows "leads (bindM qos_ruletbl_init (\<lambda>r. if r < 0 then ruletbl_exit_l r else m)) s (load_ok b)"
proof -
  have cfg: "cfg_ok s" using assms(1) by (simp add: stage_def)
  show ?thesis
  proof (cases "kmalloc_ok (env s) (env_time s) (36 * unat (max_rule_cnt s))")
    case True
    let ?t = "s\<lparr>env_time := Suc (env_time s), g_ruletbl := Ptr (replicate (unat (max_rule_cnt s)) zero_rule)\<rparr>"
    have h: "qos_ruletbl_init s = Inr (OK, ?t)" using qos_ruletbl_init_cases[OF cfg] True by simp
    have "leads m ?t (load_ok b)"
      using assms(2) by (intro assms(4) stage_cong[OF assms(1)]) (simp_all add: stage_dev_def)
    with h show ?thesis by (simp add: leads_bind_eq)
  next
    case False
    let ?t = "s\<lparr>env_time := Suc (env_time s), g_ruletbl := Null\<rparr>"
    have h: "qos_ruletbl_init s = Inr (ERROR, ?t)" using qos_ruletbl_init_cases[OF cfg] False by simp
    have "head_live ?t = head_live s" by (simp add: head_live_def)
    moreover have "leads (ruletbl_exit_l ERROR) ?t (\<lambda>x t. x = ERROR \<and> unloaded t \<and> head_live t = head_live ?t)"
      using assms(1,2) by (intro ruletbl_exit_l_leads) (simp_all add: stage_def stage_dev_def)
    ultimately have "leads (ruletbl_exit_l ERROR) ?t (load_ok b)" using assms(3) by (auto elim: leads_weaken simp: load_ok_def)
    with h show ?thesis by (simp add: leads_bind_eq)
  qed
qed

lemma stage_with_regs: "stage s \<Longrightarrow> with_regs s g t \<Longrightarrow> stage t"
  by (erule stage_cong) (simp_all add: with_regs_fields)

lemma load_dev:
  assumes "stage s" "g_ruletbl s = Null" "qmark_sock (kregs s)" "qmark_cdev_major (kregs s) = 0" "held (kregs s) = {SocketR}" "head_live s \<Longrightarrow> b"
    and "\<And>t. stage t \<Longrightarrow> stage_dev t \<Longrightarrow> (head_live t \<Longrightarrow> b) \<Longrightarrow> leads m t (load_ok b)"
  shows "leads (bindM qmark_dev_init (\<lambda>r. if r < 0 then dev_exit_l r else m)) s (load_ok b)"
proof (rule leads_bind, rule leads_runs, rule runs_dev_init)
  fix r :: int and g t
  assume q: "qmark_sock g = qmark_sock (kregs s) \<and> (if r < 0 then held g = held (kregs s)
      else dev_live g \<and> held (kregs s) \<union> {ChrdevR, CdevR, ClassR} \<subseteq> held g \<and> held g \<subseteq> held (kregs s) \<union> {ChrdevR, CdevR, ClassR, DeviceR})"
    and t: "with_regs s g t"
  have st: "stage t" by (rule stage_with_regs[OF assms(1) t])
  show "leads (if r < 0 then dev_exit_l r else m) t (load_ok b)"
  proof (cases "r < 0")
    case True
    have "leads (dev_exit_l r) t (\<lambda>x u. x = r \<and> unloaded u \<and> head_live u = head_live t)"
      using st q t True assms(2,3,5) by (intro dev_exit_l_leads) (simp_all add: stage_def with_regs_fields)
    then have "leads (dev_exit_l r) t (load_ok b)" by (rule leads_weaken) (use assms(6) in \<open>auto simp: load_ok_def True with_regs_head[OF t]\<close>)
    with True show ?thesis by simp
  next
    case False
    have "stage_dev t" using q False assms(3,5) by (auto simp: stage_dev_def with_regs_fields[OF t])
    moreover have "head_live t \<Longrightarrow> b" using assms(6) by (simp add: with_regs_head[OF t])
    ultimately show ?thesis using st False assms(7) by simp
  qed
qed (use assms in auto)

lemma load_sock:
  assumes "stage s" "g_ruletbl s = Null" "regs_fresh (kregs s)" "head_live s \<Longrightarrow> b"
    and "\<And>t. stage t \<Longrightarrow> g_ruletbl t = Null \<Longrightarrow> qmark_sock (kregs t) \<Longrightarrow> qmark_cdev_major (kregs t) = 0 \<Longrightarrow>
      held (kregs t) = {SocketR} \<Longrightarrow> (head_live t \<Longrightarrow> b) \<Longrightarrow> leads m t (load_ok b)"
  shows "leads (bindM qmark_tc_sock_init (\<lambda>r. if r < 0 then sock_exit_l r else m)) s (load_ok b)"
proof (rule leads_bind, rule leads_runs, rule runs_sock_init)
  fix r :: int and g t
  assume q: "if r < 0 then g = kregs s else g = (kregs s)\<lparr>held := insert SocketR (held (kregs s)), qmark_sock := True\<rparr>"
    and t: "with_regs s g t"
  have st: "stage t" by (rule stage_with_regs[OF assms(1) t])
  show "leads (if r < 0 then sock_exit_l r else m) t (load_ok b)"
  proof (cases "r < 0")
    case True
    have "leads (sock_exit_l r) t (\<lambda>x u. x = r \<and> unloaded u \<and> head_live u = head_live t)"
      using st q t True assms(2,3) by (intro sock_exit_l_leads) (simp_all add: stage_def with_regs_fields regs_fresh_def)
    then have "leads (sock_exit_l r) t (load_ok b)" by (rule leads_weaken) (use assms(4) in \<open>auto simp: load_ok_def True with_regs_head[OF t]\<close>)
    with True show ?thesis by simp
  next
    case False
    have "leads m t (load_ok b)"
      using q False assms(2,3,4) by (intro assms(5) st) (auto simp: with_regs_fields[OF t] with_regs_head[OF t] regs_fresh_def)
    with False show ?thesis by simp
  qed
qed (use assms in \<open>auto simp: regs_fresh_def\<close>)

lemma load_bitmap:
  assumes un: "unloaded s" and cfg: "cfg_ok s" "\<not> qmark_op_lock s" "regs_fresh (kregs s)" "head_live s \<Longrightarrow> b"
    and "\<And>t. stage t \<Longrightarrow> g_ruletbl t = Null \<Longrightarrow> regs_fresh (kregs t) \<Longrightarrow> (head_live t \<Longrightarrow> b) \<Longrightarrow> leads m t (load_ok b)"
  shows "leads (bindM (bindM (gets max_ip_cnt) mark_bitmap_init) (\<lambda>r. if r < 0 then ret r else m)) s (load_ok b)"
proof (cases "kmalloc_ok (env s) (env_time s) (bitmap_bytes s (max_ip_cnt s))")
  case True
  let ?t = "s\<lparr>env_time := Suc (env_time s), mark_bitmap := Ptr (replicate (8 * bitmap_bytes s (max_ip_cnt s)) False)\<rparr>"
  have h: "bindM (gets max_ip_cnt) mark_bitmap_init s = Inr (OK, ?t)" using True by (simp add: mark_bitmap_init_spec)
  have "stage ?t" using un cfg
    by (simp add: stage_def cfg_ok_def unloaded_def tc_ready_def bitmap_bytes_def BITS_TO_LONGS_def size_t_def)
  then have "leads m ?t (load_ok b)" using un cfg(3,4) by (intro assms(6)) (simp_all add: unloaded_def head_live_def)
  with h show ?thesis by (simp add: leads_bind_eq)
next
  case False
  let ?t = "s\<lparr>env_time := Suc (env_time s), mark_bitmap := Null\<rparr>"
  have h: "bindM (gets max_ip_cnt) mark_bitmap_init s = Inr (ALLOC_FAIL, ?t)" using False by (simp add: mark_bitmap_init_spec)
  have "leads (ret ALLOC_FAIL) ?t (load_ok b)" using un cfg(4) by (auto intro!: leads_eq simp: load_ok_def unloaded_def head_live_def)
  with h show ?thesis by (simp add: leads_bind_eq)
qed

text \<open>
  \<open>qos_marktbl_init\<close> on a module that is not loaded: it returns, and either everything was built and
  registered, or everything was released again.
\<close>

lemma qos_marktbl_init_leads:
  assumes un: "unloaded s" and regs: "regs_fresh (kregs s)" and cfg: "cfg_ok s"
  shows "leads qos_marktbl_init s (load_ok (head_live s))"
  unfolding qos_marktbl_init_def
proof (rule leads_then, rule leads_eq[OF modify_app], rule load_bitmap)
  fix t
  assume "stage t" "g_ruletbl t = Null" "regs_fresh (kregs t)" "head_live t \<Longrightarrow> head_live s"
  then show "leads (bindM qmark_tc_sock_init (\<lambda>r. if r < 0 then sock_exit_l r else
    bindM qmark_dev_init (\<lambda>r. if r < 0 then dev_exit_l r else
    bindM qos_ruletbl_init (\<lambda>r. if r < 0 then ruletbl_exit_l r else
    bindM qos_marktbl_hashtbl_init (\<lambda>r. if r < 0 then marktbl_exit_l r else
    bindM (kcall ''nf_conntrack_register_notifier'') (\<lambda>r. if r < 0 then
      thenM (printk ''Can't register nf notifier hook for qos marktable, ret=[%d].'' [of_int r]) (ctnotifier_exit_l r)
      else thenM (hold NotifierR) (ret r))))))) t (load_ok (head_live s))"
    by (intro load_sock load_dev load_ruletbl load_marktbl load_notifier)
qed (use assms in \<open>simp_all add: unloaded_def cfg_ok_def tc_ready_def head_live_def\<close>)

text \<open>Unloading a module that satisfies the invariant releases everything.\<close>

lemma qos_marktbl_exit_leads:
  assumes inv: "qos_inv s" and regs: "stage_dev (s\<lparr>kregs := (kregs s)\<lparr>held := held (kregs s) - {NotifierR}\<rparr>\<rparr>)"
  shows "leads qos_marktbl_exit s (\<lambda>_ t. unloaded t \<and> g_marktbl_head t = Null)"
proof -
  note S = shapeD[OF conjunct1[OF qos_invD[OF inv]]]
  let ?g = "(kregs s)\<lparr>held := held (kregs s) - {NotifierR}\<rparr>"
  let ?s1 = "s\<lparr>kregs := ?g\<rparr>"
  let ?s2 = "?s1\<lparr>node_heap := \<lambda>_. None, g_marktbl_head := Null\<rparr>"
  let ?s3 = "?s2\<lparr>g_ruletbl := Null\<rparr>"
  have d: "put_back NotifierR s = Inr ((), ?s1)" by (simp add: put_back_def set_regs_def)
  have "table_wf ?s1" using S(2) table_wf_cong(1)[of ?s1 s] by simp
  then have h: "qos_marktbl_hashtbl_exit ?s1 = Inr ((), ?s2)" by (rule qos_marktbl_hashtbl_exit_spec)
  have r: "qos_ruletbl_exit ?s2 = Inr ((), ?s3)" using S(3) by (simp add: qos_ruletbl_exit_def rules_live_def)
  have bm: "mark_bitmap ?s3 = Ptr (mark_bits s)" using bitmap_wfD(1)[OF S(1)] by simp
  have k: "qmark_sock (kregs ?s3)" "dev_live (kregs ?s3)" "SocketR \<in> held (kregs ?s3)"
    "held (kregs ?s3) \<subseteq> {SocketR, ChrdevR, CdevR, ClassR, DeviceR}" using regs by (auto simp: stage_dev_def)
  have "leads (thenM qmark_dev_exit (thenM qmark_tc_sock_exit mark_bitmap_exit)) ?s3 (\<lambda>_ t. unloaded t \<and> g_marktbl_head t = Null)"
  proof (rule leads_then, rule leads_runs, rule runs_dev_exit[OF k(2)])
    show "qmark_sock g = qmark_sock (kregs ?s3) \<Longrightarrow> held g = held (kregs ?s3) - {ChrdevR, CdevR, ClassR, DeviceR} \<Longrightarrow>
        qmark_sock g \<and> held g = {SocketR}" for g using k by auto
    fix x g t
    assume g: "qmark_sock g \<and> held g = {SocketR}" and t: "with_regs ?s3 g t"
    show "leads (thenM qmark_tc_sock_exit mark_bitmap_exit) t (\<lambda>_ t. unloaded t \<and> g_marktbl_head t = Null)"
    proof (rule leads_then, rule leads_runs, rule runs_sock_exit, rule refl)
      fix y g' u
      assume "g' = (if qmark_sock (kregs t) then kregs t\<lparr>held := held (kregs t) - {SocketR}, qmark_sock := False\<rparr> else kregs t)"
        and u: "with_regs t g' u"
      then have "held (kregs u) = {}" using g with_regs_fields(1)[OF t] with_regs_fields(1)[OF u] by simp
      moreover have "mark_bitmap u = Ptr (mark_bits s)" using bm with_regs_fields(2)[OF t] with_regs_fields(2)[OF u] by simp
      ultimately show "leads mark_bitmap_exit u (\<lambda>_ t. unloaded t \<and> g_marktbl_head t = Null)"
        using with_regs_fields(3-5)[OF t] with_regs_fields(3-5)[OF u]
        by (simp add: mark_bitmap_exit_def leads_def unloaded_def)
    qed
  qed
  then show ?thesis
    using d h r unfolding qos_marktbl_exit_def by (simp add: leads_then_eq)
qed

end
