(* ===== verification/Guarded_System.thy ===== *)
theory Guarded_System
  imports Qos_Prelude
begin

text \<open>
  The interface of a machine whose calls are only made when their guard holds: scripts of calls, the
  reachable states, and what an invariant that every guarded call keeps says about them. The module
  in operation (\<open>Qmark_System\<close>) and several processors at work on it (\<open>Qmark_Smp\<close>) are its instances.
\<close>

text \<open>A script of calls, and that each of them is legal when its turn comes.\<close>

primrec run_all :: "('c \<Rightarrow> ('s, unit) km) \<Rightarrow> 'c list \<Rightarrow> ('s, unit) km" where
  "run_all run [] = ret ()"
| "run_all run (c # cs) = thenM (run c) (run_all run cs)"

primrec legal_all :: "('c \<Rightarrow> ('s, unit) km) \<Rightarrow> ('s \<Rightarrow> 'c \<Rightarrow> bool) \<Rightarrow> 'c list \<Rightarrow> 's \<Rightarrow> bool" where
  "legal_all run legal [] s \<longleftrightarrow> True"
| "legal_all run legal (c # cs) s \<longleftrightarrow>
     legal s c \<and> (case run c s of Inr (_, t) \<Rightarrow> legal_all run legal cs t | Inl _ \<Rightarrow> True)"

lemma run_all_append: "run_all run (cs @ ds) = thenM (run_all run cs) (run_all run ds)"
  by (induction cs) (auto simp: thenM_def bindM_def fun_eq_iff split: sum.split)

lemma legal_all_append:
  "legal_all run legal (cs @ ds) s \<longleftrightarrow> legal_all run legal cs s \<and>
     (case run_all run cs s of Inr (_, t) \<Rightarrow> legal_all run legal ds t | Inl _ \<Rightarrow> True)"
  by (induction cs arbitrary: s) (auto simp: thenM_def bindM_def split: sum.split)

lemma legal_all_mono: "legal_all run P cs s \<Longrightarrow> (\<And>s c. P s c \<Longrightarrow> Q s c) \<Longrightarrow> legal_all run Q cs s"
  by (induction cs arbitrary: s) (auto split: sum.splits)

locale guarded_system =
  fixes run :: "'c \<Rightarrow> ('s, unit) km"
    and legal :: "'s \<Rightarrow> 'c \<Rightarrow> bool"
    and inv :: "'s \<Rightarrow> bool"
  assumes runs_safe: "inv s \<Longrightarrow> legal s c \<Longrightarrow> \<exists>t. run c s = Inr ((), t) \<and> inv t"
begin

inductive reach :: "'s \<Rightarrow> 's \<Rightarrow> bool" for s0 where
  start: "reach s0 s0"
| step: "reach s0 s \<Longrightarrow> legal s c \<Longrightarrow> run c s = Inr ((), t) \<Longrightarrow> reach s0 t"

lemma reach_inv:
  assumes "inv s0" and "reach s0 s"
  shows "inv s"
  using assms(2)
proof (induction rule: reach.induct)
  case start
  show ?case by (rule assms(1))
next
  case (step s c t)
  then show ?case using runs_safe by fastforce
qed

lemma reach_safe: "inv s0 \<Longrightarrow> reach s0 s \<Longrightarrow> legal s c \<Longrightarrow> \<exists>t. run c s = Inr ((), t) \<and> reach s0 t"
  using reach_inv runs_safe step by blast

lemma reach_trans:
  assumes "reach s t" "reach t u"
  shows "reach s u"
  using assms(2)
proof (induction rule: reach.induct)
  case start
  show ?case by (rule assms(1))
next
  case (step v c w)
  then show ?case using reach.step by blast
qed

lemma run_all_safe:
  "inv s \<Longrightarrow> legal_all run legal cs s \<Longrightarrow> \<exists>t. run_all run cs s = Inr ((), t) \<and> inv t \<and> reach s t"
proof (induction cs arbitrary: s)
  case Nil
  then show ?case using start by simp
next
  case (Cons c cs)
  then obtain t where t: "run c s = Inr ((), t)" "inv t" using runs_safe by (metis legal_all.simps(2))
  with Cons.prems(2) have "legal_all run legal cs t" by simp
  with Cons.IH[OF t(2)] obtain u where "run_all run cs t = Inr ((), u)" "inv u" "reach t u" by blast
  moreover have "reach s t" using reach.step[OF reach.start] Cons.prems(2) t(1) by (metis legal_all.simps(2))
  ultimately show ?case using t(1) reach_trans by auto
qed

text \<open>A script that is not known to be legal runs to its end or up to a call whose guard does not hold.\<close>

lemma run_all_or_breach:
  "inv s \<Longrightarrow> (\<exists>t. run_all run cs s = Inr ((), t) \<and> inv t) \<or>
    (\<exists>pre c post t. cs = pre @ c # post \<and> run_all run pre s = Inr ((), t) \<and> inv t \<and> \<not> legal t c)"
proof (induction cs arbitrary: s)
  case (Cons c cs)
  show ?case
  proof (cases "legal s c")
    case True
    with Cons.prems obtain t where t: "run c s = Inr ((), t)" "inv t" using runs_safe by blast
    from Cons.IH[OF t(2)] show ?thesis
    proof (elim disjE exE conjE)
      fix pre d post u
      assume "cs = pre @ d # post" "run_all run pre t = Inr ((), u)" "inv u" "\<not> legal u d"
      with t(1) show ?thesis by (intro disjI2 exI[of _ "c # pre"] exI[of _ d] exI[of _ post] exI[of _ u]) simp
    qed (use t(1) in simp)
  next
    case False
    with Cons.prems show ?thesis by (intro disjI2 exI[of _ "[]"] exI[of _ c] exI[of _ cs] exI[of _ s]) simp
  qed
qed simp

end

end
