(* ===== verification/Qmark_System.thy ===== *)
theory Qmark_System
  imports Xt_Qmark Module_Init Guarded_System
begin

text \<open>
  The module in operation: the calls that packets, conntrack and the administrator make, in any
  order. The locale \<open>guarded_system\<close> is interpreted on the module with the invariant of \<open>Qmark_Inv\<close>, so
  that every reachable state satisfies it and no guarded call can fault.
\<close>

section \<open>The calls of the module\<close>

datatype qcall =
    Packet sk_buff xt_qmark_tginfo
  | Conntrack u32 "nf_conn option"
  | Lookup u32
  | Release u32
  | AddRule u32 u32 u32 u32 u32 u32 u32
  | DelRule u32
  | ListRules
  | ResetDone

definition discard :: "'a kop \<Rightarrow> unit kop" where
  "discard m = thenM m (ret ())"

primrec run_call :: "qcall \<Rightarrow> unit kop" where
  "run_call (Packet skb info) = discard (qmark_tg (Some skb) info)"
| "run_call (Conntrack events ct) = qmark_conntrack_event events ct"
| "run_call (Lookup ip) = discard (qmark_find_hash ip)"
| "run_call (Release ip) = discard (qmark_del_hash ip 0)"
| "run_call (AddRule rid mode devid rate rate_mate rate_min rate_min_mate) =
     qmark_add_rule rid mode devid rate rate_mate rate_min rate_min_mate"
| "run_call (DelRule rid) = qmark_del_rule rid"
| "run_call ListRules = qmark_list_rule"
| "run_call ResetDone = qmark_reset 0"

text \<open>
  The guards the code leaves to its callers: rule numbers lie in the table, a rule is only changed
  while no address is under it, and its rates are such that the rate tables can be computed.
\<close>

definition rule_number :: "kst \<Rightarrow> u32 \<Rightarrow> bool" where
  "rule_number s rid \<longleftrightarrow> unat (rid - 1) < length (the_rules s)"

definition idle_rule :: "kst \<Rightarrow> u32 \<Rightarrow> bool" where
  "idle_rule s rid \<longleftrightarrow> rule_number s rid \<and> r_count (the_rules s ! unat (rid - 1)) = 0"

primrec legal_call :: "kst \<Rightarrow> qcall \<Rightarrow> bool" where
  "legal_call s (Packet skb info) \<longleftrightarrow> rule_number s (tg_id info)"
| "legal_call s (Conntrack events ct) \<longleftrightarrow> True"
| "legal_call s (Lookup ip) \<longleftrightarrow> True"
| "legal_call s (Release ip) \<longleftrightarrow> True"
| "legal_call s (AddRule rid mode devid rate rate_mate rate_min rate_min_mate) \<longleftrightarrow> idle_rule s rid \<and>
     rate_ok rate_min_mate 125 \<and> rate_ok rate_mate 125000000 \<and> rate_ok rate_min 125 \<and> rate_ok rate 125000000"
| "legal_call s (DelRule rid) \<longleftrightarrow> idle_rule s rid"
| "legal_call s ListRules \<longleftrightarrow> True"
| "legal_call s ResetDone \<longleftrightarrow> True"

lemma discard_Inr: "m s = Inr (x, t) \<Longrightarrow> discard m s = Inr ((), t)"
  by (simp add: discard_def)

lemma packet_safe:
  assumes inv: "qos_inv s" and i: "rule_number s (tg_id info)"
  shows "\<exists>x t. qmark_tg (Some skb) info s = Inr (x, t) \<and> qos_inv t"
proof (cases "ip_hdr skb")
  case None
  then show ?thesis using inv by (simp add: qmark_tg_def)
next
  case (Some iph)
  show ?thesis
  proof (cases "table s (packet_ip iph info)")
    case None
    from qmark_tg_first[OF inv Some None] i show ?thesis unfolding rule_number_def by (auto split: if_splits)
  next
    case (Some n)
    from qmark_tg_known[OF inv \<open>ip_hdr skb = Some iph\<close> Some] inv show ?thesis by blast
  qed
qed

lemma reset_flag_frame: "shape (s\<lparr>reset_flag := b\<rparr>) = shape s" "view (s\<lparr>reset_flag := b\<rparr>) = view s"
proof -
  have "table_wf (s\<lparr>reset_flag := b\<rparr>) = table_wf s" "table (s\<lparr>reset_flag := b\<rparr>) = table s" "the_head (s\<lparr>reset_flag := b\<rparr>) = the_head s"
    using table_wf_cong[of "s\<lparr>reset_flag := b\<rparr>" s] by simp_all
  moreover have "used_marks (s\<lparr>reset_flag := b\<rparr>) = used_marks s" "bitmap_wf (s\<lparr>reset_flag := b\<rparr>) = bitmap_wf s"
    using bitmap_cong[of "s\<lparr>reset_flag := b\<rparr>" s] by simp_all
  moreover have "rules_live (s\<lparr>reset_flag := b\<rparr>) = rules_live s" "tc_ready (s\<lparr>reset_flag := b\<rparr>) = tc_ready s"
    using rules_cong[of "s\<lparr>reset_flag := b\<rparr>" s] by (simp_all add: tc_ready_def)
  ultimately show "shape (s\<lparr>reset_flag := b\<rparr>) = shape s" "view (s\<lparr>reset_flag := b\<rparr>) = view s"
    by (simp_all add: shape_def view_def)
qed

lemma reset_flag_inv [simp]: "qos_inv (s\<lparr>reset_flag := b\<rparr>) = qos_inv s"
  by (simp add: qos_inv_def reset_flag_frame)

lemma qmark_list_rule_quiet:
  assumes "shape s"
  shows "\<exists>l. qmark_list_rule s = Inr ((), quiet False (env_time s) l (nl_sent s) s)"
proof -
  note S = shapeD[OF assms]
  show ?thesis
    unfolding qmark_list_rule_spec[OF S(3,4,7)] using S(4) by (simp add: quiet_intro(3)) blast
qed

interpretation sys: guarded_system run_call legal_call qos_inv
proof (unfold_locales, goal_cases)
  case (1 s c)
  show ?case
  proof (cases c)
    case (Packet skb info)
    with 1 obtain x t where "qmark_tg (Some skb) info s = Inr (x, t)" "qos_inv t" using packet_safe by fastforce
    with Packet show ?thesis using discard_Inr by fastforce
  next
    case (Conntrack events ct)
    with 1 show ?thesis using qmark_conntrack_event_cases by fastforce
  next
    case (Lookup ip)
    with 1 show ?thesis using discard_Inr[OF qmark_find_hash_spec] by fastforce
  next
    case (Release ip)
    obtain x t where "qmark_del_hash ip 0 s = Inr (x, t)" "qos_inv t"
      using qmark_del_hash_cases[OF 1(1), of ip 0] by (auto split: option.splits if_splits)
    with Release show ?thesis using discard_Inr by fastforce
  next
    case (AddRule rid mode devid rate rm rmin rmm)
    with 1 have "\<exists>t. qmark_add_rule rid mode devid rate rm rmin rmm s = Inr ((), t) \<and> qos_inv t \<and>
        view t = configure rid (rule_settings mode devid rate rm rmin rmm) (view s)"
      by (intro qmark_add_rule_cases) (auto simp: idle_rule_def rule_number_def rule_rates_ok_def rule_settings_def)
    with AddRule show ?thesis by auto
  next
    case (DelRule rid)
    with 1 show ?thesis using qmark_del_rule_cases[of s rid] by (auto simp: idle_rule_def rule_number_def)
  next
    case ListRules
    with 1 show ?thesis using qmark_list_rule_quiet[of s] by (auto simp: qos_inv_def)
  next
    case ResetDone
    with 1 show ?thesis by (simp add: qmark_reset_def)
  qed
qed

end
