(* ===== verification/Qmark_Samples.thy ===== *)
theory Qmark_Samples
  imports Qmark_System
begin

text \<open>
  Concrete states for the examples that accompany the properties: a freshly loaded module for two
  addresses and two rules on a 32-bit little-endian machine, and the same module after one address
  was admitted under rule 1; each with the environments the examples need.
\<close>

section \<open>Environments\<close>

definition sample_env :: kenv where
  "sample_env = \<lparr>big_endian = False, long_bits = 32, IPCT_DESTROY = 2, IPCT_MARK = 7, AF_INET = 2,
     htons_ETH_P_ALL = 0x0300, ticks_per_ms = 15625, TC_LINKLAYER_MASK = 0x0F, sizeof_marktbl_head = 16,
     sizeof_marktbl_node = 24, sizeof_tc_htb_opt = 44, sizeof_tc_fifo_qopt = 4, kmalloc_ok = (\<lambda>_ _. True),
     net_device = (\<lambda>_ _. None), rtnl_busy = (\<lambda>_. False), sendmsg_ret = (\<lambda>_ m. int (nlmsg_len m)),
     kcall_ret = (\<lambda>_ f. if f = ''addr_len'' then 12 else if f = ''nl_family'' then 16 else 1), ioc_word = (\<lambda>_. 0)\<rparr>"

text \<open>Both devices exist; memory runs out, from the first request or from the second.\<close>

definition sample_dev :: "nat \<Rightarrow> netdev" where
  "sample_dev i = \<lparr>dev_ifindex = of_nat (i + 5), dev_mtu = 1500\<rparr>"

definition up_env :: kenv where
  "up_env = sample_env\<lparr>net_device := (\<lambda>_ name. if name = ''br-lan'' then Some (sample_dev 0)
     else if name = ''ifb0'' then Some (sample_dev 1) else None)\<rparr>"

definition no_memory_env :: "nat \<Rightarrow> kenv" where
  "no_memory_env k = sample_env\<lparr>kmalloc_ok := (\<lambda>t _. t < k)\<rparr>"

definition fits_env :: "kenv \<Rightarrow> bool" where
  "fits_env e \<longleftrightarrow> long_bits e = 32 \<and> sizeof_tc_htb_opt e = 44 \<and> sizeof_tc_fifo_qopt e = 4"

lemma fits_envs [simp]: "fits_env sample_env" "fits_env up_env" "fits_env (no_memory_env k)"
  by (simp_all add: fits_env_def up_env_def no_memory_env_def sample_env_def)

lemma sample_env_fields [simp]:
  "kmalloc_ok sample_env t m = True" "kmalloc_ok up_env t m = True" "kmalloc_ok (no_memory_env k) t m = (t < k)"
  "long_bits sample_env = 32" "long_bits (no_memory_env k) = 32" "AF_INET sample_env = 2"
  "IPCT_DESTROY sample_env = 2" "IPCT_MARK sample_env = 7" "ticks_per_ms sample_env = 15625"
  by (simp_all add: sample_env_def up_env_def no_memory_env_def)

section \<open>States\<close>

definition sample_regs :: kreg where
  "sample_regs = \<lparr>qmark_sock = True, qmark_cdev_major = 1, qmark_cdev = True, qmark_class = ClassPtr,
     held = {SocketR, ChrdevR, CdevR, ClassR, DeviceR, NotifierR}\<rparr>"

definition sample_boot :: "kenv \<Rightarrow> kst" where
  "sample_boot e = \<lparr>env = e, env_time = 0, g_marktbl_head = Ptr (empty_head 2),
     g_ruletbl = Ptr (replicate 2 zero_rule), mark_bitmap = Ptr (replicate 32 False),
     reset_flag = False, qmark_op_lock = False, max_ip_cnt = 2, max_rule_cnt = 2, node_heap = (\<lambda>_. None),
     next_addr = 0, qmark_lan_dev = ''br-lan'' @ replicate 10 (CHR 0x00), qmark_wan_dev = ''ifb0'' @ replicate 12 (CHR 0x00),
     klog = [], nl_sent = [], kregs = sample_regs\<rparr>"

definition sample_ip :: u32 where "sample_ip = 0x0100000a"

definition sample_node :: marktbl_node where
  "sample_node = \<lparr>n_src_ip = sample_ip, n_id = 1, n_mark = 0x800, n_count = 0\<rparr>"

definition sample_one :: "kenv \<Rightarrow> kst" where
  "sample_one e = count_rule 0 1 (insert_node sample_node (put_bit 0 True (sample_boot e)))"

lemma sample_boot_fields [simp]:
  "env (sample_boot e) = e" "env_time (sample_boot e) = 0" "reset_flag (sample_boot e) = False"
  "qmark_op_lock (sample_boot e) = False" "max_ip_cnt (sample_boot e) = 2" "max_rule_cnt (sample_boot e) = 2"
  "kregs (sample_boot e) = sample_regs" "node_heap (sample_boot e) = (\<lambda>_. None)"
  "mark_bits (sample_boot e) = replicate 32 False" "the_head (sample_boot e) = empty_head 2"
  by (simp_all add: sample_boot_def mark_bits_def the_head_def)

lemma sample_fits: "fits_env e \<Longrightarrow> spec_fits e 2 2" "fits_env e \<Longrightarrow> spec_fits e 1 1"
  by (simp_all add: spec_fits_def fits_env_def)

lemma sample_boot_ready: "fits_env e \<Longrightarrow> tc_ready (sample_boot e)"
  by (simp add: tc_ready_def sample_boot_def fits_env_def)

lemma sample_boot_inv:
  assumes "fits_env e"
  shows "qos_inv (sample_boot e)" "table (sample_boot e) = Map.empty" "used_marks (sample_boot e) = {}"
    "the_rules (sample_boot e) = [zero_rule, zero_rule]"
proof -
  have "cfg_ok (sample_boot e)" using sample_fits(1)[OF assms] sample_boot_ready[OF assms] by (simp add: cfg_ok_def)
  note b = booted_inv[OF this, of 32]
  show "qos_inv (sample_boot e)" "table (sample_boot e) = Map.empty" "used_marks (sample_boot e) = {}"
    by (rule b; simp add: sample_boot_def)+
  show "the_rules (sample_boot e) = [zero_rule, zero_rule]" by (simp add: the_rules_def sample_boot_def numeral_eq_Suc)
qed

lemma mark_0: "mark_of 0 = 0x800"
  by (simp add: mark_of_def)

lemma sample_one_fields [simp]:
  "env (sample_one e) = e" "env_time (sample_one e) = 0" "reset_flag (sample_one e) = False"
  "qmark_op_lock (sample_one e) = False" "max_ip_cnt (sample_one e) = 2" "max_rule_cnt (sample_one e) = 2"
  by (simp_all add: sample_one_def count_rule_def)

lemma sample_one_inv:
  assumes "fits_env e"
  shows "qos_inv (sample_one e)" "table (sample_one e) = [sample_ip \<mapsto> sample_node]" "used_marks (sample_one e) = {0x800}"
    "the_rules (sample_one e) = [zero_rule\<lparr>r_count := 1\<rparr>, zero_rule]"
proof -
  let ?b = "sample_boot e" and ?p = "put_bit 0 True (sample_boot e)"
  let ?i = "insert_node sample_node ?p"
  note B = sample_boot_inv[OF assms]
  have S: "shape ?b" and V: "view_ok (view ?b)" using B(1) by (simp_all add: qos_inv_def)
  have new: "table ?p (n_src_ip sample_node) = None" using B(2) by simp
  have room: "has_room ?p" by (simp add: has_room_def empty_head_def)
  have si: "shape ?i" using S new room by (intro shape_insert) simp_all
  have so: "shape (sample_one e)"
    unfolding sample_one_def count_rule_def
    by (rule shape_map_rule[OF si]) (use B(4) zero_rule_rates in \<open>auto simp: rule_rates_ok_def\<close>)
  have vp: "view ?p = (view ?b)\<lparr>v_used := {0x800}\<rparr>" using view_put_bit[OF S, of 0 True] B(3) by (simp add: mark_0)
  have view: "view (sample_one e) = admit_fresh sample_ip 1 0x800 (view ?b)"
    unfolding sample_one_def count_rule_def view_map_rule
    using view_insert[OF _ new] S B vp
    by (simp add: admit_fresh_def sample_node_def view_def zero_rule_def)
  have "view_ok (view (sample_one e))"
    unfolding view using V B room_bound(2)[OF S] by (intro admit_fresh_ok) (simp_all add: unshared_def zero_rule_def)
  with so show "qos_inv (sample_one e)" by (simp add: qos_inv_def)
  have "v_table (view (sample_one e)) = [sample_ip \<mapsto> sample_node]" "v_used (view (sample_one e)) = {0x800}"
    "v_rules (view (sample_one e)) = [zero_rule\<lparr>r_count := 1\<rparr>, zero_rule]"
    unfolding view using B by (simp_all add: admit_fresh_def sample_node_def zero_rule_def)
  then show "table (sample_one e) = [sample_ip \<mapsto> sample_node]" "used_marks (sample_one e) = {0x800}"
    "the_rules (sample_one e) = [zero_rule\<lparr>r_count := 1\<rparr>, zero_rule]" by simp_all
qed

lemma sample_rates: "rate_ok 100 125" "rate_ok 1000 125000000" "rate_ok 0 125" "rate_ok 0 125000000"
  by (simp_all add: rate_ok_def tc_rate_def)

lemma up_devices: "both_up sample_dev (sample_boot up_env)"
proof -
  have "dev_name 0 (sample_boot up_env) = ''br-lan''" "dev_name 1 (sample_boot up_env) = ''ifb0''"
    by (simp_all add: dev_name_def sample_boot_def)
  moreover have "net_device up_env t ''br-lan'' = Some (sample_dev 0)" "net_device up_env t ''ifb0'' = Some (sample_dev 1)"
    "rtnl_busy up_env t = False" for t
    by (simp_all add: up_env_def sample_env_def)
  ultimately show ?thesis using sample_boot_ready[of up_env] by (simp add: both_up_def)
qed

text \<open>Another address.\<close>

definition sample_jp :: u32 where "sample_jp = 0x0200000a"

section \<open>Before loading\<close>

lemma machine_envs [simp]: "fits_env e \<Longrightarrow> machine_ok e"
  by (simp add: fits_env_def machine_ok_def)

lemma sample_kcall:
  "env s = sample_env \<Longrightarrow> kcall f s = Inr (if f = ''addr_len'' then 12 else if f = ''nl_family'' then 16 else 1,
     s\<lparr>env_time := Suc (env_time s)\<rparr>)"
  by (simp add: kcall_def quiet_def sample_env_def)

lemma sample_sock:
  "env s = sample_env \<Longrightarrow> \<exists>k g. qmark_tc_sock_init s = Inr (OK, s\<lparr>env_time := k, kregs := g\<rparr>) \<and> qmark_cdev_major g = qmark_cdev_major (kregs s)"
  by (simp add: qmark_tc_sock_init_def sample_kcall hold_def set_regs_def sock_steps_def sizeof_sockaddr_nl_def AF_NETLINK_def kst_sort)
    (intro exI conjI, rule refl, simp)

lemma sample_dev:
  "env s = sample_env \<Longrightarrow> qmark_cdev_major (kregs s) = 0 \<Longrightarrow>
   \<exists>k g. qmark_dev_init s = Inr (OK, s\<lparr>env_time := k, kregs := g\<rparr>)"
  by (simp add: qmark_dev_init_def sample_kcall hold_def set_regs_def kst_sort) blast

lemma cfg_upd [simp]:
  "cfg_ok (s\<lparr>env_time := k, kregs := g\<rparr>) = cfg_ok s" "cfg_ok (s\<lparr>env_time := k, mark_bitmap := b\<rparr>) = cfg_ok s"
  by (simp_all add: cfg_ok_def tc_ready_def)

lemma sample_load:
  "\<exists>t. qos_marktbl_init (module_start sample_env) = Inr (1, t) \<and> the_rules t = replicate 128 zero_rule \<and> env t = sample_env \<and>
    max_ip_cnt t = 4096 \<and> \<not> reset_flag t"
proof -
  define s where "s = module_start sample_env"
  have e: "env s = sample_env" "max_ip_cnt s = 4096" "max_rule_cnt s = 128" "qmark_op_lock s = False" "qmark_cdev_major (kregs s) = 0"
    "\<not> reset_flag s"
    by (simp_all add: module_start_def s_def)
  obtain s1 where s1: "mark_bitmap_init 4096 s = Inr (OK, s1)" "env s1 = env s" "max_ip_cnt s1 = 4096" "max_rule_cnt s1 = 128"
      "kregs s1 = kregs s" "cfg_ok s1 = cfg_ok s" "\<not> reset_flag s1"
    using e by (simp add: mark_bitmap_init_spec)
  obtain s2 where s2: "qmark_tc_sock_init s1 = Inr (OK, s2)" "env s2 = env s1" "max_ip_cnt s2 = 4096" "max_rule_cnt s2 = 128"
      "qmark_cdev_major (kregs s2) = 0" "cfg_ok s2 = cfg_ok s1" "\<not> reset_flag s2"
    using sample_sock[of s1] e s1(2-5,7) by auto
  obtain s3 where s3: "qmark_dev_init s2 = Inr (OK, s3)" "env s3 = env s2" "max_ip_cnt s3 = 4096" "max_rule_cnt s3 = 128" "cfg_ok s3 = cfg_ok s2"
      "\<not> reset_flag s3"
    using sample_dev[of s2] e s1(2) s2(2-5,7) by auto
  have cfg: "cfg_ok s3" using s1 s2 s3 module_start_ok(3)[OF machine_envs[OF fits_envs(1)]] by (simp add: s_def)
  obtain s4 where s4: "qos_ruletbl_init s3 = Inr (OK, s4)" "env s4 = env s3" "max_ip_cnt s4 = 4096" "the_rules s4 = replicate 128 zero_rule"
      "\<not> reset_flag s4"
    using qos_ruletbl_init_cases[OF cfg] e s1(2) s2(2) s3 by simp
  obtain s5 where s5: "qos_marktbl_hashtbl_init s4 = Inr (0, s5)" "env s5 = env s4" "the_rules s5 = the_rules s4" "max_ip_cnt s5 = 4096"
      "\<not> reset_flag s5"
    using qos_marktbl_hashtbl_init_spec[of s4] e s1(2) s2(2) s3(2) s4 by simp
  have env: "env s5 = sample_env" using e s1(2) s2(2) s3(2) s4(2) s5(2) by simp
  note k = sample_kcall[OF this]
  have "qos_marktbl_init s = thenM (hold NotifierR) (ret 1) (s5\<lparr>env_time := Suc (env_time s5)\<rparr>)"
    using e s1(1) s2(1) s3(1) s4(1) s5(1) k by (simp add: qos_marktbl_init_def)
  then show ?thesis using s4(4) s5(3-5) env by (simp add: s_def hold_def set_regs_def the_rules_def)
qed

text \<open>A connection of the first address.\<close>

definition sample_conn :: nf_conn where
  "sample_conn = \<lparr>nf_ct_l3num = 2, nf_ct_is_untracked = False, ct_mark = 0x800, orig_src_ip = sample_ip,
     orig_dst_ip = 0x08080808, reply_src_ip = 0x08080808\<rparr>"

end
