(* ===== verification/Mark_Directory.thy ===== *)
theory Mark_Directory
  imports Mark_Table_Spec
begin

text \<open>
  The hash table as its callers see it: a directory from addresses to entries, with a lookup, an
  insertion and a deletion. The locale \<open>mark_directory\<close> states the laws they rely on and proves what
  follows from them; it is interpreted on \<open>qos_marktbl_hashtbl_get\<close>, \<open>_add\<close> and \<open>_del\<close>.
\<close>

locale mark_directory =
  fixes get :: "'k \<Rightarrow> ('s, int \<times> u32) km"
    and add :: "'k \<Rightarrow> 'r \<Rightarrow> u32 \<Rightarrow> ('s, int) km"
    and del :: "'k \<Rightarrow> ('s, int \<times> u32) km"
    and entries :: "'s \<Rightarrow> 'k \<Rightarrow> 'e option"
    and entry :: "'k \<Rightarrow> 'r \<Rightarrow> u32 \<Rightarrow> 'e"
    and mark :: "'e \<Rightarrow> u32"
    and busy :: "'e \<Rightarrow> bool"
    and wf :: "'s \<Rightarrow> bool"
  assumes get_law: "wf s \<Longrightarrow> get k s = Inr (case entries s k of None \<Rightarrow> (NO_EXIST, 0) | Some e \<Rightarrow> (OK, mark e), s)"
    and add_law: "wf s \<Longrightarrow> entries s k = None \<Longrightarrow> add k r m s = Inr (OK, t) \<Longrightarrow>
      wf t \<and> entries t = (entries s)(k \<mapsto> entry k r m)"
    and del_law: "wf s \<Longrightarrow> del k s = Inr (x, t) \<Longrightarrow> wf t \<and> (case entries s k of
        None \<Rightarrow> x = (NO_EXIST, 0) \<and> entries t = entries s
      | Some e \<Rightarrow> if busy e then x = (COUNT_NOZERO, 0) \<and> entries t = entries s
          else x = (OK, mark e) \<and> entries t = (entries s)(k := None))"
    and entry_laws: "mark (entry k r m) = m" "\<not> busy (entry k r m)"
begin

lemma get_after_add:
  assumes "wf s" "entries s k = None" "add k r m s = Inr (OK, t)"
  shows "get k' t = (if k' = k then Inr ((OK, m), t) else Inr (case entries s k' of None \<Rightarrow> (NO_EXIST, 0) | Some e \<Rightarrow> (OK, mark e), t))"
  using get_law[of t k'] add_law[OF assms] entry_laws(1) by simp

text \<open>An entry that was just added can be deleted, which gives its mark back and restores the directory.\<close>

lemma del_after_add:
  assumes "wf s" "entries s k = None" "add k r m s = Inr (OK, t)" "del k t = Inr (x, u)"
  shows "x = (OK, m)" "entries u = entries s" "wf u"
  using del_law[OF conjunct1[OF add_law[OF assms(1-3)]] assms(4)] add_law[OF assms(1-3)] entry_laws assms(2)
  by auto

text \<open>A deletion that succeeds makes the address unknown and leaves the others alone.\<close>

lemma get_after_del:
  assumes "wf s" "del k s = Inr ((OK, m), t)"
  shows "get k t = Inr ((NO_EXIST, 0), t)" "k' \<noteq> k \<Longrightarrow> get k' s = Inr (x, s) \<Longrightarrow> get k' t = Inr (x, t)"
proof -
  from del_law[OF assms] have t: "wf t" "entries t = (entries s)(k := None)"
    by (auto split: option.splits if_splits)
  show "get k t = Inr ((NO_EXIST, 0), t)" "k' \<noteq> k \<Longrightarrow> get k' s = Inr (x, s) \<Longrightarrow> get k' t = Inr (x, t)"
    using get_law[OF t(1)] get_law[OF assms(1)] t(2) by auto
qed

end

section \<open>The hash table is a directory\<close>

definition dir_wf :: "kst \<Rightarrow> bool" where
  "dir_wf s \<longleftrightarrow> table_wf s \<and> rules_live s \<and> elem_num (the_head s) \<le> max_ip_cnt s \<and> unat (max_ip_cnt s) < 2 ^ 32 - 1"

definition dir_entry :: "u32 \<Rightarrow> u32 \<Rightarrow> u32 \<Rightarrow> marktbl_node" where
  "dir_entry ip rid m = \<lparr>n_src_ip = ip, n_id = rid, n_mark = m, n_count = 0\<rparr>"

definition dir_busy :: "marktbl_node \<Rightarrow> bool" where
  "dir_busy n \<longleftrightarrow> 0 < sint (n_count n)"

lemma map_rule_dir:
  "table (map_rule i f s) = table s" "table_wf (map_rule i f s) = table_wf s" "the_head (map_rule i f s) = the_head s"
  "rules_live (map_rule i f s)" "max_ip_cnt (map_rule i f s) = max_ip_cnt s"
  using table_wf_cong[of "map_rule i f s" s] by (simp_all add: map_rule_def rules_live_def)

lemma test_mark_state: "test_mark m s = Inr (b, t) \<Longrightarrow> t = s"
  by (auto simp: test_mark_def test_bit_def bindM_eq_Inr deref_def split: ptr.splits if_splits)

lemma dir_room:
  assumes "dir_wf s" "\<not> max_ip_cnt s < elem_num (the_head s) + 1"
  shows "unat (elem_num (the_head s)) < 2 ^ 32 - 1" "elem_num (the_head s) + 1 \<le> max_ip_cnt s"
  using assms by (auto simp: dir_wf_def word_le_nat_alt word_less_nat_alt)

lemma hashtbl_add_dir:
  assumes wf: "dir_wf s" and new: "table s ip = None" and ok: "qos_marktbl_hashtbl_add ip rid m s = Inr (OK, t)"
  shows "dir_wf t \<and> table t = (table s)(ip \<mapsto> dir_entry ip rid m)"
proof -
  have W: "table_wf s" "rules_live s" using wf by (simp_all add: dir_wf_def)
  have absent: "lookup s ip = None" using new table_None_iff[OF W(1)] by simp
  have add: "marktbl_hash_add ip rid m s = Inr (OK, t)"
    using ok by (auto simp: qos_marktbl_hashtbl_add_def bindM_eq_Inr thenM_eq_Inr dest!: test_mark_state split: if_splits)
  have room: "\<not> max_ip_cnt s < elem_num (the_head s) + 1"
    using marktbl_hash_add_full[OF W(1), of ip rid m] add by auto
  have rid: "unat (rid - 1) < length (the_rules s)"
    using marktbl_hash_add_oob[OF W(1) room absent W(2), of rid m] add by (cases "unat (rid - 1) < length (the_rules s)") (auto split: if_splits)
  let ?n = "dir_entry ip rid m" and ?a = "advance s"
  have n: "n_src_ip ?n = ip" by (simp add: dir_entry_def)
  have a: "table_wf ?a" "table ?a = table s" "the_head ?a = the_head s" "max_ip_cnt ?a = max_ip_cnt s"
    using table_wf_cong[of ?a s] W(1) by (simp_all add: advance_def)
  have t: "t = count_rule (rid - 1) 1 (insert_node ?n ?a)"
    using marktbl_hash_add_new[OF W(1) room absent W(2) rid] add by (simp add: dir_entry_def split: if_splits)
  note R = dir_room[OF wf room]
  have "table_wf (insert_node ?n ?a)" "table (insert_node ?n ?a) = (table s)(ip \<mapsto> ?n)"
    using insert_node_wf[OF a(1), of ?n] table_insert_node[OF a(1), of ?n] a new R(1) by (simp_all add: n)
  moreover have "elem_num (the_head (insert_node ?n ?a)) \<le> max_ip_cnt (insert_node ?n ?a)"
    using R(2) a by (simp add: insert_node_fields insert_node_def Let_def advance_def)
  moreover have "max_ip_cnt (insert_node ?n ?a) = max_ip_cnt s" by (simp add: insert_node_def Let_def advance_def)
  ultimately show ?thesis
    using wf unfolding t count_rule_def dir_wf_def by (simp add: map_rule_dir)
qed

lemma hashtbl_del_dir:
  assumes wf: "dir_wf s" and del: "qos_marktbl_hashtbl_del ip s = Inr (x, t)"
  shows "dir_wf t \<and> (case table s ip of
      None \<Rightarrow> x = (NO_EXIST, 0) \<and> table t = table s
    | Some n \<Rightarrow> if dir_busy n then x = (COUNT_NOZERO, 0) \<and> table t = table s
        else x = (OK, n_mark n) \<and> table t = (table s)(ip := None))"
proof -
  have W: "table_wf s" "rules_live s" using wf by (simp_all add: dir_wf_def)
  show ?thesis
  proof (cases "table s ip")
    case None
    then have "lookup s ip = None" using table_None_iff[OF W(1)] by simp
    with None wf show ?thesis using qos_marktbl_hashtbl_del_absent[OF W(1)] del by auto
  next
    case (Some n)
    then obtain a where at: "lookup s ip = Some a" "node_heap s a = Some n" by (auto simp: table_def bind_eq_Some_conv)
    have ip: "n_src_ip n = ip" using table_key[OF Some] .
    show ?thesis
    proof (cases "dir_busy n")
      case True
      then show ?thesis using qos_marktbl_hashtbl_del_busy[OF W(1) at] del Some wf by (simp add: dir_busy_def)
    next
      case False
      then have idle: "\<not> 0 < sint (n_count n)" by (simp add: dir_busy_def)
      have rid: "unat (n_id n - 1) < length (the_rules s)"
        using qos_marktbl_hashtbl_del_oob[OF W(1) at idle W(2)] del by auto
      have t: "t = count_rule (n_id n - 1) (- 1) (remove_node a ip s)" and x: "x = (OK, n_mark n)"
        using qos_marktbl_hashtbl_del_spec[OF W(1) at idle W(2) rid] del by auto
      have m: "max_ip_cnt (remove_node a ip s) = max_ip_cnt s" by (simp add: remove_node_def Let_def)
      have "elem_num (the_head s) \<noteq> 0"
        using table_wf_heap[OF W(1) at(2)] table_wfD(6)[OF W(1)] by (metis length_pos_if_in_set less_numeral_extra(3) unat_0)
      then have "elem_num (the_head s) - 1 \<le> elem_num (the_head s)" by (metis word_le_nat_alt unat_minus_one diff_le_self)
      then have "elem_num (the_head (remove_node a ip s)) \<le> max_ip_cnt s"
        using wf by (auto simp: dir_wf_def remove_node_fields)
      then show ?thesis
        using False Some x wf remove_node_wf[OF W(1) at(2) ip] table_remove_node[OF W(1) at(2) ip]
        unfolding t count_rule_def dir_wf_def by (simp add: map_rule_dir m)
    qed
  qed
qed

interpretation dir: mark_directory qos_marktbl_hashtbl_get qos_marktbl_hashtbl_add qos_marktbl_hashtbl_del
  table dir_entry n_mark dir_busy dir_wf
proof (unfold_locales, goal_cases)
  case (1 s k)
  then have "table_wf s" by (simp add: dir_wf_def)
  then show ?case by (simp add: qos_marktbl_hashtbl_get_spec split: option.split)
next
  case (2 s k r m t)
  then show ?case by (rule hashtbl_add_dir)
next
  case (3 s k x t)
  then show ?case by (rule hashtbl_del_dir)
next
  case (4 k r m)
  show ?case by (simp add: dir_entry_def)
next
  case (5 k r m)
  show ?case by (simp add: dir_entry_def dir_busy_def)
qed

end
