(* ===== verification/Props_Tables.thy ===== *)
theory Props_Tables
  imports Qmark_Samples Mark_Directory
begin

text \<open>Properties of the tables: the mark bitmap and the hash table as a directory of addresses.\<close>

lemma sample_boot_wf: "bitmap_wf (sample_boot sample_env)" "dir_wf (sample_boot sample_env)"
  using sample_boot_inv(1)[of sample_env] by (simp_all add: qos_inv_def shape_def dir_wf_def)

lemma sample_one_dir: "dir_wf (sample_one sample_env)" "table_wf (sample_one sample_env)" "rules_live (sample_one sample_env)"
  using sample_one_inv(1)[of sample_env] by (simp_all add: qos_inv_def shape_def dir_wf_def)

text \<open>
  C12: \<open>alloc_mark\<close> hands out every free mark exactly once. From a well-formed bitmap as many calls as
  there are free marks return pairwise different marks that were free before; after them all marks of
  the pool are in use, and the next call returns 0 and changes nothing.
\<close>

theorem alloc_mark_exhausts:
  assumes "bitmap_wf s"
  shows "\<exists>ms t. repeatM (card (mark_pool s - used_marks s)) alloc_mark s = Inr (ms, t) \<and> distinct ms \<and>
    set ms = mark_pool s - used_marks s \<and> used_marks t = mark_pool s \<and> alloc_mark t = Inr (0, t)"
proof -
  let ?k = "card (mark_pool s - used_marks s)"
  obtain ms t where r: "repeatM ?k alloc_mark s = Inr (ms, t)" "length ms = ?k" "distinct ms"
    "set ms \<subseteq> mark_pool s - used_marks s"
    using mk.alloc_many[OF assms order_refl] by blast
  obtain ms' t' where "repeatM ?k alloc_mark s = Inr (ms', t')" "used_marks t' = mark_pool s" "alloc_mark t' = Inr (0, t')"
    using mk.alloc_exhausts[OF assms] by blast
  moreover have "set ms = mark_pool s - used_marks s"
    using r(2-4) by (intro card_subset_eq) (auto simp: distinct_card mark_pool_def)
  ultimately show ?thesis using r by auto
qed

theorem alloc_mark_exhausts_witness:
  "\<exists>ms t. repeatM (card (mark_pool (sample_boot sample_env) - used_marks (sample_boot sample_env))) alloc_mark (sample_boot sample_env) = Inr (ms, t) \<and>
    distinct ms \<and> set ms = mark_pool (sample_boot sample_env) \<and> alloc_mark t = Inr (0, t)"
  using alloc_mark_exhausts[OF sample_boot_wf(1)] by (auto simp: sample_boot_inv(3))

text \<open>
  C13: a mark that \<open>alloc_mark\<close> returned tests as set, and after \<open>free_mark\<close> it tests as clear, while
  the marks in use are those from before the allocation; nothing else of the module's state changes.
\<close>

theorem mark_round_trip:
  assumes "bitmap_wf s" and "alloc_mark s = Inr (m, t)" and "m \<noteq> 0"
  shows "test_mark m t = Inr (True, t) \<and>
    (\<exists>u. free_mark m t = Inr ((), u) \<and> test_mark m u = Inr (False, u) \<and> used_marks u = used_marks s \<and>
      s\<lparr>mark_bitmap := mark_bitmap u\<rparr> = u)"
proof -
  let ?i = "free_slot s"
  have i: "?i < unat (max_ip_cnt s)" and m: "m = mark_of ?i"
    and t: "t = s\<lparr>mark_bitmap := Ptr ((mark_bits s)[?i := True])\<rparr>"
    using assms(2,3) alloc_mark_spec[OF assms(1)] by (auto split: if_splits)
  have len: "?i < length (mark_bits s)" using i bitmap_wfD(2)[OF assms(1)] by simp
  have wt: "bitmap_wf t" and it: "?i < unat (max_ip_cnt t)" and bt: "mark_bits t = (mark_bits s)[?i := True]"
    using assms(1) i unfolding t by simp_all
  let ?u = "t\<lparr>mark_bitmap := Ptr ((mark_bits t)[?i := False])\<rparr>"
  have bu: "mark_bits ?u = (mark_bits s)[?i := False]" using bt by simp
  have wu: "bitmap_wf ?u" and iu: "?i < unat (max_ip_cnt ?u)" using wt it by simp_all
  have clear: "\<not> mark_bits s ! ?i" by (rule free_slot_hit[OF assms(1) i])
  then have "(mark_bits s)[?i := False] = mark_bits s" using len by (metis (full_types) list_update_id)
  then have "used_marks ?u = used_marks s" unfolding used_marks_def bu by (simp add: t)
  moreover have "test_mark m ?u = Inr (False, ?u)"
    unfolding m test_mark_spec[OF wu iu] bu using len by simp
  moreover have "test_mark m t = Inr (True, t)"
    unfolding m test_mark_spec[OF wt it] bt using len by simp
  moreover have "free_mark m t = Inr ((), ?u)" unfolding m by (rule free_mark_spec[OF wt it])
  moreover have "s\<lparr>mark_bitmap := mark_bitmap ?u\<rparr> = ?u" by (simp add: t)
  ultimately show ?thesis by blast
qed

lemma sample_alloc: "alloc_mark (sample_boot sample_env) =
    Inr (0x800, sample_boot sample_env\<lparr>mark_bitmap := Ptr ((replicate 32 False)[0 := True])\<rparr>)"
proof -
  have "take 2 (replicate 32 False) = [False, False]" by (simp add: take_replicate numeral_2_eq_2)
  then have "free_slot (sample_boot sample_env) = 0" by (simp add: free_slot_def)
  then show ?thesis using alloc_mark_spec[OF sample_boot_wf(1)] by (simp add: mark_0)
qed

theorem mark_round_trip_witness:
  "test_mark 0x800 (sample_boot sample_env\<lparr>mark_bitmap := Ptr ((replicate 32 False)[0 := True])\<rparr>) =
    Inr (True, sample_boot sample_env\<lparr>mark_bitmap := Ptr ((replicate 32 False)[0 := True])\<rparr>)"
  using mark_round_trip[OF sample_boot_wf(1) sample_alloc] by simp

text \<open>
  C14: when adding an address to the mark table succeeds, a lookup of that address returns the mark it
  was added with and a lookup of any other address returns what it returned before.
\<close>

theorem hashtbl_get_after_add:
  assumes "dir_wf s" and "table s ip = None" and "qos_marktbl_hashtbl_add ip rid m s = Inr (OK, t)"
  shows "qos_marktbl_hashtbl_get jp t = (if jp = ip then Inr ((OK, m), t)
    else Inr (case table s jp of None \<Rightarrow> (NO_EXIST, 0) | Some n \<Rightarrow> (OK, n_mark n), t))"
  using assms by (rule dir.get_after_add)

text \<open>
  C15: deleting the address that was just added gives its mark back and restores the mapping from
  addresses to nodes.
\<close>

theorem hashtbl_del_after_add:
  assumes "dir_wf s" and "table s ip = None" and "qos_marktbl_hashtbl_add ip rid m s = Inr (OK, t)"
    and "qos_marktbl_hashtbl_del ip t = Inr (x, u)"
  shows "x = (OK, m) \<and> table u = table s \<and> dir_wf u"
  using dir.del_after_add[OF assms] by blast

text \<open>
  Adding an address that the table already holds does not count one more reference, as the branch
  intends: while there is room it increments through a pointer that is still NULL.
\<close>

lemma hash_add_duplicate_faults:
  assumes "table_wf s" and "elem_num (the_head s) + 1 \<le> max_ip_cnt s" and "table s ip = Some n"
  shows "marktbl_hash_add ip rid mark s = Inl NullDeref"
proof -
  obtain a where "lookup s ip = Some a" using assms(3) by (auto simp: table_def bind_eq_Some_conv)
  with assms(1,2) show ?thesis by (intro marktbl_hash_add_dup) (simp_all add: not_less)
qed

lemma sample_one_head: "elem_num (the_head (sample_one sample_env)) = 1"
  by (simp add: sample_one_def count_rule_def insert_node_fields empty_head_def)

lemma hash_add_duplicate_faults_example:
  "marktbl_hash_add sample_ip 1 0x800 (sample_one sample_env) = Inl NullDeref"
  using sample_one_dir(2) sample_one_inv(2)[of sample_env]
  by (intro hash_add_duplicate_faults[where n = sample_node]) (simp_all add: sample_one_head)

text \<open>
  C37: the number of a rule is not checked. Adding a new address under a number that is 0 or above the
  size of the rule table writes outside it, whenever there is room and memory for the node.
\<close>

theorem hash_add_rule_bounds:
  assumes "dir_wf s" and "elem_num (the_head s) < max_ip_cnt s" and "table s ip = None"
    and "kmalloc_ok (env s) (env_time s) (sizeof_marktbl_node (env s))"
    and "rid = 0 \<and> length (the_rules s) < 2 ^ 32 \<or> length (the_rules s) < unat rid"
  shows "marktbl_hash_add ip rid mark s = Inl OutOfBounds"
proof -
  have W: "table_wf s" "rules_live s" using assms(1) by (simp_all add: dir_wf_def)
  have "unat (elem_num (the_head s)) < unat (max_ip_cnt s)" using assms(2) by (simp add: word_less_nat_alt)
  moreover have "unat (max_ip_cnt s) < 2 ^ 32 - 1" using assms(1) by (simp add: dir_wf_def)
  ultimately have "unat (elem_num (the_head s) + 1) = Suc (unat (elem_num (the_head s)))" by (simp add: unat_word_ariths)
  then have room: "\<not> max_ip_cnt s < elem_num (the_head s) + 1"
    using \<open>unat (elem_num (the_head s)) < unat (max_ip_cnt s)\<close> by (simp add: word_less_nat_alt)
  have "unat (0 - 1 :: u32) = 2 ^ 32 - 1" by (simp add: unsigned_minus_1_eq_mask mask_eq_exp_minus_1)
  moreover have "rid \<noteq> 0 \<Longrightarrow> unat (rid - 1) = unat rid - 1" by (simp add: unat_minus_one)
  ultimately have "\<not> unat (rid - 1) < length (the_rules s)" using assms(5) by (cases "rid = 0") auto
  with W room assms(3,4) show ?thesis using marktbl_hash_add_oob[OF W(1) room _ W(2)] table_None_iff[OF W(1)] by simp
qed

theorem hash_add_rule_bounds_witness: "marktbl_hash_add sample_ip 0 0x800 (sample_boot sample_env) = Inl OutOfBounds"
  using sample_boot_wf(2) sample_boot_inv(2,4)[of sample_env]
  by (intro hash_add_rule_bounds) (simp_all add: empty_head_def)

text \<open>Examples for the two laws of the directory.\<close>

definition sample_marked :: kst where
  "sample_marked = put_bit 0 True (sample_boot sample_env)"

lemma sample_marked_add: "\<exists>t. qos_marktbl_hashtbl_add sample_ip 1 0x800 sample_marked = Inr (OK, t) \<and>
    length (the_rules t) = 2 \<and> rules_live t"
proof -
  let ?s = sample_marked
  have b: "bitmap_wf ?s" "mark_bits ?s ! 0" using sample_boot_wf(1) by (simp_all add: sample_marked_def)
  have D: "table_wf ?s" "rules_live ?s" "the_rules ?s = [zero_rule, zero_rule]" "table ?s = Map.empty"
    using sample_boot_wf(2) sample_boot_inv(2,4)[of sample_env] by (simp_all add: sample_marked_def dir_wf_def)
  have "test_mark 0x800 ?s = Inr (True, ?s)"
    using test_mark_spec[OF b(1), of 0] b(2) by (simp add: mark_0 sample_marked_def)
  moreover have "\<exists>t. marktbl_hash_add sample_ip 1 0x800 ?s = Inr (OK, t) \<and> length (the_rules t) = 2 \<and> rules_live t"
    using marktbl_hash_add_new[OF D(1) _ _ D(2), of sample_ip 1 "0x800"] D table_None_iff[OF D(1)]
    by (simp add: sample_marked_def empty_head_def count_rule_def)
  ultimately show ?thesis by (auto simp: qos_marktbl_hashtbl_add_def)
qed

lemma sample_marked_wf: "dir_wf sample_marked" "table sample_marked sample_ip = None"
  using sample_boot_wf(2) sample_boot_inv(2)[of sample_env] by (simp_all add: sample_marked_def dir_wf_def)

theorem hashtbl_get_after_add_witness:
  "\<exists>t. qos_marktbl_hashtbl_add sample_ip 1 0x800 sample_marked = Inr (OK, t) \<and>
    qos_marktbl_hashtbl_get sample_ip t = Inr ((OK, 0x800), t)"
  using sample_marked_add hashtbl_get_after_add[OF sample_marked_wf] by fastforce

theorem hashtbl_del_after_add_witness:
  "\<exists>t u. qos_marktbl_hashtbl_add sample_ip 1 0x800 sample_marked = Inr (OK, t) \<and>
    qos_marktbl_hashtbl_del sample_ip t = Inr ((OK, 0x800), u) \<and> table u = table sample_marked"
proof -
  obtain t where t: "qos_marktbl_hashtbl_add sample_ip 1 0x800 sample_marked = Inr (OK, t)" "length (the_rules t) = 2" "rules_live t"
    using sample_marked_add by blast
  have d: "dir_wf t" "table t = (table sample_marked)(sample_ip \<mapsto> dir_entry sample_ip 1 0x800)"
    using hashtbl_add_dir[OF sample_marked_wf t(1)] by simp_all
  have "\<exists>x u. qos_marktbl_hashtbl_del sample_ip t = Inr (x, u)"
  proof -
    have w: "table_wf t" using d(1) by (simp add: dir_wf_def)
    have "table t sample_ip = Some (dir_entry sample_ip 1 0x800)" using d(2) by simp
    then obtain a where "lookup t sample_ip = Some a" "node_heap t a = Some (dir_entry sample_ip 1 0x800)"
      by (auto simp: table_def bind_eq_Some_conv)
    from qos_marktbl_hashtbl_del_spec[OF w this _ t(3)] t(2) show ?thesis by (auto simp: dir_entry_def)
  qed
  then show ?thesis using t(1) hashtbl_del_after_add[OF sample_marked_wf t(1)] by blast
qed

end
