(* ===== verification/Props_Tc.thy ===== *)
theory Props_Tc
  imports Qmark_Samples
begin

text \<open>Properties of traffic control: the requests that are sent, the rates in them, and their numbers.\<close>

text \<open>
  C16: admitting a mark programs both devices. When both exist and rtnetlink is not locked,
  \<open>qmark_tc_add_rule\<close> sends, in this order, a class, a queue and a filter, each to the LAN and then to
  the WAN device, with the class numbers, rates, ceilings, mask and flow id that \<open>add_msgs\<close> lists; every
  request fits its buffer and every attribute its request.
\<close>

theorem tc_add_requests:
  assumes "both_up D s" and "rule_rates_ok rn"
  shows "\<exists>t ms. qmark_tc_add_rule rn mark s = Inr ((), t) \<and> nl_sent t = nl_sent s @ ms \<and>
    map summary ms = add_msgs D rn mark \<and> list_all req_fits ms"
proof -
  obtain x k l ms where "qmark_tc_add_rule rn mark s = Inr (x, s\<lparr>env_time := k, klog := l, nl_sent := nl_sent s @ ms\<rparr>)"
    "sent_both True (add_msgs D rn mark) x ms"
    using up.add_rule_ok[OF assms(2), of D mark] assms(1) unfolding tcok_def by blast
  then show ?thesis by (auto simp: sent_both_def list_all_iff)
qed

definition sample_rule :: ruletbl_node where
  "sample_rule = zero_rule\<lparr>r_on := True, r_rate_min_mate := 100, r_rate_mate := 1000, r_rate_min := 100, r_rate := 1000\<rparr>"

lemma sample_rule_rates: "rule_rates_ok sample_rule"
  using sample_rates by (simp add: rule_rates_ok_def sample_rule_def zero_rule_def)

theorem tc_add_requests_witness:
  "\<exists>t ms. qmark_tc_add_rule sample_rule 0x800 (sample_boot up_env) = Inr ((), t) \<and> nl_sent t = nl_sent (sample_boot up_env) @ ms \<and>
    map summary ms = add_msgs sample_dev sample_rule 0x800 \<and> list_all req_fits ms"
  by (rule tc_add_requests[OF up_devices sample_rule_rates])

text \<open>
  C17: the deletion removes what the addition made, filters before classes, on both devices, under the
  same handles.
\<close>

theorem tc_del_requests:
  assumes "both_up D s"
  shows "\<exists>t ms. qmark_tc_del_rule rn mark s = Inr ((), t) \<and> nl_sent t = nl_sent s @ ms \<and>
    map summary ms = del_msgs D rn mark \<and> list_all req_fits ms"
proof -
  obtain x k l ms where "qmark_tc_del_rule rn mark s = Inr (x, s\<lparr>env_time := k, klog := l, nl_sent := nl_sent s @ ms\<rparr>)"
    "sent_both True (del_msgs D rn mark) x ms"
    using up.del_rule_ok[of D rn mark] assms unfolding tcok_def by blast
  then show ?thesis by (auto simp: sent_both_def list_all_iff)
qed

theorem tc_del_requests_witness:
  "\<exists>t ms. qmark_tc_del_rule sample_rule 0x800 (sample_boot up_env) = Inr ((), t) \<and> nl_sent t = nl_sent (sample_boot up_env) @ ms \<and>
    map summary ms = del_msgs sample_dev sample_rule 0x800 \<and> list_all req_fits ms"
  by (rule tc_del_requests[OF up_devices])

text \<open>
  C18: whatever the network does - devices missing, rtnetlink locked, sends failing or short - the
  addition returns, leaves the module's tables as they are, and never writes past a request.
\<close>

theorem tc_add_frame:
  assumes "tc_ready s" and "rule_rates_ok rn"
  shows "\<exists>k l ms. qmark_tc_add_rule rn mark s = Inr ((), s\<lparr>env_time := k, klog := l, nl_sent := nl_sent s @ ms\<rparr>) \<and>
    list_all req_fits ms"
proof -
  obtain x k l ms where "qmark_tc_add_rule rn mark s = Inr (x, s\<lparr>env_time := k, klog := l, nl_sent := nl_sent s @ ms\<rparr>)"
    "sent_both False (add_msgs undefined rn mark) x ms"
    using rdy.add_rule_ok[OF assms(2), of mark undefined] assms(1) unfolding tcok_def by blast
  then show ?thesis by (auto simp: sent_both_def list_all_iff)
qed

theorem tc_add_frame_witness:
  "\<exists>k l ms. qmark_tc_add_rule sample_rule 0x800 (sample_boot sample_env) =
     Inr ((), sample_boot sample_env\<lparr>env_time := k, klog := l, nl_sent := nl_sent (sample_boot sample_env) @ ms\<rparr>) \<and>
    list_all req_fits ms"
  by (rule tc_add_frame[OF sample_boot_ready sample_rule_rates]) simp

section \<open>Rates\<close>

text \<open>
  C30: the rate of a class is the configured one. Up to 4294967 kbit the number of bytes per second is
  exactly 125 times the kilobits, and 0 stands for the default.
\<close>

theorem tc_rate_exact:
  assumes "unat kbit \<le> 4294967"
  shows "unat (tc_rate kbit dflt) = (if kbit = 0 then unat dflt else 125 * unat kbit)"
proof -
  have "unat (kbit * 1000) = 1000 * unat kbit" using assms by (simp add: unat_word_ariths)
  then have r: "unat ((kbit * 1000) div 8) = 125 * unat kbit" by (simp add: unat_div)
  show ?thesis
  proof (cases "kbit = 0")
    case False
    then have "unat kbit \<noteq> 0" by (simp add: unat_eq_zero)
    then have "(kbit * 1000) div 8 \<noteq> 0" using r by (metis mult_eq_0_iff unat_0 zero_neq_numeral)
    with r False show ?thesis by (simp add: tc_rate_def Let_def)
  qed (simp add: tc_rate_def)
qed

theorem tc_rate_exact_witness: "unat (tc_rate 100000 125) = 12500000"
  using tc_rate_exact[of 100000 125] by simp

text \<open>
  Above that the product wraps: for every rate the bytes per second are an eighth of 1000 times the
  kilobits modulo \<open>2\<^sup>3\<^sup>2\<close> (or the default where that is 0); 4294968 kbit, about 4.3 Gbit, become 88 bytes.
\<close>

lemma tc_rate_wraps:
  "unat (tc_rate kbit dflt) =
     (let r = (1000 * unat kbit mod 2 ^ 32) div 8 in if r = 0 then unat dflt else r) \<and>
   tc_rate 4294968 125 = 88"
proof -
  have r: "unat ((kbit * 1000) div 8) = (1000 * unat kbit mod 2 ^ 32) div 8"
    by (simp add: unat_div unat_word_ariths mult.commute)
  then have "(kbit * 1000) div 8 = 0 \<longleftrightarrow> (1000 * unat kbit mod 2 ^ 32) div 8 = 0" by (metis unat_eq_zero)
  with r show ?thesis by (auto simp: tc_rate_def Let_def)
qed

lemma calc_rtable_zero: "rs_rate r div 10 = 0 \<Longrightarrow> qmark_tc_calc_rtable r cl mtu s = Inl DivideByZero"
  by (simp add: qmark_tc_calc_rtable_def Let_def)

text \<open>
  C33: a rate that comes out below ten bytes per second divides by zero. Under such a rule the addition
  of a class stops the kernel as soon as the LAN device is found.
\<close>

theorem tc_add_divides_by_zero:
  assumes "both_up D s" and "unat (tc_rate (r_rate_min_mate rn) 125) < 10"
  shows "qmark_tc_add_rule rn mark s = Inl DivideByZero"
proof -
  have z: "tc_rate (r_rate_min_mate rn) 125 div 10 = 0"
  proof -
    have "unat (tc_rate (r_rate_min_mate rn) 125 div 10) = 0" using assms(2) by (simp add: unat_div)
    then show ?thesis by (simp only: unat_eq_zero)
  qed
  have parse: "tc_htb_opt_parse n (r_rate_min_mate rn) c mtu t = Inl DivideByZero" for n c mtu t
    using z by (simp add: tc_htb_opt_parse_def calc_rtable_zero Let_def)
  have "\<exists>t. get_dev 0 s = Inr (Some (D 0), t)"
    using assms(1) by (auto simp: get_dev_def both_up_def tc_ready_def cstr_def dev_name_def)
  then obtain t where t: "get_dev 0 s = Inr (Some (D 0), t)" by blast
  show ?thesis
    by (simp add: qmark_tc_add_rule_def tc_htb_class_modify_def both_devices_def Let_def t rdy.addattr_kind(1) parse new_req_def
      del: sizeof_req_def)
qed

theorem tc_add_divides_by_zero_witness:
  "qmark_tc_add_rule (zero_rule\<lparr>r_rate_min_mate := 115964117\<rparr>) 0x800 (sample_boot up_env) = Inl DivideByZero"
  by (rule tc_add_divides_by_zero[OF up_devices]) (simp add: tc_rate_def)

section \<open>Rate tables\<close>

lemma cell_log_from: "cell_log_loop mtu k = (LEAST c. k \<le> c \<and> unat (drop_bit c mtu) \<le> 255)"
proof (induction mtu k rule: cell_log_loop.induct)
  case (1 mtu k)
  show ?case
  proof (cases "255 < unat (drop_bit k mtu)")
    case True
    then have "cell_log_loop mtu k = (LEAST c. Suc k \<le> c \<and> unat (drop_bit c mtu) \<le> 255)"
      using 1 by (simp add: cell_log_loop.simps[of mtu k])
    also have "\<dots> = (LEAST c. k \<le> c \<and> unat (drop_bit c mtu) \<le> 255)"
      using True by (intro arg_cong[where f = Least] ext) (metis Suc_le_eq le_less not_le order_le_less)
    finally show ?thesis .
  next
    case False
    then show ?thesis
      by (subst cell_log_loop.simps) (auto intro!: Least_equality[symmetric])
  qed
qed

text \<open>
  C31: the loop that looks for the cell size ends for every mtu, with the smallest shift that brings the
  mtu below 256, which is at most 24.
\<close>

theorem cell_log_least:
  "cell_log_loop mtu 0 = (LEAST c. unat (drop_bit c mtu) \<le> 255) \<and>
   unat (drop_bit (cell_log_loop mtu 0) mtu) \<le> 255 \<and> cell_log_loop mtu 0 \<le> 24"
proof -
  have l: "cell_log_loop mtu 0 = (LEAST c. unat (drop_bit c mtu) \<le> 255)" using cell_log_from[of mtu 0] by simp
  have "unat mtu < 2 ^ 32" using unsigned_less[of mtu, where ?'a = nat] by simp
  then have h: "unat (drop_bit 24 mtu) \<le> 255"
    by (simp add: drop_bit_eq_div unat_div)
  note least = LeastI[where P = "\<lambda>c. unat (drop_bit c mtu) \<le> 255", OF h]
    Least_le[where P = "\<lambda>c. unat (drop_bit c mtu) \<le> 255", OF h]
  show ?thesis unfolding l by (intro conjI least refl)
qed

section \<open>Class numbers\<close>

definition tc_slot :: "u32 \<Rightarrow> u32 \<Rightarrow> bool" where
  "tc_slot devid off \<longleftrightarrow> 1 \<le> unat devid \<and> unat devid \<le> 13 \<and> 1 \<le> unat off \<and> unat off \<le> 4096"

lemma unat_class_minor:
  assumes "tc_slot d m"
  shows "unat (class_minor d m) = (unat d + 1) * 4096 + unat m"
proof -
  have "unat (d + 1) = unat d + 1" using assms by (simp add: tc_slot_def unat_word_ariths)
  moreover have "d \<noteq> 0" using assms by (auto simp: tc_slot_def)
  ultimately show ?thesis using assms by (simp add: class_minor_def tc_slot_def unat_word_ariths)
qed

lemma pair_digits:
  fixes a b c d :: nat
  assumes "1 \<le> b" "b \<le> 4096" "1 \<le> d" "d \<le> 4096"
  shows "(a + 1) * 4096 + b = (c + 1) * 4096 + d \<longleftrightarrow> a = c \<and> b = d"
  using assms by (cases a c rule: linorder_cases) auto

text \<open>
  C32: with the default of 4096 addresses the classes of devices 1 to 13 have minor numbers of 16 bits,
  different for different devices or marks, and different from the number of every parent class.
\<close>

theorem class_minor_unique:
  assumes "tc_slot d m" and "tc_slot e n"
  shows "unat (class_minor d m) < 2 ^ 16 \<and> (class_minor d m = class_minor e n \<longleftrightarrow> d = e \<and> m = n) \<and>
    class_minor d m \<noteq> parent_minor e"
proof (intro conjI)
  note u = unat_class_minor[OF assms(1)] unat_class_minor[OF assms(2)]
  show "unat (class_minor d m) < 2 ^ 16" using assms(1) by (simp add: u tc_slot_def)
  show "class_minor d m = class_minor e n \<longleftrightarrow> d = e \<and> m = n"
    unfolding word_unat_eq_iff u using assms pair_digits[of "unat m" "unat n" "unat d" "unat e"] by (auto simp: tc_slot_def)
  have "unat (parent_minor e) \<le> 14" using assms(2) by (auto simp: parent_minor_def tc_slot_def unat_word_ariths)
  then show "class_minor d m \<noteq> parent_minor e" using assms(1) u(1) by (auto simp: tc_slot_def)
qed

theorem class_minor_unique_witness: "class_minor 1 1 \<noteq> class_minor 2 1"
  using class_minor_unique[of 1 1 2 1] by (simp add: tc_slot_def)

end
