(* ===== verification/Qmark_Admin.thy ===== *)
theory Qmark_Admin
  imports Module_Init
begin

text \<open>
  The calls that rebuild or empty whole tables: \<open>qmark_set_spec\<close>, \<open>qmark_flush_hash\<close>,
  \<open>qmark_flush_mark\<close>, \<open>qmark_reset\<close>, \<open>qmark_dump\<close>. A new specification for which memory is available
  gives a state that satisfies the invariant; where the code drops the result of an allocation, or
  empties one table and not the others, the lemmas say what is left.
\<close>

section \<open>Setting the specification\<close>

text \<open>The three tables are gone.\<close>

definition torn_down :: "kst \<Rightarrow> kst" where
  "torn_down s = s\<lparr>node_heap := \<lambda>_. None, g_marktbl_head := Null, g_ruletbl := Null, mark_bitmap := Null\<rparr>"

lemma tear_down:
  assumes "qos_inv s"
  shows "thenM op_lock (thenM qos_marktbl_hashtbl_exit (thenM qos_ruletbl_exit (thenM mark_bitmap_exit m))) s =
    m (torn_down s\<lparr>qmark_op_lock := True\<rparr>)"
proof -
  note S = shapeD[OF conjunct1[OF qos_invD[OF assms]]]
  let ?s = "s\<lparr>qmark_op_lock := True\<rparr>"
  have "table_wf ?s" using S(2) table_wf_cong(1)[of ?s s] by simp
  note x = qos_marktbl_hashtbl_exit_spec[OF this]
  have l: "op_lock s = Inr ((), ?s)" using S(4) by (simp add: quiet_intro(1))
  show ?thesis
    using S(3) bitmap_wfD(1)[OF S(1)] x l
    by (simp add: qos_ruletbl_exit_def mark_bitmap_exit_def rules_live_def torn_down_def kst_sort)
qed

definition respecified :: "u32 \<Rightarrow> u32 \<Rightarrow> kst \<Rightarrow> kst" where
  "respecified ips rules s = torn_down s\<lparr>qmark_op_lock := True, max_ip_cnt := ips, max_rule_cnt := rules\<rparr>"

lemma qmark_set_spec_unfold:
  assumes "qos_inv s"
  shows "qmark_set_spec ips rules s =
    thenM (mark_bitmap_init ips) (thenM qos_ruletbl_init (thenM qos_marktbl_hashtbl_init op_unlock)) (respecified ips rules s)"
  unfolding qmark_set_spec_def tear_down[OF assms] by (simp add: respecified_def kst_sort)

text \<open>Memory for the four allocations, the bitmap, the rules, the head and the buckets.\<close>

definition spec_memory :: "u32 \<Rightarrow> u32 \<Rightarrow> kst \<Rightarrow> bool" where
  "spec_memory ips rules s \<longleftrightarrow>
     kmalloc_ok (env s) (env_time s) (bitmap_bytes s ips) \<and>
     kmalloc_ok (env s) (Suc (env_time s)) (36 * unat rules) \<and>
     kmalloc_ok (env s) (Suc (Suc (env_time s))) (sizeof_marktbl_head (env s)) \<and>
     kmalloc_ok (env s) (Suc (Suc (Suc (env_time s)))) (unat ips * (long_bits (env s) div 8))"

lemma respecified_fields:
  "env (respecified ips rules s) = env s" "env_time (respecified ips rules s) = env_time s"
  "max_ip_cnt (respecified ips rules s) = ips" "max_rule_cnt (respecified ips rules s) = rules"
  "node_heap (respecified ips rules s) = (\<lambda>_. None)" "g_marktbl_head (respecified ips rules s) = Null"
  "g_ruletbl (respecified ips rules s) = Null" "mark_bitmap (respecified ips rules s) = Null"
  "qmark_lan_dev (respecified ips rules s) = qmark_lan_dev s" "qmark_wan_dev (respecified ips rules s) = qmark_wan_dev s"
  "reset_flag (respecified ips rules s) = reset_flag s" "qmark_op_lock (respecified ips rules s)"
  by (simp_all add: respecified_def torn_down_def)

lemma bitmap_bytes_env: "env t = env s \<Longrightarrow> bitmap_bytes t c = bitmap_bytes s c"
  by (simp add: bitmap_bytes_def BITS_TO_LONGS_def size_t_def)

lemma qmark_set_spec_ok:
  assumes inv: "qos_inv s" and fits: "spec_fits (env s) ips rules" and mem: "spec_memory ips rules s"
  shows "\<exists>t. qmark_set_spec ips rules s = Inr ((), t) \<and> qos_inv t \<and> max_ip_cnt t = ips \<and> max_rule_cnt t = rules \<and>
    table t = Map.empty \<and> used_marks t = {} \<and> the_rules t = replicate (unat rules) zero_rule \<and> reset_flag t = reset_flag s"
proof -
  note S = shapeD[OF conjunct1[OF qos_invD[OF inv]]] and R = respecified_fields[of ips rules s]
  let ?r = "respecified ips rules s" and ?n = "8 * bitmap_bytes s ips"
  let ?u = "?r\<lparr>env_time := Suc (env_time s), mark_bitmap := Ptr (replicate ?n False)\<rparr>"
  let ?v = "?u\<lparr>env_time := Suc (Suc (env_time s)), g_ruletbl := Ptr (replicate (unat rules) zero_rule)\<rparr>"
  let ?w = "?v\<lparr>env_time := Suc (Suc (env_time s)) + 2, g_marktbl_head := Ptr (empty_head ips)\<rparr>"
  let ?t = "?w\<lparr>qmark_op_lock := False\<rparr>"
  have b: "bitmap_bytes ?r ips = bitmap_bytes s ips" using R(1) by (rule bitmap_bytes_env)
  have "mark_bitmap_init ips ?r = Inr (OK, ?u)" using mem R by (simp add: mark_bitmap_init_spec b spec_memory_def)
  moreover have "qos_ruletbl_init ?u = Inr (OK, ?v)"
    using mem fits R by (subst qos_ruletbl_init_spec) (auto simp: spec_memory_def spec_fits_def)
  moreover have "qos_marktbl_hashtbl_init ?v = Inr (0, ?w)"
    using mem fits R by (subst qos_marktbl_hashtbl_init_spec) (auto simp: spec_memory_def spec_fits_def)
  ultimately have eq: "qmark_set_spec ips rules s = Inr ((), ?t)"
    unfolding qmark_set_spec_unfold[OF inv] by (simp add: op_unlock_app del: quiet_ops)
  have c: "unat ips \<le> ?n" using bitmap_bytes_cover(1)[of ?r rules] fits R b by simp
  have cfg: "cfg_ok ?t" using fits S(5) R by (simp add: cfg_ok_def tc_ready_def)
  have "qos_inv ?t" "table ?t = Map.empty" "used_marks ?t = {}" "the_rules ?t = replicate (unat (max_rule_cnt ?t)) zero_rule"
    by (rule booted_inv[OF cfg, of ?n]; simp add: R c)+
  then show ?thesis using eq R by (intro exI[of _ ?t]) simp
qed

text \<open>
  The results of the allocations are dropped: without memory for the bitmap the call returns all the
  same, and the next allocation of a mark goes through a NULL pointer.
\<close>

lemma qmark_set_spec_no_bitmap:
  assumes inv: "qos_inv s" and fits: "spec_fits (env s) ips rules"
    and none: "\<not> kmalloc_ok (env s) (env_time s) (bitmap_bytes s ips)"
  shows "\<exists>t. qmark_set_spec ips rules s = Inr ((), t) \<and> qmark_alloc_mark t = Inl NullDeref"
proof -
  note R = respecified_fields[of ips rules s] and S = shapeD[OF conjunct1[OF qos_invD[OF inv]]]
  let ?r = "respecified ips rules s"
  let ?u = "?r\<lparr>env_time := Suc (env_time s), mark_bitmap := Null\<rparr>"
  have b: "bitmap_bytes ?r ips = bitmap_bytes s ips" using R(1) by (rule bitmap_bytes_env)
  have bi: "mark_bitmap_init ips ?r = Inr (ALLOC_FAIL, ?u)" using none R by (simp add: mark_bitmap_init_spec b)
  have cfg: "cfg_ok ?u" using fits S(5) R by (simp add: cfg_ok_def tc_ready_def)
  obtain r v where v: "qos_ruletbl_init ?u = Inr (r, v)" "mark_bitmap v = Null" "cfg_ok v"
    using qos_ruletbl_init_cases[OF cfg] cfg by (cases "kmalloc_ok (env ?u) (env_time ?u) (36 * unat (max_rule_cnt ?u))")
      (auto simp: cfg_ok_def tc_ready_def)
  obtain r' w where w: "qos_marktbl_hashtbl_init v = Inr (r', w)" "mark_bitmap w = Null"
    using qos_marktbl_hashtbl_init_cases[OF v(3)] v(2) by auto
  have "qmark_set_spec ips rules s = Inr ((), w\<lparr>qmark_op_lock := False\<rparr>)"
    unfolding qmark_set_spec_unfold[OF inv] using bi v(1) w(1) by (simp add: op_unlock_app del: quiet_ops)
  moreover have "qmark_alloc_mark (w\<lparr>qmark_op_lock := False\<rparr>) = Inl NullDeref"
    using w(2) by (simp add: qmark_alloc_mark_def alloc_mark_def find_first_zero_bit_def quiet_intro(1) del: quiet_quiet)
  ultimately show ?thesis by blast
qed

section \<open>Emptying the hash table\<close>

definition table_memory :: "kst \<Rightarrow> bool" where
  "table_memory s \<longleftrightarrow> kmalloc_ok (env s) (env_time s) (sizeof_marktbl_head (env s)) \<and>
     kmalloc_ok (env s) (Suc (env_time s)) (unat (max_ip_cnt s) * (long_bits (env s) div 8))"

lemma flush_tear_down:
  assumes "qos_inv s"
  shows "qmark_flush_hash s = thenM qos_marktbl_hashtbl_init op_unlock
    (s\<lparr>qmark_op_lock := True, node_heap := \<lambda>_. None, g_marktbl_head := Null\<rparr>)"
proof -
  note S = shapeD[OF conjunct1[OF qos_invD[OF assms]]]
  let ?s = "s\<lparr>qmark_op_lock := True\<rparr>"
  have "table_wf ?s" using S(2) table_wf_cong(1)[of ?s s] by simp
  note x = qos_marktbl_hashtbl_exit_spec[OF this]
  have l: "op_lock s = Inr ((), ?s)" using S(4) by (simp add: quiet_intro(1))
  show ?thesis unfolding qmark_flush_hash_def using x l by simp
qed

text \<open>All addresses are forgotten, but the bitmap and the rules keep what belonged to them.\<close>

lemma qmark_flush_hash_ok:
  assumes inv: "qos_inv s" and fits: "spec_fits (env s) (max_ip_cnt s) (max_rule_cnt s)" and mem: "table_memory s"
  shows "\<exists>t. qmark_flush_hash s = Inr ((), t) \<and> table_wf t \<and> table t = Map.empty \<and>
    used_marks t = used_marks s \<and> the_rules t = the_rules s \<and> \<not> qmark_op_lock t"
proof -
  let ?s = "s\<lparr>qmark_op_lock := True, node_heap := \<lambda>_. None, g_marktbl_head := Null\<rparr>"
  let ?u = "?s\<lparr>env_time := env_time s + 2, g_marktbl_head := Ptr (empty_head (max_ip_cnt s))\<rparr>"
  let ?t = "?u\<lparr>qmark_op_lock := False\<rparr>"
  have "qos_marktbl_hashtbl_init ?s = Inr (0, ?u)"
    using mem fits by (subst qos_marktbl_hashtbl_init_spec) (auto simp: table_memory_def spec_fits_def)
  then have eq: "qmark_flush_hash s = Inr ((), ?t)"
    unfolding flush_tear_down[OF inv] by (simp add: op_unlock_app del: quiet_ops)
  have "table_wf ?t" "table ?t ip = None" for ip
    by (rule empty_head_wf[of _ "max_ip_cnt s"]; use fits in \<open>simp add: spec_fits_def\<close>)+
  moreover have "used_marks ?t = used_marks s" by (rule bitmap_cong) simp_all
  moreover have "the_rules ?t = the_rules s" by (simp add: the_rules_def)
  ultimately show ?thesis using eq by (intro exI[of _ ?t]) auto
qed

lemma flush_leaks:
  assumes "qos_inv s" "table s \<noteq> Map.empty" "table t = Map.empty" "used_marks t = used_marks s"
  shows "\<not> qos_inv t"
proof
  assume "qos_inv t"
  obtain ip n where "table s ip = Some n" using assms(2) by (auto simp: fun_eq_iff)
  then have "n_mark n \<in> used_marks t" using view_node(3)[OF assms(1)] assms(4) by simp
  with \<open>qos_inv t\<close> assms(3) show False by (auto simp: qos_inv_def view_ok_def no_leak_def)
qed

text \<open>
  When the bucket array cannot be allocated the head is freed, but the global pointer to it stays:
  the next packet's lookup reads freed memory.
\<close>

lemma qmark_flush_hash_dangling:
  assumes inv: "qos_inv s" and fits: "spec_fits (env s) (max_ip_cnt s) (max_rule_cnt s)"
    and mem: "kmalloc_ok (env s) (env_time s) (sizeof_marktbl_head (env s))"
      "\<not> kmalloc_ok (env s) (Suc (env_time s)) (unat (max_ip_cnt s) * (long_bits (env s) div 8))"
  shows "\<exists>t. qmark_flush_hash s = Inr ((), t) \<and> qmark_find_hash ip t = Inl UseAfterFree"
proof -
  let ?s = "s\<lparr>qmark_op_lock := True, node_heap := \<lambda>_. None, g_marktbl_head := Null\<rparr>"
  let ?u = "?s\<lparr>env_time := Suc (Suc (env_time s)), g_marktbl_head := Dangling\<rparr>"
  have f: "unat (max_ip_cnt s) * (long_bits (env s) div 8) < 2 ^ long_bits (env s)"
    using fits by (auto simp: spec_fits_def)
  have "qos_marktbl_hashtbl_init ?s = Inr (ERROR, ?u)"
    using mem f by (simp add: qos_marktbl_hashtbl_init_def size_t_def kmalloc_app kst_sort del: quiet_ops)
  then have eq: "qmark_flush_hash s = Inr ((), ?u\<lparr>qmark_op_lock := False\<rparr>)"
    unfolding flush_tear_down[OF inv] by (simp add: op_unlock_app del: quiet_ops)
  have "qmark_find_hash ip (?u\<lparr>qmark_op_lock := False\<rparr>) = Inl UseAfterFree"
    by (simp add: qmark_find_hash_def qos_marktbl_hashtbl_get_def marktbl_hash_get_def hash_index_def hash_fn_val)
  with eq show ?thesis by blast
qed

section \<open>Resetting\<close>

text \<open>The start of a reset never ends: \<open>qmark_flush_hash\<close> waits for the lock its caller holds.\<close>

lemma flush_mark_ok:
  assumes "shape s" "spec_fits (env s) (max_ip_cnt s) rules" "length (mark_bits s) = 8 * bitmap_bytes s (max_ip_cnt s)"
  shows "flush_mark s = Inr ((), s\<lparr>mark_bitmap := Ptr (replicate (length (mark_bits s)) False)\<rparr>)"
  using assms bitmap_wfD(1)[OF shapeD(1)[OF assms(1)]] bitmap_bytes_cover(2)[OF assms(2)]
  by (simp add: flush_mark_def)

lemma qmark_reset_deadlock:
  assumes inv: "qos_inv s" and flag: "flag \<noteq> 0" and fits: "spec_fits (env s) (max_ip_cnt s) rules"
    and len: "length (mark_bits s) = 8 * bitmap_bytes s (max_ip_cnt s)"
  shows "qmark_reset flag s = Inl Deadlock"
proof -
  note S = shapeD[OF conjunct1[OF qos_invD[OF inv]]]
  let ?s = "s\<lparr>reset_flag := True, qmark_op_lock := True\<rparr>"
  have n: "BITS_TO_LONGS ?s (unat (max_ip_cnt s)) * long_bits (env s) \<le> length (mark_bits s)"
    using bitmap_bytes_cover(2)[OF fits] len by (simp add: BITS_TO_LONGS_def size_t_def)
  obtain t where t: "flush_mark ?s = Inr ((), t)" "qmark_op_lock t"
    using n bitmap_wfD(1)[OF S(1)] by (simp add: flush_mark_def)
  have "qmark_flush_hash t = Inl Deadlock" using t(2) by (simp add: qmark_flush_hash_def)
  with t show ?thesis using flag S(4) by (simp add: qmark_reset_def op_lock_free kst_sort del: quiet_ops)
qed

text \<open>An empty specification: every lookup divides by the table's size.\<close>

lemma zero_spec_divides:
  assumes "g_marktbl_head s = Ptr (empty_head 0)"
  shows "qmark_find_hash ip s = Inl DivideByZero"
  using assms by (simp add: qmark_find_hash_def qos_marktbl_hashtbl_get_def marktbl_hash_get_def hash_index_def
    hash_fn_val empty_head_def)

lemma qmark_set_spec_zero:
  assumes inv: "qos_inv s" and mem: "spec_memory 0 rules s" and fits: "36 * unat rules < 2 ^ long_bits (env s)"
  shows "\<exists>t. qmark_set_spec 0 rules s = Inr ((), t) \<and> qmark_find_hash ip t = Inl DivideByZero"
proof -
  note R = respecified_fields[of 0 rules s]
  let ?r = "respecified 0 rules s" and ?n = "8 * bitmap_bytes s 0"
  let ?u = "?r\<lparr>env_time := Suc (env_time s), mark_bitmap := Ptr (replicate ?n False)\<rparr>"
  let ?v = "?u\<lparr>env_time := Suc (Suc (env_time s)), g_ruletbl := Ptr (replicate (unat rules) zero_rule)\<rparr>"
  let ?w = "?v\<lparr>env_time := Suc (Suc (env_time s)) + 2, g_marktbl_head := Ptr (empty_head 0)\<rparr>"
  have b: "bitmap_bytes ?r 0 = bitmap_bytes s 0" using R(1) by (rule bitmap_bytes_env)
  have "mark_bitmap_init 0 ?r = Inr (OK, ?u)" using mem R by (simp add: mark_bitmap_init_spec b spec_memory_def)
  moreover have "qos_ruletbl_init ?u = Inr (OK, ?v)"
    using mem fits R by (subst qos_ruletbl_init_spec) (auto simp: spec_memory_def)
  moreover have "qos_marktbl_hashtbl_init ?v = Inr (0, ?w)"
    using mem R by (subst qos_marktbl_hashtbl_init_spec) (auto simp: spec_memory_def)
  ultimately have eq: "qmark_set_spec 0 rules s = Inr ((), ?w\<lparr>qmark_op_lock := False\<rparr>)"
    unfolding qmark_set_spec_unfold[OF inv] by (simp add: op_unlock_app del: quiet_ops)
  have "qmark_find_hash ip (?w\<lparr>qmark_op_lock := False\<rparr>) = Inl DivideByZero" by (rule zero_spec_divides) simp
  with eq show ?thesis by blast
qed

end
