(* ===== verification/Props_System.thy ===== *)
theory Props_System
  imports Qmark_Samples Qmark_Admin
begin

text \<open>
  Properties of the running module: the calls refine the transitions of \<open>Qmark_Model\<close>, scripts of legal
  calls are safe, and what loading, unloading and reconfiguring leave behind.
\<close>

section \<open>Safety\<close>

text \<open>In a consistent module the marks of two known addresses are equal exactly when one shared rule has both.\<close>

lemma same_mark_iff:
  assumes "qos_inv u" and "table u ip = Some n" and "table u jp = Some n'"
  shows "n_mark n = n_mark n' \<longleftrightarrow> ip = jp \<or> n_id n = n_id n' \<and> r_mode (the_rules u ! rule_ix n) \<noteq> PRIV_MODE"
proof
  have V: "marks_separate (view u)" "marks_shared (view u)" using assms(1) by (simp_all add: qos_inv_def view_ok_def)
  have ids: "rule_ix n = rule_ix n' \<Longrightarrow> n_id n = n_id n'" by (simp add: rule_ix_def word_unat_eq_iff[symmetric])
  show "n_mark n = n_mark n' \<Longrightarrow> ip = jp \<or> n_id n = n_id n' \<and> r_mode (the_rules u ! rule_ix n) \<noteq> PRIV_MODE"
    using V(1) assms(2,3) ids unfolding marks_separate_def by auto
  show "ip = jp \<or> n_id n = n_id n' \<and> r_mode (the_rules u ! rule_ix n) \<noteq> PRIV_MODE \<Longrightarrow> n_mark n = n_mark n'"
    using V(2) assms(2,3) unfolding marks_shared_def by (auto simp: rule_ix_def)
qed

text \<open>
  C1: a loaded module never faults under legal use. After a successful load, any sequence of packets,
  conntrack events, lookups, releases and rule changes - rule numbers in range, rules changed only
  while they have no addresses - returns from every call, and leaves consistent tables: an address has
  a mark of its own or shares it with the addresses of its shared rule, every rule counts its
  addresses, and no mark is in use without an address.
\<close>

theorem module_safe:
  assumes "unloaded s" and "regs_fresh (kregs s)" and "cfg_ok s"
    and "qos_marktbl_init s = Inr (r, t)" and "0 \<le> r" and "legal_all run_call legal_call cs t"
  shows "\<exists>u. run_all run_call cs t = Inr ((), u) \<and> qos_inv u \<and> view_ok (view u)"
proof -
  have "qos_inv t" using qos_marktbl_init_leads[OF assms(1-3)] assms(4,5) by (simp add: leads_def load_ok_def)
  then show ?thesis using sys.run_all_safe[OF _ assms(6)] by (auto simp: qos_inv_def)
qed

definition sample_packet :: sk_buff where
  "sample_packet = \<lparr>ip_hdr = Some \<lparr>saddr = sample_ip, daddr = 0x08080808\<rparr>, skb_mark = 0x12\<rparr>"

definition sample_info :: xt_qmark_tginfo where
  "sample_info = \<lparr>tg_mask = 0xfff800, tg_id = 1, tg_dir = 0\<rparr>"

theorem module_safe_witness:
  "\<exists>t u. qos_marktbl_init (module_start sample_env) = Inr (1, t) \<and>
    run_all run_call [Packet sample_packet sample_info, ListRules, Conntrack 0x80 None, Release sample_ip] t = Inr ((), u) \<and> view_ok (view u)"
proof -
  obtain t where t: "qos_marktbl_init (module_start sample_env) = Inr (1, t)" "length (the_rules t) = 128"
    using sample_load by auto
  have "legal_all run_call legal_call [Packet sample_packet sample_info, ListRules, Conntrack 0x80 None, Release sample_ip] t"
    using t(2) by (simp add: rule_number_def sample_info_def split: sum.split)
  from module_safe[OF module_start_ok(1-3)[OF machine_envs[OF fits_envs(1)]] t(1) zero_le_one this] t(1) show ?thesis by blast
qed

text \<open>
  C6: marks tell addresses apart. After a successful load and any legal calls, two addresses that the lookup
  answers have the same mark exactly when they are the same address or addresses of the same shared rule:
  no two addresses of private rules, and no addresses of different rules, are ever given one mark, and
  the addresses of a shared rule are all given the same.
\<close>

theorem marks_are_separate:
  assumes "unloaded s" and "regs_fresh (kregs s)" and "cfg_ok s"
    and "qos_marktbl_init s = Inr (r, t)" and "0 \<le> r" and "legal_all run_call legal_call cs t"
  shows "\<exists>u. run_all run_call cs t = Inr ((), u) \<and>
    (\<forall>ip jp m k. qmark_find_hash ip u = Inr ((OK, m), u) \<and> qmark_find_hash jp u = Inr ((OK, k), u) \<longrightarrow>
      (\<exists>n n'. table u ip = Some n \<and> table u jp = Some n' \<and>
        (m = k \<longleftrightarrow> ip = jp \<or> n_id n = n_id n' \<and> r_mode (the_rules u ! rule_ix n) \<noteq> PRIV_MODE)))"
proof -
  have "qos_inv t" using qos_marktbl_init_leads[OF assms(1-3)] assms(4,5) by (simp add: leads_def load_ok_def)
  then obtain u where u: "run_all run_call cs t = Inr ((), u)" "qos_inv u" using sys.run_all_safe[OF _ assms(6)] by blast
  have "\<exists>n n'. table u ip = Some n \<and> table u jp = Some n' \<and>
      (m = k \<longleftrightarrow> ip = jp \<or> n_id n = n_id n' \<and> r_mode (the_rules u ! rule_ix n) \<noteq> PRIV_MODE)"
    if f: "qmark_find_hash ip u = Inr ((OK, m), u)" "qmark_find_hash jp u = Inr ((OK, k), u)" for ip jp m k
  proof -
    obtain n n' where T: "table u ip = Some n" "table u jp = Some n'" "n_mark n = m" "n_mark n' = k"
      using f qmark_find_hash_spec[OF u(2)] by (auto split: option.splits)
    then show ?thesis using same_mark_iff[OF u(2) T(1,2)] by blast
  qed
  with u(1) show ?thesis by blast
qed

text \<open>Two packets of different addresses under one private rule.\<close>

definition sample_packet' :: sk_buff where
  "sample_packet' = \<lparr>ip_hdr = Some \<lparr>saddr = sample_jp, daddr = 0x08080808\<rparr>, skb_mark = 0\<rparr>"

lemma first_packet:
  assumes inv: "qos_inv s" and e: "env s = sample_env" "max_ip_cnt s = 4096" "\<not> reset_flag s" and hdr: "ip_hdr skb = Some iph"
    and new: "table s (packet_ip iph info) = None" and rid: "rule_number s (tg_id info)"
    and priv: "r_mode (the_rules s ! unat (tg_id info - 1)) = PRIV_MODE"
    and few: "used_marks s \<subseteq> {m}" and room: "card (dom (table s)) < 2"
  shows "\<exists>t j. run_call (Packet skb info) s = Inr ((), t) \<and> qos_inv t \<and> same_config s t \<and>
    view t = admit_fresh (packet_ip iph info) (tg_id info) (mark_of j) (view s)"
proof -
  have S: "shape s" using inv by (simp add: qos_inv_def)
  note D = shapeD[OF S]
  have "mark_of 0 \<in> mark_pool s" "mark_of 1 \<in> mark_pool s"
    unfolding mark_pool_def using e(2) by (rule_tac imageI; simp)+
  moreover have "mark_of 0 \<noteq> mark_of 1" by (simp add: mark_of_def)
  ultimately have "used_marks s \<noteq> mark_pool s" using few by blast
  then have k: "free_slot s < unat (max_ip_cnt s)" using free_slot_iff[OF D(1)] by simp
  have ok: "has_room s" "node_memory s" using has_room_iff[OF S] room e by (simp_all add: node_memory_def)
  have un: "unshared (the_rules s ! unat (tg_id info - 1))" using priv by (simp add: unshared_def)
  obtain t where t: "shape t" "same_config s t"
    "qmark_alloc_mark_auto (packet_ip iph info) (tg_id info) 0 s = Inr ((OK, mark_of (free_slot s)), t)"
    "view t = admit_fresh (packet_ip iph info) (tg_id info) (mark_of (free_slot s)) (view s)"
    using auto_fresh[OF S rid[unfolded rule_number_def] new e(3) un k, of 0] ok by auto
  have "view_ok (view t)"
    unfolding t(4) using inv new rid un slot_not_used[OF D(1) k] room_bound(2)[OF S]
    by (intro admit_fresh_ok) (simp_all add: qos_inv_def rule_number_def)
  then have "qos_inv t" using t(1) by (simp add: qos_inv_def)
  moreover have "run_call (Packet skb info) s = Inr ((), t)"
    using t(3) hdr new qmark_find_hash_spec[OF inv, of "packet_ip iph info"]
    by (simp add: discard_def qmark_tg_def qmark_handle_def)
  ultimately show ?thesis using t(2,4) by blast
qed

theorem marks_are_separate_witness:
  "\<exists>t u m k. qos_marktbl_init (module_start sample_env) = Inr (1, t) \<and>
    run_all run_call [Packet sample_packet sample_info, Packet sample_packet' sample_info] t = Inr ((), u) \<and>
    qmark_find_hash sample_ip u = Inr ((OK, m), u) \<and> qmark_find_hash sample_jp u = Inr ((OK, k), u) \<and> m \<noteq> k"
proof -
  obtain t where t: "qos_marktbl_init (module_start sample_env) = Inr (1, t)" "the_rules t = replicate 128 zero_rule"
    "env t = sample_env" "max_ip_cnt t = 4096" "\<not> reset_flag t" using sample_load by auto
  note start = module_start_ok[OF machine_envs[OF fits_envs(1)]]
  have T: "qos_inv t" "table t = Map.empty" "used_marks t = {}"
    using qos_marktbl_init_leads[OF start(1-3)] t(1) by (simp_all add: leads_def load_ok_def)
  have ips: "packet_ip \<lparr>saddr = x, daddr = y\<rparr> sample_info = x" for x y by (simp add: packet_ip_def sample_info_def)
  have id: "tg_id sample_info = 1" by (simp add: sample_info_def)
  obtain t1 i where t1: "run_call (Packet sample_packet sample_info) t = Inr ((), t1)" "qos_inv t1" "same_config t t1"
      "view t1 = admit_fresh sample_ip 1 (mark_of i) (view t)"
    using first_packet[OF T(1) t(3-5), of sample_packet "\<lparr>saddr = sample_ip, daddr = 0x08080808\<rparr>" sample_info 0] T t(2)
    by (auto simp: ips id sample_packet_def rule_number_def zero_rule_def)
  have v1: "table t1 = [sample_ip \<mapsto> \<lparr>n_src_ip = sample_ip, n_id = 1, n_mark = mark_of i, n_count = 0\<rparr>]" "used_marks t1 = {mark_of i}"
    "length (the_rules t1) = 128" "r_mode (the_rules t1 ! 0) = PRIV_MODE"
    using arg_cong[OF t1(4), of v_table] arg_cong[OF t1(4), of v_used] arg_cong[OF t1(4), of v_rules] T t(2)
    by (simp_all add: admit_fresh_def Let_def zero_rule_def)
  have c1: "env t1 = sample_env" "max_ip_cnt t1 = 4096" "\<not> reset_flag t1" using t1(3) t(3-5) by (simp_all add: same_config_def)
  obtain u j where u: "run_call (Packet sample_packet' sample_info) t1 = Inr ((), u)" "qos_inv u"
      "view u = admit_fresh sample_jp 1 (mark_of j) (view t1)"
    using first_packet[OF t1(2) c1, of sample_packet' "\<lparr>saddr = sample_jp, daddr = 0x08080808\<rparr>" sample_info "mark_of i"] v1
    by (auto simp: ips id sample_packet'_def rule_number_def sample_ip_def sample_jp_def)
  have vu: "table u sample_ip = Some \<lparr>n_src_ip = sample_ip, n_id = 1, n_mark = mark_of i, n_count = 0\<rparr>"
    "table u sample_jp = Some \<lparr>n_src_ip = sample_jp, n_id = 1, n_mark = mark_of j, n_count = 0\<rparr>" "r_mode (the_rules u ! 0) = PRIV_MODE"
    using arg_cong[OF u(3), of v_table] arg_cong[OF u(3), of v_rules] v1
    by (simp_all add: admit_fresh_def Let_def sample_ip_def sample_jp_def)
  have find: "qmark_find_hash sample_ip u = Inr ((OK, mark_of i), u)" "qmark_find_hash sample_jp u = Inr ((OK, mark_of j), u)"
    unfolding qmark_find_hash_spec[OF u(2)] vu by simp_all
  have run: "run_all run_call [Packet sample_packet sample_info, Packet sample_packet' sample_info] t = Inr ((), u)"
    using t1(1) u(1) by (simp del: run_call.simps)
  have legal: "legal_all run_call legal_call [Packet sample_packet sample_info, Packet sample_packet' sample_info] t"
    using t1(1) u(1) t(2) v1(3) by (simp del: run_call.simps add: rule_number_def id)
  have "\<forall>ip jp m k. qmark_find_hash ip u = Inr ((OK, m), u) \<and> qmark_find_hash jp u = Inr ((OK, k), u) \<longrightarrow>
      (\<exists>n n'. table u ip = Some n \<and> table u jp = Some n' \<and>
        (m = k \<longleftrightarrow> ip = jp \<or> n_id n = n_id n' \<and> r_mode (the_rules u ! rule_ix n) \<noteq> PRIV_MODE))"
    using marks_are_separate[OF start(1-3) t(1) zero_le_one legal] unfolding run by blast
  from this[rule_format, OF conjI, OF find] vu
  have "mark_of i \<noteq> mark_of j" by (auto simp: sample_ip_def sample_jp_def)
  with t(1) run find show ?thesis by blast
qed

section \<open>Admission\<close>

text \<open>
  C3: \<open>qmark_alloc_mark_auto\<close> refines the admission of the specification. For a new address and a rule
  number in range it succeeds exactly when the module is not being reset, the table has room, the node
  can be allocated and a mark is free or shared; then it returns the granted mark and the view becomes
  \<open>admit\<close>. Otherwise it returns an error and no address or mark in use changes, at most an unshared
  rule's stale mark being cleared.
\<close>

theorem alloc_mark_auto_refines:
  assumes "qos_inv s" and "rule_number s rid" and "table s ip = None"
  shows "\<exists>t. qos_inv t \<and> (if admissible rid s
    then qmark_alloc_mark_auto ip rid m0 s = Inr ((OK, granted_mark rid s), t) \<and> view t = admit ip rid s
    else (\<exists>m. qmark_alloc_mark_auto ip rid m0 s = Inr ((ERROR, m), t)) \<and>
      (view t = view s \<or> unshared (the_rules s ! unat (rid - 1)) \<and> view t = configure rid (\<lambda>r. r\<lparr>r_mark := 0\<rparr>) (view s)))"
  using assms unfolding rule_number_def by (intro alloc_mark_auto_cases)

lemma sample_boot_rule: "rule_number (sample_boot sample_env) 1"
  using sample_boot_inv(4)[of sample_env] by (simp add: rule_number_def)

lemma sample_boot_admissible: "admissible 1 (sample_boot sample_env)"
proof -
  have "mark_of 0 \<in> mark_pool (sample_boot sample_env)" by (simp add: mark_pool_def)
  then have "mark_pool (sample_boot sample_env) \<noteq> {}" by blast
  then show ?thesis
    using sample_boot_inv(3)[of sample_env] by (simp add: admissible_def has_room_def node_memory_def empty_head_def)
qed

theorem alloc_mark_auto_refines_witness:
  "\<exists>t. qos_inv t \<and> qmark_alloc_mark_auto sample_ip 1 0 (sample_boot sample_env) = Inr ((OK, granted_mark 1 (sample_boot sample_env)), t) \<and>
    view t = admit sample_ip 1 (sample_boot sample_env)"
  using alloc_mark_auto_refines[OF sample_boot_inv(1) sample_boot_rule, of sample_ip 0] sample_boot_admissible
  by (auto simp: sample_boot_inv(2))

section \<open>Conntrack\<close>

text \<open>
  C4: the conntrack handler refines the specification for every event: a connection that is not IPv4, is
  untracked or carries no mark changes nothing; the end of a connection takes one from its address,
  and the last one makes the address leave, releasing its mark when it is not shared; a marked
  connection adds one.
\<close>

theorem conntrack_refines:
  assumes "qos_inv s"
  shows "\<exists>t. qmark_conntrack_event events ct s = Inr ((), t) \<and> qos_inv t \<and> view t = ct_transition s events ct (view s)"
  by (rule qmark_conntrack_event_cases[OF assms])

lemma sample_ct_leave: "ct_transition (sample_one sample_env) 4 (Some sample_conn) (view (sample_one sample_env)) =
    leave sample_ip (view (sample_one sample_env))"
  using sample_one_inv(2)[of sample_env]
  by (simp add: ct_transition_def ct_relevant_def sample_conn_def event_bit_def ct_ip_addr_def last_conn_def sample_node_def)

theorem conntrack_refines_witness:
  "\<exists>t. qmark_conntrack_event 4 (Some sample_conn) (sample_one sample_env) = Inr ((), t) \<and> table t = Map.empty \<and> used_marks t = {}"
proof -
  obtain t where t: "qmark_conntrack_event 4 (Some sample_conn) (sample_one sample_env) = Inr ((), t)"
    "view t = ct_transition (sample_one sample_env) 4 (Some sample_conn) (view (sample_one sample_env))"
    using conntrack_refines[OF sample_one_inv(1), of sample_env 4 "Some sample_conn"] by auto
  have "v_table (view t) = Map.empty" "v_used (view t) = {}"
    unfolding t(2) sample_ct_leave using sample_one_inv(2-4)[of sample_env]
    by (simp_all add: leave_def sample_node_def rule_ix_def unshared_def zero_rule_def)
  with t(1) show ?thesis by simp
qed

text \<open>
  C5: \<open>qmark_del_hash\<close> takes one connection from the address; when it was the last, the address leaves and
  the call returns OK with the mark that was released. Otherwise, and for an unknown address, it
  returns an error.
\<close>

theorem del_hash_refines:
  assumes "qos_inv s"
  shows "\<exists>t. qos_inv t \<and> (case table s ip of
      None \<Rightarrow> qmark_del_hash ip m0 s = Inr ((ERROR, m0), t) \<and> view t = view s
    | Some n \<Rightarrow> if last_conn n then qmark_del_hash ip m0 s = Inr ((OK, n_mark n), t) \<and> view t = leave ip (view s)
        else qmark_del_hash ip m0 s = Inr ((ERROR, m0), t) \<and> view t = recount ip (- 1) (view s))"
  by (rule qmark_del_hash_cases[OF assms])

theorem del_hash_refines_witness:
  "\<exists>t. qmark_del_hash sample_ip 0 (sample_one sample_env) = Inr ((OK, 0x800), t) \<and>
    view t = leave sample_ip (view (sample_one sample_env))"
  using del_hash_refines[OF sample_one_inv(1), of sample_env sample_ip 0] sample_one_inv(2)[of sample_env]
  by (auto simp: last_conn_def sample_node_def)

section \<open>Rules\<close>

text \<open>
  C22: adding a rule in range that no address is under sets exactly that rule's switch, mode, device and
  rates and keeps the invariant, when the rates are such that the rate tables can be computed.
\<close>

theorem add_rule_configures:
  assumes "qos_inv s" and "idle_rule s rid"
    and "rate_ok rate_min_mate 125" and "rate_ok rate_mate 125000000" and "rate_ok rate_min 125" and "rate_ok rate 125000000"
  shows "\<exists>t. qmark_add_rule rid mode devid rate rate_mate rate_min rate_min_mate s = Inr ((), t) \<and> qos_inv t \<and>
    view t = configure rid (rule_settings mode devid rate rate_mate rate_min rate_min_mate) (view s)"
  using assms by (intro qmark_add_rule_cases) (auto simp: idle_rule_def rule_number_def rule_rates_ok_def rule_settings_def)

lemma sample_boot_idle: "idle_rule (sample_boot sample_env) 1"
  using sample_boot_inv(4)[of sample_env] by (simp add: idle_rule_def rule_number_def zero_rule_def)

theorem add_rule_configures_witness:
  "\<exists>t. qmark_add_rule 1 0 2 1000 1000 100 100 (sample_boot sample_env) = Inr ((), t) \<and> qos_inv t"
  using add_rule_configures[OF sample_boot_inv(1) sample_boot_idle, of 100 1000 100 1000] sample_rates by auto

text \<open>
  The rule list reports every rule of the table once, in order, and changes nothing but the log.
\<close>

lemma list_rule_reports:
  assumes "qos_inv s"
  shows "qmark_list_rule s = Inr ((), s\<lparr>klog := klog s @
    (''  id  mode mark     count devid rate    rate_mate rate_min rate_min_mate'', []) #
    map (rule_line s) [0..<length (the_rules s)]\<rparr>)"
  using qos_invD[OF assms, THEN conjunct1] by (intro qmark_list_rule_spec) (simp_all add: shape_def)

lemma list_rule_reports_example:
  "\<exists>t. qmark_list_rule (sample_one sample_env) = Inr ((), t) \<and> length (klog t) = length (klog (sample_one sample_env)) + 3"
  using list_rule_reports[OF sample_one_inv(1), of sample_env] sample_one_inv(4)[of sample_env] by simp

section \<open>Loading and unloading\<close>

text \<open>
  C20: loading is all or nothing. Whatever kernel calls fail, \<open>qos_marktbl_init\<close> returns; with a negative
  result nothing of the module is left - no bitmap, no rule table, no head of the hash table with its buckets,
  no node, no registration - and otherwise the invariant holds, with no address known and no mark in use.
\<close>

theorem load_all_or_nothing:
  assumes "unloaded s" and "\<not> head_live s" and "regs_fresh (kregs s)" and "cfg_ok s"
  shows "\<exists>r t. qos_marktbl_init s = Inr (r, t) \<and>
    (if r < 0 then unloaded t \<and> \<not> head_live t
     else qos_inv t \<and> table t = Map.empty \<and> used_marks t = {} \<and> NotifierR \<in> held (kregs t))"
proof -
  obtain r t where "qos_marktbl_init s = Inr (r, t)" "load_ok False r t"
    using qos_marktbl_init_leads[OF assms(1,3,4)] assms(2) by (auto simp: leads_def)
  then show ?thesis by (intro exI[of _ r] exI[of _ t]) (auto simp: load_ok_def split: if_splits)
qed

theorem load_all_or_nothing_witness:
  "\<exists>r t. qos_marktbl_init (module_start (no_memory_env 2)) = Inr (r, t) \<and> (if r < 0 then unloaded t \<and> \<not> head_live t else qos_inv t)"
  using load_all_or_nothing[of "module_start (no_memory_env 2)"] module_start_ok[OF machine_envs[OF fits_envs(3)], of 2]
  by (metis (full_types))

definition fully_registered :: "kst \<Rightarrow> bool" where
  "fully_registered s \<longleftrightarrow> stage_dev (s\<lparr>kregs := (kregs s)\<lparr>held := held (kregs s) - {NotifierR}\<rparr>\<rparr>)"

text \<open>
  C21: unloading a running module releases every table and every registration.
\<close>

theorem unload_releases:
  assumes "qos_inv s" and "fully_registered s"
  shows "\<exists>t. qos_marktbl_exit s = Inr ((), t) \<and> unloaded t \<and> g_marktbl_head t = Null"
  using qos_marktbl_exit_leads[OF assms[unfolded fully_registered_def]] by (auto simp: leads_def)

theorem unload_releases_witness:
  "\<exists>t. qos_marktbl_exit (sample_boot sample_env) = Inr ((), t) \<and> unloaded t \<and> g_marktbl_head t = Null"
  by (rule unload_releases[OF sample_boot_inv(1)])
    (auto simp: fully_registered_def stage_dev_def sample_regs_def dev_live_def)

section \<open>Reconfiguration\<close>

text \<open>
  C23: with memory for the new tables \<open>qmark_set_spec\<close> leaves a module of the new size with no address, no
  mark in use and cleared rules, and the invariant holds again.
\<close>

theorem set_spec_resizes:
  assumes "qos_inv s" and "spec_fits (env s) ips rules" and "spec_memory ips rules s"
  shows "\<exists>t. qmark_set_spec ips rules s = Inr ((), t) \<and> qos_inv t \<and> max_ip_cnt t = ips \<and> max_rule_cnt t = rules \<and>
    table t = Map.empty \<and> used_marks t = {} \<and> the_rules t = replicate (unat rules) zero_rule"
  using qmark_set_spec_ok[OF assms] by blast

theorem set_spec_resizes_witness:
  "\<exists>t. qmark_set_spec 1 1 (sample_one sample_env) = Inr ((), t) \<and> qos_inv t \<and> max_ip_cnt t = 1 \<and> table t = Map.empty"
  using set_spec_resizes[OF sample_one_inv(1), of sample_env 1 1] sample_fits(2)[of sample_env] by (auto simp: spec_memory_def)

text \<open>
  Without memory for the bitmap the failure is dropped, and the next allocation of a mark
  dereferences NULL.
\<close>

lemma set_spec_without_memory:
  assumes "qos_inv s" and "spec_fits (env s) ips rules"
    and "\<not> kmalloc_ok (env s) (env_time s) (bitmap_bytes s ips)"
  shows "\<exists>t. qmark_set_spec ips rules s = Inr ((), t) \<and> qmark_alloc_mark t = Inl NullDeref"
  by (rule qmark_set_spec_no_bitmap[OF assms])

lemma set_spec_without_memory_example:
  "\<exists>t. qmark_set_spec 1 1 (sample_one (no_memory_env 0)) = Inr ((), t) \<and> qmark_alloc_mark t = Inl NullDeref"
  by (rule set_spec_without_memory[OF sample_one_inv(1)]) (simp_all add: sample_fits)

text \<open>
  A specification of zero addresses is accepted, and the next lookup, so the next packet, divides by
  the size of the table, which is zero.
\<close>

lemma set_spec_zero_divides:
  assumes "qos_inv s" and "spec_memory 0 rules s" and "36 * unat rules < 2 ^ long_bits (env s)"
  shows "\<exists>t. qmark_set_spec 0 rules s = Inr ((), t) \<and> qmark_find_hash ip t = Inl DivideByZero"
  by (rule qmark_set_spec_zero[OF assms])

lemma set_spec_zero_divides_example:
  "\<exists>t. qmark_set_spec 0 1 (sample_one sample_env) = Inr ((), t) \<and> qmark_find_hash sample_ip t = Inl DivideByZero"
  by (rule set_spec_zero_divides[OF sample_one_inv(1)]) (simp_all add: spec_memory_def)

text \<open>
  Flushing the hash table forgets every address but releases no mark and resets no rule's count: after a
  flush of a table that was not empty the marks in use are those from before, and the invariant is lost.
\<close>

lemma flush_hash_leaks:
  assumes "qos_inv s" and "spec_fits (env s) (max_ip_cnt s) (max_rule_cnt s)" and "table_memory s" and "table s ip \<noteq> None"
  shows "\<exists>t. qmark_flush_hash s = Inr ((), t) \<and> table t = Map.empty \<and> used_marks t = used_marks s \<and>
    the_rules t = the_rules s \<and> \<not> qos_inv t"
proof -
  obtain t where t: "qmark_flush_hash s = Inr ((), t)" "table t = Map.empty" "used_marks t = used_marks s" "the_rules t = the_rules s"
    using qmark_flush_hash_ok[OF assms(1-3)] by blast
  moreover have "table s \<noteq> Map.empty" using assms(4) by auto
  ultimately show ?thesis using flush_leaks[OF assms(1)] by blast
qed

lemma flush_hash_leaks_example:
  "\<exists>t. qmark_flush_hash (sample_one sample_env) = Inr ((), t) \<and> used_marks t = {0x800} \<and> \<not> qos_inv t"
  using flush_hash_leaks[OF sample_one_inv(1), of sample_env sample_ip] sample_fits(1)[of sample_env]
    sample_one_inv(2,3)[of sample_env] by (auto simp: table_memory_def)

text \<open>
  C39: when memory runs out between the head of the table and its buckets, the flush frees the head but
  keeps the pointer to it, and the next lookup reads freed memory.
\<close>

theorem flush_hash_dangles:
  assumes "qos_inv s" and "spec_fits (env s) (max_ip_cnt s) (max_rule_cnt s)"
    and "kmalloc_ok (env s) (env_time s) (sizeof_marktbl_head (env s))"
    and "\<not> kmalloc_ok (env s) (Suc (env_time s)) (unat (max_ip_cnt s) * (long_bits (env s) div 8))"
  shows "\<exists>t. qmark_flush_hash s = Inr ((), t) \<and> qmark_find_hash ip t = Inl UseAfterFree"
  by (rule qmark_flush_hash_dangling[OF assms])

theorem flush_hash_dangles_witness:
  "\<exists>t. qmark_flush_hash (sample_one (no_memory_env 1)) = Inr ((), t) \<and> qmark_find_hash sample_ip t = Inl UseAfterFree"
  by (rule flush_hash_dangles[OF sample_one_inv(1)]) (simp_all add: sample_fits)

definition bitmap_exact :: "kst \<Rightarrow> bool" where
  "bitmap_exact s \<longleftrightarrow> length (mark_bits s) = 8 * bitmap_bytes s (max_ip_cnt s)"

text \<open>
  C38: a reset with a flag other than 0 never returns on a multiprocessor: \<open>qmark_reset\<close> holds
  \<open>qmark_op_lock\<close> when it calls \<open>qmark_flush_hash\<close>, which takes it again.
\<close>

theorem reset_deadlocks:
  assumes "qos_inv s" and "flag \<noteq> 0" and "spec_fits (env s) (max_ip_cnt s) (max_rule_cnt s)" and "bitmap_exact s"
  shows "qmark_reset flag s = Inl Deadlock"
  by (rule qmark_reset_deadlock[OF assms[unfolded bitmap_exact_def]])

theorem reset_deadlocks_witness: "qmark_reset 1 (sample_boot sample_env) = Inl Deadlock"
  by (rule reset_deadlocks[OF sample_boot_inv(1)])
    (simp_all add: sample_fits bitmap_exact_def bitmap_bytes_def BITS_TO_LONGS_def size_t_def)

end
