(* ===== verification/Xt_Module.thy ===== *)
theory Xt_Module
  imports Xt_Qmark Module_Init
begin

text \<open>Registering the target: \<open>qmark_tg_init\<close> and \<open>qmark_tg_exit\<close> of \<open>xt_kmod/xt_qmark.c\<close>.\<close>

record xt_target =
  xt_name :: string
  xt_revision :: nat
  xt_family :: nfproto
  xt_handler :: "sk_buff option \<Rightarrow> xt_qmark_tginfo \<Rightarrow> (u32 \<times> sk_buff) kop"
  xt_targetsize :: nat

definition qmark_tg_reg :: xt_target where
  "qmark_tg_reg = \<lparr>xt_name = ''qmark'', xt_revision = 0, xt_family = NFPROTO_UNSPEC, xt_handler = qmark_tg,
     xt_targetsize = sizeof_cstruct tginfo_t\<rparr>"

definition qmark_tg_init :: "int kop" where
  "qmark_tg_init =
    bindM (kcall ''xt_register_target'') (\<lambda>r.
    if r < 0 then ret r else thenM (hold TargetR) (ret 0))"

definition qmark_tg_exit :: "unit kop" where
  "qmark_tg_exit = put_back TargetR"

lemma runs_tg_init: "runs qmark_tg_init g (\<lambda>r g'. r \<le> 0 \<and>
    g' = (if r < 0 then g else g\<lparr>held := insert TargetR (held g)\<rparr>))"
  unfolding qmark_tg_init_def by (intro runs_bind runs_kcall runs_if runs_then runs_hold runs_ret) auto

lemma runs_tg_exit: "runs qmark_tg_exit g (\<lambda>_ g'. g' = g\<lparr>held := held g - {TargetR}\<rparr>)"
  unfolding qmark_tg_exit_def by (intro runs_put_back) simp

end
