(* ===== verification/C_Text.thy ===== *)
theory C_Text
  imports Qos_Prelude
begin

text \<open>
  The part of C's formatted input and output that the user-space programs use: \<open>%d\<close>, \<open>%x\<close> and \<open>%s\<close>
  of \<open>printf\<close> and \<open>sscanf\<close>. Input stops at the first conversion that does not match, as \<open>sscanf\<close> does,
  so the variables after it keep their values. Numbers outside the range of \<open>int\<close>, for which C leaves
  the result open, are reduced modulo \<open>2\<^sup>3\<^sup>2\<close> when they are stored.
\<close>

section \<open>Digits\<close>

definition digit_char :: "nat \<Rightarrow> char" where
  "digit_char d = (if d < 10 then char_of (48 + d) else char_of (87 + d))"

definition digit_val :: "char \<Rightarrow> nat option" where
  "digit_val c = (let n = of_char c :: nat in
     if 48 \<le> n \<and> n \<le> 57 then Some (n - 48)
     else if 97 \<le> n \<and> n \<le> 102 then Some (n - 87)
     else if 65 \<le> n \<and> n \<le> 70 then Some (n - 55)
     else None)"

definition is_digit :: "nat \<Rightarrow> char \<Rightarrow> bool" where
  "is_digit b c = (case digit_val c of Some d \<Rightarrow> d < b | None \<Rightarrow> False)"

lemma digit_val_char: "d < 16 \<Longrightarrow> digit_val (digit_char d) = Some d"
  by (simp add: digit_val_def digit_char_def Let_def)

lemma is_digit_char: "d < b \<Longrightarrow> b \<le> 16 \<Longrightarrow> is_digit b (digit_char d)"
  by (simp add: is_digit_def digit_val_char)

section \<open>Printing and reading a number\<close>

fun digits :: "nat \<Rightarrow> nat \<Rightarrow> string" where
  "digits b n = (if b < 2 \<or> n < b then [digit_char n] else digits b (n div b) @ [digit_char (n mod b)])"

declare digits.simps [simp del]

fun read_digits :: "nat \<Rightarrow> nat \<Rightarrow> string \<Rightarrow> nat \<times> string" where
  "read_digits b acc [] = (acc, [])"
| "read_digits b acc (c # cs) =
     (case digit_val c of
        Some d \<Rightarrow> if d < b then read_digits b (acc * b + d) cs else (acc, c # cs)
      | None \<Rightarrow> (acc, c # cs))"

definition ends_number :: "nat \<Rightarrow> string \<Rightarrow> bool" where
  "ends_number b cs \<longleftrightarrow> (case cs of [] \<Rightarrow> True | c # _ \<Rightarrow> \<not> is_digit b c)"

lemma read_stop: "ends_number b cs \<Longrightarrow> read_digits b acc cs = (acc, cs)"
  by (cases cs) (auto simp: ends_number_def is_digit_def split: option.splits)

lemma digits_nonempty: "digits b n \<noteq> []"
  by (subst digits.simps) simp

lemma digits_digit: "2 \<le> b \<Longrightarrow> b \<le> 16 \<Longrightarrow> c \<in> set (digits b n) \<Longrightarrow> is_digit b c"
proof (induction b n rule: digits.induct)
  case (1 b n)
  show ?case
  proof (cases "n < b")
    case True
    with 1 show ?thesis by (simp add: digits.simps[of b n] is_digit_char)
  next
    case False
    with 1 show ?thesis by (auto simp: digits.simps[of b n] is_digit_char)
  qed
qed

lemma read_digits_append:
  "2 \<le> b \<Longrightarrow> b \<le> 16 \<Longrightarrow> read_digits b acc (digits b n @ rest) = read_digits b (acc * b ^ length (digits b n) + n) rest"
proof (induction b n arbitrary: acc rest rule: digits.induct)
  case (1 b n)
  show ?case
  proof (cases "n < b")
    case True
    with 1 show ?thesis by (simp add: digits.simps[of b n] digit_val_char)
  next
    case False
    then have "read_digits b acc (digits b n @ rest) =
        read_digits b (acc * b ^ length (digits b (n div b)) + n div b) (digit_char (n mod b) # rest)"
      using 1 by (simp add: digits.simps[of b n])
    also have "\<dots> = read_digits b ((acc * b ^ length (digits b (n div b)) + n div b) * b + n mod b) rest"
    proof -
      have "n mod b < b" "n mod b < 16" using 1(2,3) by (auto intro: less_le_trans[of _ b] mod_less_divisor)
      then show ?thesis by (simp add: digit_val_char)
    qed
    also have "(acc * b ^ length (digits b (n div b)) + n div b) * b + n mod b = acc * b ^ length (digits b n) + n"
      using False 1(2) by (simp add: digits.simps[of b n] algebra_simps)
    finally show ?thesis .
  qed
qed

text \<open>Reading back a printed number gives the number and what followed it.\<close>

lemma read_digits_print:
  "2 \<le> b \<Longrightarrow> b \<le> 16 \<Longrightarrow> ends_number b rest \<Longrightarrow> read_digits b 0 (digits b n @ rest) = (n, rest)"
  by (simp add: read_digits_append read_stop)

section \<open>Conversions\<close>

text \<open>\<open>%x\<close> prints an unsigned number, \<open>%d\<close> reads its argument as a signed one.\<close>

definition print_x :: "u32 \<Rightarrow> string" where
  "print_x w = digits 16 (unat w)"

definition print_d :: "u32 \<Rightarrow> string" where
  "print_d w = (if sint w < 0 then CHR ''-'' # digits 10 (nat (- sint w)) else digits 10 (nat (sint w)))"

definition is_space :: "char \<Rightarrow> bool" where
  "is_space c \<longleftrightarrow> c \<in> {CHR '' '', CHR 0x09, CHR 0x0A, CHR 0x0B, CHR 0x0C, CHR 0x0D}"

fun scan_sign :: "string \<Rightarrow> bool \<times> string" where
  "scan_sign [] = (False, [])"
| "scan_sign (c # cs) = (if c = CHR ''-'' then (True, cs) else if c = CHR ''+'' then (False, cs) else (False, c # cs))"

definition scan_digits :: "nat \<Rightarrow> bool \<Rightarrow> string \<Rightarrow> (int \<times> string) option" where
  "scan_digits b neg cs = (if ends_number b cs then None
     else let (n, rest) = read_digits b 0 cs in Some (if neg then - int n else int n, rest))"

definition skip_0x :: "string \<Rightarrow> string" where
  "skip_0x cs = (case cs of
     a # x # c # rest \<Rightarrow> if a = CHR ''0'' \<and> (x = CHR ''x'' \<or> x = CHR ''X'') \<and> is_digit 16 c then c # rest else cs
   | _ \<Rightarrow> cs)"

definition scan_d :: "string \<Rightarrow> (int \<times> string) option" where
  "scan_d cs = (let (neg, cs') = scan_sign (dropWhile is_space cs) in scan_digits 10 neg cs')"

definition scan_x :: "string \<Rightarrow> (int \<times> string) option" where
  "scan_x cs = (let (neg, cs') = scan_sign (dropWhile is_space cs) in scan_digits 16 neg (skip_0x cs'))"

definition scan_s :: "string \<Rightarrow> (string \<times> string) option" where
  "scan_s cs = (let cs' = dropWhile is_space cs in
     if cs' = [] then None else Some (takeWhile (\<lambda>c. \<not> is_space c) cs', dropWhile (\<lambda>c. \<not> is_space c) cs'))"

datatype conv = ConvD | ConvX | ConvS | Lit char | Space
datatype scanned = Num int | Word string

fun sscanf :: "conv list \<Rightarrow> string \<Rightarrow> scanned list" where
  "sscanf [] cs = []"
| "sscanf (ConvD # fs) cs = (case scan_d cs of None \<Rightarrow> [] | Some (n, rest) \<Rightarrow> Num n # sscanf fs rest)"
| "sscanf (ConvX # fs) cs = (case scan_x cs of None \<Rightarrow> [] | Some (n, rest) \<Rightarrow> Num n # sscanf fs rest)"
| "sscanf (ConvS # fs) cs = (case scan_s cs of None \<Rightarrow> [] | Some (w, rest) \<Rightarrow> Word w # sscanf fs rest)"
| "sscanf (Lit c # fs) cs = (case cs of [] \<Rightarrow> [] | d # rest \<Rightarrow> if d = c then sscanf fs rest else [])"
| "sscanf (Space # fs) cs = sscanf fs (dropWhile is_space cs)"

section \<open>Round trips\<close>

lemma digit_not_space: "is_digit b c \<Longrightarrow> \<not> is_space c"
  by (auto simp: is_digit_def digit_val_def is_space_def Let_def split: if_splits option.splits)

lemma digit_not_sign: "is_digit b c \<Longrightarrow> c \<noteq> CHR ''-'' \<and> c \<noteq> CHR ''+''"
  by (auto simp: is_digit_def digit_val_def Let_def)

lemma digits_Cons:
  assumes "2 \<le> b" "b \<le> 16"
  obtains c cs where "digits b n = c # cs" "is_digit b c"
  using digits_nonempty[of b n] digits_digit[OF assms, of _ n] by (cases "digits b n") auto

lemma scan_digits_print:
  assumes "2 \<le> b" "b \<le> 16" "ends_number b rest"
  shows "scan_digits b neg (digits b n @ rest) = Some (if neg then - int n else int n, rest)"
proof -
  obtain c cs where "digits b n = c # cs" "is_digit b c" using digits_Cons[OF assms(1,2)] .
  then have "\<not> ends_number b (digits b n @ rest)" by (simp add: ends_number_def)
  then show ?thesis using read_digits_print[OF assms] by (simp add: scan_digits_def)
qed

lemma scan_sign_digits:
  assumes "2 \<le> b" "b \<le> 16"
  shows "dropWhile is_space (digits b n @ rest) = digits b n @ rest" "scan_sign (digits b n @ rest) = (False, digits b n @ rest)"
proof -
  obtain c cs where c: "digits b n = c # cs" "is_digit b c" using digits_Cons[OF assms] .
  from c digit_not_space digit_not_sign
  show "dropWhile is_space (digits b n @ rest) = digits b n @ rest" "scan_sign (digits b n @ rest) = (False, digits b n @ rest)"
    by auto
qed

text \<open>\<open>%d\<close> reads back what \<open>%d\<close> printed.\<close>

lemma scan_print_d:
  assumes "ends_number 10 rest"
  shows "scan_d (print_d w @ rest) = Some (sint w, rest)"
proof (cases "sint w < 0")
  case True
  then have "dropWhile is_space (print_d w @ rest) = print_d w @ rest" by (simp add: print_d_def is_space_def)
  with True show ?thesis
    using scan_digits_print[of 10 rest True] assms by (simp add: scan_d_def print_d_def)
next
  case False
  then show ?thesis
    using scan_digits_print[of 10 rest False] scan_sign_digits[of 10] assms by (simp add: scan_d_def print_d_def)
qed

lemma scan_d_digits: "ends_number 10 rest \<Longrightarrow> scan_d (digits 10 n @ rest) = Some (int n, rest)"
  using scan_digits_print[of 10 rest False n] scan_sign_digits[of 10 n] by (simp add: scan_d_def)

lemma ends_number_simps [simp]:
  "ends_number b []" "ends_number b (CHR ''.'' # cs)" "ends_number b (CHR '' '' # cs)"
  by (simp_all add: ends_number_def is_digit_def digit_val_def)

end
