(* ===== verification/Libxt_Qmark.thy ===== *)
theory Libxt_Qmark
  imports C_Text Xt_Qmark
begin

text \<open>
  The iptables side of the target, \<open>xt_lib/libxt_qmark.c\<close>: its options, the call-backs \<open>qmark_parse\<close> and
  \<open>qmark_check\<close>, and the two printers. \<open>xtables_option_parse\<close>, which reads the text of an option's
  value, is a library routine and a parameter here; \<open>xtables_error\<close> leaves the program, which is the
  left side of a result.
\<close>

section \<open>Options\<close>

datatype xttype = XTTYPE_UINT32

record xt_option_entry =
  xo_name :: string
  xo_id :: nat
  xo_type :: xttype

definition qmark_opts :: "xt_option_entry list" where
  "qmark_opts =
    [\<lparr>xo_name = ''set-mask'', xo_id = 0, xo_type = XTTYPE_UINT32\<rparr>,
     \<lparr>xo_name = ''set-id'', xo_id = 1, xo_type = XTTYPE_UINT32\<rparr>,
     \<lparr>xo_name = ''set-dir'', xo_id = 2, xo_type = XTTYPE_UINT32\<rparr>]"

datatype xt_exit = BadValue | ParameterProblem string

text \<open>
  One call-back: the entry of the option and its text. The reader is asked first, as
  \<open>xtables_option_parse\<close> leaves the program itself when the text is not a value of the entry's type.
\<close>

definition qmark_parse :: "(xttype \<Rightarrow> string \<Rightarrow> u32 option) \<Rightarrow> xt_option_entry \<Rightarrow> string \<Rightarrow> xt_qmark_tginfo \<Rightarrow>
    xt_exit + xt_qmark_tginfo" where
  "qmark_parse option_parse entry arg markinfo =
    (case option_parse (xo_type entry) arg of
       None \<Rightarrow> Inl BadValue
     | Some v \<Rightarrow>
         if xo_id entry = 0 then Inr (markinfo\<lparr>tg_mask := v\<rparr>)
         else if xo_id entry = 1 then Inr (markinfo\<lparr>tg_id := v\<rparr>)
         else if xo_id entry = 2 then Inr (markinfo\<lparr>tg_dir := v\<rparr>)
         else Inl (ParameterProblem ''qmark target param error''))"

text \<open>The check of the flags of the options that were given, with what it prints.\<close>

definition qmark_check :: "u32 \<Rightarrow> string list \<times> (xt_exit + unit)" where
  "qmark_check xflags =
    ((if xflags AND 1 = 0 then [''qmark target: Parameter --set-mask is required''] else []) @
     (if xflags AND 2 = 0 then [''qmark target: Parameter --set-id is required''] else []) @
     (if xflags AND 4 = 0 then [''qmark target: Parameter --set-dir is required''] else []),
     if xflags \<noteq> 7 then Inl (ParameterProblem ''qmark target param error'') else Inr ())"

section \<open>Output\<close>

definition qmark_help :: "string list" where
  "qmark_help =
    [''MARK target options:'',
     ''  --set-mask value                   Set nfmark mask'',
     ''  --set-id value                     Set rule index'',
     ''  --set-dir value(0:src, 1:dst)      Set direction'']"

definition qmark_print :: "xt_qmark_tginfo \<Rightarrow> string" where
  "qmark_print info = '' qmark mask 0x'' @ print_x (tg_mask info) @ '' id '' @ print_d (tg_id info) @
     '' dir '' @ print_d (tg_dir info)"

definition qmark_save :: "xt_qmark_tginfo \<Rightarrow> string" where
  "qmark_save info = '' --set-mask 0x'' @ print_x (tg_mask info) @ '' --set-id '' @ print_d (tg_id info) @
     '' --set-dir '' @ print_d (tg_dir info)"

section \<open>Registration\<close>

text \<open>
  What \<open>_init\<close> hands to \<open>xtables_register_targets\<close>. \<open>XT_ALIGN\<close> rounds up to the alignment of the machine,
  which like the library's version is an argument; the struct is declared here a second time.
\<close>

definition libxt_tginfo_t :: cstruct where
  "libxt_tginfo_t = [(''mask'', U32), (''id'', U32), (''dir'', U32)]"

definition XT_ALIGN :: "nat \<Rightarrow> nat \<Rightarrow> nat" where
  "XT_ALIGN a n = (n + (a - 1)) div a * a"

record xtables_target =
  xl_family :: nfproto
  xl_name :: string
  xl_version :: string
  xl_revision :: nat
  xl_size :: nat
  xl_userspacesize :: nat
  xl_help :: "string list"
  xl_print :: "xt_qmark_tginfo \<Rightarrow> string"
  xl_save :: "xt_qmark_tginfo \<Rightarrow> string"
  xl_x6_parse :: "(xttype \<Rightarrow> string \<Rightarrow> u32 option) \<Rightarrow> xt_option_entry \<Rightarrow> string \<Rightarrow> xt_qmark_tginfo \<Rightarrow>
    xt_exit + xt_qmark_tginfo"
  xl_x6_fcheck :: "u32 \<Rightarrow> string list \<times> (xt_exit + unit)"
  xl_x6_options :: "xt_option_entry list"

definition qmark_reg :: "string \<Rightarrow> nat \<Rightarrow> xtables_target list" where
  "qmark_reg version a =
    [\<lparr>xl_family = NFPROTO_UNSPEC, xl_name = ''qmark'', xl_version = version, xl_revision = 0,
      xl_size = XT_ALIGN a (sizeof_cstruct libxt_tginfo_t), xl_userspacesize = XT_ALIGN a (sizeof_cstruct libxt_tginfo_t),
      xl_help = qmark_help, xl_print = qmark_print, xl_save = qmark_save,
      xl_x6_parse = qmark_parse, xl_x6_fcheck = qmark_check, xl_x6_options = qmark_opts\<rparr>]"

definition libxt_init :: "(xtables_target list \<Rightarrow> 'a) \<Rightarrow> string \<Rightarrow> nat \<Rightarrow> 'a" where
  "libxt_init register version a = register (qmark_reg version a)"

section \<open>A saved rule read back\<close>

lemma dropWhile_shorter: "xs \<noteq> [] \<Longrightarrow> P (hd xs) \<Longrightarrow> length (dropWhile P xs) < length xs"
  by (cases xs) (simp_all add: length_dropWhile_le less_Suc_eq_le)

text \<open>The words of a command line.\<close>

function split_words :: "string \<Rightarrow> string list" where
  "split_words cs = (let cs' = dropWhile is_space cs in
     if cs' = [] then [] else takeWhile (\<lambda>c. \<not> is_space c) cs' # split_words (dropWhile (\<lambda>c. \<not> is_space c) cs'))"
  by pat_completeness auto
termination
proof (relation "measure length", simp, goal_cases)
  case (1 cs cs')
  then have "\<not> is_space (hd cs')" using hd_dropWhile by metis
  with 1 have "length (dropWhile (\<lambda>c. \<not> is_space c) cs') < length cs'"
    by (intro dropWhile_shorter) simp_all
  also have "\<dots> \<le> length cs" using 1 by (simp add: length_dropWhile_le)
  finally show ?case using 1 by simp
qed

declare split_words.simps [simp del]

definition is_word :: "string \<Rightarrow> bool" where
  "is_word w \<longleftrightarrow> w \<noteq> [] \<and> (\<forall>c \<in> set w. \<not> is_space c)"

lemma split_words_cons:
  assumes "is_word w" "rest = [] \<or> is_space (hd rest)"
  shows "split_words (CHR '' '' # w @ rest) = w # split_words rest"
proof -
  from assms(1) obtain c w' where w: "w = c # w'" "\<not> is_space c" by (cases w) (auto simp: is_word_def)
  have "takeWhile (\<lambda>c. \<not> is_space c) (w @ rest) = w" "dropWhile (\<lambda>c. \<not> is_space c) (w @ rest) = rest"
    using assms by (auto simp: is_word_def takeWhile_append dropWhile_append takeWhile_eq_Nil_iff dropWhile_eq_self_iff)
  then show ?thesis
    using w by (subst split_words.simps) (simp add: is_space_def[of "CHR '' ''"] Let_def)
qed

lemma split_words_Nil [simp]: "split_words [] = []"
  by (subst split_words.simps) simp

lemma digits_word: "2 \<le> b \<Longrightarrow> b \<le> 16 \<Longrightarrow> is_word (digits b n)"
  unfolding is_word_def by (meson digits_nonempty digits_digit digit_not_space)

lemma print_d_word: "is_word (print_d w)"
  using digits_word[of 10] by (auto simp: print_d_def is_word_def is_space_def[of "CHR ''-''"])

lemma print_x_word: "is_word (''0x'' @ print_x w)"
  using digits_word[of 16 "unat w"] by (auto simp: print_x_def is_word_def is_space_def[of "CHR ''0''"] is_space_def[of "CHR ''x''"])

lemma save_words:
  "split_words (qmark_save info) =
     [''--set-mask'', ''0x'' @ print_x (tg_mask info), ''--set-id'', print_d (tg_id info), ''--set-dir'', print_d (tg_dir info)]"
proof -
  have sp: "is_space (CHR '' '')" by (simp add: is_space_def)
  have lit: "is_word ''--set-mask''" "is_word ''--set-id''" "is_word ''--set-dir''"
    by (simp_all add: is_word_def is_space_def)
  have "qmark_save info = CHR '' '' # ''--set-mask'' @ CHR '' '' # (''0x'' @ print_x (tg_mask info)) @
      CHR '' '' # ''--set-id'' @ CHR '' '' # print_d (tg_id info) @ CHR '' '' # ''--set-dir'' @ CHR '' '' # print_d (tg_dir info) @ []"
    by (simp add: qmark_save_def)
  then show ?thesis
    using sp by (simp only: split_words_cons lit print_d_word print_x_word list.sel split_words_Nil simp_thms)
qed

text \<open>The options of a line, each with the entry that has its name, given to \<open>qmark_parse\<close> in order.\<close>

definition opt_entry :: "string \<Rightarrow> xt_option_entry option" where
  "opt_entry w = List.find (\<lambda>e. ''--'' @ xo_name e = w) qmark_opts"

fun parse_words :: "(xttype \<Rightarrow> string \<Rightarrow> u32 option) \<Rightarrow> string list \<Rightarrow> u32 \<times> xt_qmark_tginfo \<Rightarrow>
    (xt_exit + (u32 \<times> xt_qmark_tginfo)) option" where
  "parse_words rd [] st = Some (Inr st)"
| "parse_words rd [w] st = None"
| "parse_words rd (w # v # ws) (fl, info) =
    (case opt_entry w of
       None \<Rightarrow> None
     | Some e \<Rightarrow> (case qmark_parse rd e v info of
         Inl x \<Rightarrow> Some (Inl x)
       | Inr info' \<Rightarrow> parse_words rd ws (fl OR push_bit (xo_id e) 1, info')))"

text \<open>What the reader is documented to accept: hexadecimal after \<open>0x\<close>, and decimal without a sign.\<close>

definition reads_uint32 :: "(xttype \<Rightarrow> string \<Rightarrow> u32 option) \<Rightarrow> bool" where
  "reads_uint32 rd \<longleftrightarrow>
    (\<forall>w. rd XTTYPE_UINT32 (''0x'' @ print_x w) = Some w) \<and>
    (\<forall>w :: u32. rd XTTYPE_UINT32 (digits 10 (unat w)) = Some w) \<and>
    (\<forall>s. rd XTTYPE_UINT32 (CHR ''-'' # s) = None)"

lemma unat_lt2p_u32: "unat (w :: u32) < 4294967296"
  using unsigned_less[of w, where ?'a = nat] by simp

lemma nat_sint:
  fixes w :: u32
  assumes "\<not> sint w < 0"
  shows "nat (sint w) = unat w"
proof -
  have "uint w = uint (word_of_int (sint w) :: u32)" by simp
  also have "\<dots> = sint w mod 2 ^ 32" by (simp add: uint_word_of_int take_bit_eq_mod del: of_int_sint)
  also have "\<dots> = sint w" using assms sint_less[of w] by simp
  finally show ?thesis by (simp add: unat_eq_nat_uint)
qed

lemma print_d_nonneg: "\<not> sint w < 0 \<Longrightarrow> print_d w = digits 10 (unat w)"
  by (simp add: print_d_def nat_sint)

lemma print_d_read:
  assumes "reads_uint32 rd"
  shows "rd XTTYPE_UINT32 (print_d w) = (if sint w < 0 then None else Some w)"
  using assms print_d_nonneg[of w] by (cases "sint w < 0") (simp_all add: reads_uint32_def print_d_def)

lemma opt_entry_simps:
  "opt_entry ''--set-mask'' = Some \<lparr>xo_name = ''set-mask'', xo_id = 0, xo_type = XTTYPE_UINT32\<rparr>"
  "opt_entry ''--set-id'' = Some \<lparr>xo_name = ''set-id'', xo_id = 1, xo_type = XTTYPE_UINT32\<rparr>"
  "opt_entry ''--set-dir'' = Some \<lparr>xo_name = ''set-dir'', xo_id = 2, xo_type = XTTYPE_UINT32\<rparr>"
  by (simp_all add: opt_entry_def qmark_opts_def)

lemma parse_saved:
  assumes "reads_uint32 rd"
  shows "parse_words rd (split_words (qmark_save info)) (0, info0) =
    Some (if sint (tg_id info) < 0 \<or> sint (tg_dir info) < 0 then Inl BadValue else Inr (7, info))"
proof -
  have m: "rd XTTYPE_UINT32 (''0x'' @ print_x (tg_mask info)) = Some (tg_mask info)"
    using assms by (simp add: reads_uint32_def)
  show ?thesis
    unfolding save_words using m print_d_read[OF assms]
    by (cases info, cases info0) (simp add: qmark_parse_def opt_entry_simps)
qed

lemma check_flags: "qmark_check xflags = (msgs, r) \<Longrightarrow> (r = Inr () \<longleftrightarrow> xflags = 7) \<and> (xflags = 7 \<longrightarrow> msgs = [])"
  by (auto simp: qmark_check_def split: if_splits)

text \<open>A reader that the hypotheses describe, for the examples.\<close>

definition sample_reader :: "xttype \<Rightarrow> string \<Rightarrow> u32 option" where
  "sample_reader t s =
    (case s of
       [] \<Rightarrow> None
     | c # cs \<Rightarrow>
         if take 2 s = ''0x'' then
           (let (n, rest) = read_digits 16 0 (drop 2 s) in if rest = [] \<and> n < 2 ^ 32 then Some (of_nat n) else None)
         else if is_digit 10 c then
           (let (n, rest) = read_digits 10 0 s in if rest = [] \<and> n < 2 ^ 32 then Some (of_nat n) else None)
         else None)"

lemma digits_no_x: "take 2 (digits 10 n) \<noteq> ''0x''"
proof
  assume t: "take 2 (digits 10 n) = ''0x''"
  then have "CHR ''x'' \<in> set (take 2 (digits 10 n))" by simp
  then have "CHR ''x'' \<in> set (digits 10 n)" by (rule in_set_takeD)
  then have "is_digit 10 (CHR ''x'')" by (rule digits_digit[rotated 2]) simp_all
  then show False by (simp add: is_digit_def digit_val_def)
qed

lemma sample_reader_ok: "reads_uint32 sample_reader"
proof -
  have hex: "sample_reader XTTYPE_UINT32 (''0x'' @ print_x w) = Some w" for w
    using read_digits_print[of 16 "[]" "unat w"] unsigned_less[of w] by (simp add: sample_reader_def print_x_def)
  have dec: "sample_reader XTTYPE_UINT32 (digits 10 (unat w)) = Some w" for w :: u32
  proof -
    obtain c cs where c: "digits 10 (unat w) = c # cs" "is_digit 10 c" by (rule digits_Cons[of 10]) simp_all
    then show ?thesis
      using read_digits_print[of 10 "[]" "unat w"] digits_no_x[of "unat w"] unat_lt2p_u32[of w]
      by (auto simp add: sample_reader_def simp del: read_digits.simps)
  qed
  have "sample_reader XTTYPE_UINT32 (CHR ''-'' # s) = None" for s
    by (simp add: sample_reader_def is_digit_def digit_val_def)
  with hex dec show ?thesis by (simp add: reads_uint32_def)
qed

end
