(* ===== verification/Ioctl.thy ===== *)
theory Ioctl
  imports Qmark_Admin
begin

text \<open>
  The ioctl interface of the character device, \<open>qmark_cdev_ioctl\<close> of \<open>kmod/qos_marktbl_ioctl.c\<close>: the
  numbers of the commands, the checks on a number, and the dispatch to the calls of the module with
  the structs copied from and to user space.
\<close>

section \<open>Command numbers\<close>

datatype qmark_ioc_t =
    QMARK_IOC_RULE_ADD | QMARK_IOC_RULE_DEL | QMARK_IOC_RULE_LST | QMARK_IOC_RULE_FLUSH
  | QMARK_IOC_HASH_ADD | QMARK_IOC_HASH_DEL | QMARK_IOC_HASH_CHK | QMARK_IOC_HASH_LST | QMARK_IOC_HASH_FLUSH
  | QMARK_IOC_MARK_ALO | QMARK_IOC_MARK_FREE | QMARK_IOC_MARK_FLUSH
  | QMARK_IOC_DUMP | QMARK_IOC_RESET | QMARK_IOC_NETDEV_SET | QMARK_IOC_SPEC_SET
  | QMARK_IOC_TC_ADD | QMARK_IOC_TC_DEL

definition QMARK_IOC_MAGIC :: u32 where [simp]: "QMARK_IOC_MAGIC = 0x71"

definition all_iocs :: "qmark_ioc_t list" where
  "all_iocs = [QMARK_IOC_RULE_ADD, QMARK_IOC_RULE_DEL, QMARK_IOC_RULE_LST, QMARK_IOC_RULE_FLUSH,
     QMARK_IOC_HASH_ADD, QMARK_IOC_HASH_DEL, QMARK_IOC_HASH_CHK, QMARK_IOC_HASH_LST, QMARK_IOC_HASH_FLUSH,
     QMARK_IOC_MARK_ALO, QMARK_IOC_MARK_FREE, QMARK_IOC_MARK_FLUSH, QMARK_IOC_DUMP, QMARK_IOC_RESET,
     QMARK_IOC_NETDEV_SET, QMARK_IOC_SPEC_SET, QMARK_IOC_TC_ADD, QMARK_IOC_TC_DEL]"

text \<open>The structs that cross the interface, member by member.\<close>

definition qmark_rule_t :: cstruct where
  "qmark_rule_t = [(''id'', U32), (''mode'', U32), (''devid'', U32), (''rate'', U32), (''rate_mate'', U32),
     (''rate_min'', U32), (''rate_min_mate'', U32)]"

definition qmark_hash_t :: cstruct where
  "qmark_hash_t = [(''ip'', Be32), (''id'', U32), (''mark'', U32)]"

definition qmark_mark_t :: cstruct where
  "qmark_mark_t = [(''mark'', U32)]"

definition qmark_netdev_t :: cstruct where
  "qmark_netdev_t = [(''lan_dev'', Chars 16), (''wan_dev'', Chars 16)]"

definition qmark_spec_t :: cstruct where
  "qmark_spec_t = [(''max_ip_cnt'', U32), (''max_rule_cnt'', U32)]"

text \<open>The number of a command and, for \<open>_IOWR\<close>, its struct.\<close>

primrec ioc_nr :: "qmark_ioc_t \<Rightarrow> u32" where
  "ioc_nr QMARK_IOC_RULE_ADD = 0x1" | "ioc_nr QMARK_IOC_RULE_DEL = 0x2" | "ioc_nr QMARK_IOC_RULE_LST = 0x3"
| "ioc_nr QMARK_IOC_RULE_FLUSH = 0x4" | "ioc_nr QMARK_IOC_HASH_ADD = 0x5" | "ioc_nr QMARK_IOC_HASH_DEL = 0x6"
| "ioc_nr QMARK_IOC_HASH_CHK = 0x7" | "ioc_nr QMARK_IOC_HASH_LST = 0x8" | "ioc_nr QMARK_IOC_HASH_FLUSH = 0x9"
| "ioc_nr QMARK_IOC_MARK_ALO = 0xa" | "ioc_nr QMARK_IOC_MARK_FREE = 0xb" | "ioc_nr QMARK_IOC_MARK_FLUSH = 0xc"
| "ioc_nr QMARK_IOC_DUMP = 0xd" | "ioc_nr QMARK_IOC_RESET = 0xe" | "ioc_nr QMARK_IOC_NETDEV_SET = 0xf"
| "ioc_nr QMARK_IOC_SPEC_SET = 0x10" | "ioc_nr QMARK_IOC_TC_ADD = 0x11" | "ioc_nr QMARK_IOC_TC_DEL = 0x12"

fun ioc_struct :: "qmark_ioc_t \<Rightarrow> cstruct option" where
  "ioc_struct QMARK_IOC_RULE_ADD = Some qmark_rule_t"
| "ioc_struct QMARK_IOC_RULE_DEL = Some qmark_rule_t"
| "ioc_struct QMARK_IOC_HASH_ADD = Some qmark_hash_t"
| "ioc_struct QMARK_IOC_HASH_DEL = Some qmark_hash_t"
| "ioc_struct QMARK_IOC_HASH_CHK = Some qmark_hash_t"
| "ioc_struct QMARK_IOC_MARK_ALO = Some qmark_mark_t"
| "ioc_struct QMARK_IOC_MARK_FREE = Some qmark_mark_t"
| "ioc_struct QMARK_IOC_RESET = Some qmark_mark_t"
| "ioc_struct QMARK_IOC_NETDEV_SET = Some qmark_netdev_t"
| "ioc_struct QMARK_IOC_SPEC_SET = Some qmark_spec_t"
| "ioc_struct _ = None"

definition ioc_size :: "qmark_ioc_t \<Rightarrow> nat option" where
  "ioc_size c = map_option sizeof_cstruct (ioc_struct c)"

definition ioc_code :: "kenv \<Rightarrow> qmark_ioc_t \<Rightarrow> u32" where
  "ioc_code e c = ioc_word e (ioc_size c) OR push_bit 8 QMARK_IOC_MAGIC OR ioc_nr c"

definition QMARK_IOC_MAX :: "kenv \<Rightarrow> u32" where
  "QMARK_IOC_MAX e = ioc_code e QMARK_IOC_TC_DEL + 1"

definition IOC_TYPE :: "u32 \<Rightarrow> u32" where "IOC_TYPE cmd = drop_bit 8 cmd AND 0xff"
definition IOC_NR :: "u32 \<Rightarrow> u32" where "IOC_NR cmd = cmd AND 0xff"

text \<open>The \<open>switch\<close>: the command whose number this is.\<close>

definition ioc_of :: "kenv \<Rightarrow> u32 \<Rightarrow> qmark_ioc_t option" where
  "ioc_of e cmd = List.find (\<lambda>c. ioc_code e c = cmd) all_iocs"

section \<open>Arguments\<close>

record qmark_rule =
  q_id :: u32
  q_mode :: u32
  q_devid :: u32
  q_rate :: u32
  q_rate_mate :: u32
  q_rate_min :: u32
  q_rate_min_mate :: u32

record qmark_hash =
  h_ip :: u32
  h_id :: u32
  h_mark :: u32

text \<open>
  The user's struct, seen as each of the structs a command may take it for: \<open>u_rule\<close> and the others
  are what the local variable holds after \<open>copy_from_user\<close>, \<open>u_from_left\<close> and \<open>u_to_left\<close> the numbers
  of bytes that the two copying calls could not copy, which is what they return.
\<close>

record uarg =
  u_from_left :: nat
  u_to_left :: nat
  u_rule :: qmark_rule
  u_hash :: qmark_hash
  u_mark :: u32
  u_netdev :: "string \<times> string"
  u_spec :: "u32 \<times> u32"

definition EINVAL :: int where [simp]: "EINVAL = 22"

definition einval :: "string \<Rightarrow> u32 list \<Rightarrow> uarg \<Rightarrow> (int \<times> uarg) kop" where
  "einval msg args arg = thenM (printk msg args) (ret (- EINVAL, arg))"

definition copy_in :: "uarg \<Rightarrow> string \<Rightarrow> (int \<times> uarg) kop \<Rightarrow> (int \<times> uarg) kop" where
  "copy_in arg msg k = (if int (u_from_left arg) < 0 then einval msg [] arg else k)"

definition copy_out :: "uarg \<Rightarrow> (uarg \<Rightarrow> uarg) \<Rightarrow> string \<Rightarrow> (int \<times> uarg) kop" where
  "copy_out arg f msg =
    (if int (u_to_left arg) < 0 then einval msg [] arg
     else ret (0, if u_to_left arg = 0 then f arg else arg))"

section \<open>The dispatch\<close>

definition ioctl_rule_add :: "uarg \<Rightarrow> (int \<times> uarg) kop" where
  "ioctl_rule_add arg = copy_in arg ''qmark_ioctl_err: copy_from_user failed, qmark rule add error''
    (let qr = u_rule arg in
     thenM (qmark_add_rule (q_id qr) (q_mode qr) (q_devid qr) (q_rate qr) (q_rate_mate qr) (q_rate_min qr) (q_rate_min_mate qr))
       (ret (0, arg)))"

definition ioctl_rule_del :: "uarg \<Rightarrow> (int \<times> uarg) kop" where
  "ioctl_rule_del arg = copy_in arg ''qmark_ioctl_err: copy_from_user failed, qmark rule del error''
    (thenM (qmark_del_rule (q_id (u_rule arg))) (ret (0, arg)))"

definition ioctl_hash_add :: "uarg \<Rightarrow> (int \<times> uarg) kop" where
  "ioctl_hash_add arg = copy_in arg ''qmark_ioctl_err: copy_from_user failed, qmark hash add error''
    (let qh = u_hash arg in
     if h_ip qh = 0 then einval ''qmark_ioctl_err: ip could not be zero, qmark hash add error'' [] arg
     else bindM (qmark_add_hash (h_ip qh) (h_id qh) (h_mark qh)) (\<lambda>r.
       if r < 0 then einval ''qmark_ioctl_err: add hash failed, qmark hash add error'' [] arg
       else ret (0, arg)))"

definition ioctl_hash_del :: "uarg \<Rightarrow> (int \<times> uarg) kop" where
  "ioctl_hash_del arg = copy_in arg ''qmark_ioctl_err: copy_from_user failed, qmark hash del error''
    (let qh = u_hash arg in
     if h_ip qh = 0 then einval ''qmark_ioctl_err: ip could not be zero, qmark hash del error'' [] arg
     else bindM (qmark_del_hash (h_ip qh) 0) (\<lambda>(r, mark).
       if r < 0 then einval ''qmark_ioctl_err: del hash failed, qmark hash del error'' [] arg
       else thenM (printk ''qmark_ioctl_msg: del hash return mark = 0x%x'' [mark]) (ret (0, arg))))"

definition ioctl_hash_chk :: "uarg \<Rightarrow> (int \<times> uarg) kop" where
  "ioctl_hash_chk arg = copy_in arg ''qmark_ioctl_err: copy_from_user failed, qmark hash check error''
    (let qh = u_hash arg in
     if h_ip qh = 0 then einval ''qmark_ioctl_err: ip could not be zero, qmark hash check error'' [] arg
     else bindM (qmark_find_hash (h_ip qh)) (\<lambda>(_, mark).
       copy_out arg (\<lambda>a. a\<lparr>u_hash := qh\<lparr>h_mark := mark\<rparr>\<rparr>)
         ''qmark_ioctl_err: copy_to_user failed, qmark hash check error''))"

definition ioctl_mark_alo :: "uarg \<Rightarrow> (int \<times> uarg) kop" where
  "ioctl_mark_alo arg =
    bindM qmark_alloc_mark (\<lambda>(_, mark).
    copy_out arg (\<lambda>a. a\<lparr>u_mark := mark\<rparr>) ''qmark_ioctl_err: copy_to_user failed, qmark mark allocate error'')"

definition ioctl_mark_free :: "uarg \<Rightarrow> (int \<times> uarg) kop" where
  "ioctl_mark_free arg = copy_in arg ''qmark_ioctl_err: copy_from_user failed, qmark mark free error''
    (thenM (qmark_free_mark (u_mark arg)) (ret (0, arg)))"

definition ioctl_reset :: "uarg \<Rightarrow> (int \<times> uarg) kop" where
  "ioctl_reset arg = copy_in arg ''qmark_ioctl_err: copy_from_user failed, qmark reset error''
    (thenM (qmark_reset (u_mark arg)) (ret (0, arg)))"

definition netdev_set :: "string \<Rightarrow> string \<Rightarrow> unit kop" where
  "netdev_set lan wan =
    thenM op_lock (
    thenM (modify (\<lambda>s. s\<lparr>qmark_lan_dev := take 16 lan\<rparr>)) (
    thenM (modify (\<lambda>s. s\<lparr>qmark_wan_dev := take 16 wan\<rparr>))
    op_unlock))"

definition ioctl_netdev_set :: "uarg \<Rightarrow> (int \<times> uarg) kop" where
  "ioctl_netdev_set arg = copy_in arg ''qmark_ioctl_err: copy_from_user failed, qmark netdev set error''
    (thenM (netdev_set (fst (u_netdev arg)) (snd (u_netdev arg))) (ret (0, arg)))"

definition ioctl_spec_set :: "uarg \<Rightarrow> (int \<times> uarg) kop" where
  "ioctl_spec_set arg = copy_in arg ''qmark_ioctl_err: copy_from_user failed, qmark spec set error''
    (thenM (qmark_set_spec (fst (u_spec arg)) (snd (u_spec arg))) (ret (0, arg)))"

text \<open>The two test commands send the rules of \<open>g_ruletbl[0]\<close> for mark \<open>0x800\<close>, without the lock.\<close>

definition ioctl_tc_add :: "uarg \<Rightarrow> (int \<times> uarg) kop" where
  "ioctl_tc_add arg = bindM (rule_at 0) (\<lambda>r. thenM (qmark_tc_add_rule r 0x800) (ret (0, arg)))"

definition ioctl_tc_del :: "uarg \<Rightarrow> (int \<times> uarg) kop" where
  "ioctl_tc_del arg = bindM (rule_at 0) (\<lambda>r. thenM (qmark_tc_del_rule r 0x800) (ret (0, arg)))"

primrec ioctl_case :: "qmark_ioc_t \<Rightarrow> uarg \<Rightarrow> (int \<times> uarg) kop" where
  "ioctl_case QMARK_IOC_RULE_ADD arg = ioctl_rule_add arg"
| "ioctl_case QMARK_IOC_RULE_DEL arg = ioctl_rule_del arg"
| "ioctl_case QMARK_IOC_RULE_LST arg = thenM qmark_list_rule (ret (0, arg))"
| "ioctl_case QMARK_IOC_RULE_FLUSH arg = thenM qmark_flush_rule (ret (0, arg))"
| "ioctl_case QMARK_IOC_HASH_ADD arg = ioctl_hash_add arg"
| "ioctl_case QMARK_IOC_HASH_DEL arg = ioctl_hash_del arg"
| "ioctl_case QMARK_IOC_HASH_CHK arg = ioctl_hash_chk arg"
| "ioctl_case QMARK_IOC_HASH_LST arg = thenM qmark_list_hash (ret (0, arg))"
| "ioctl_case QMARK_IOC_HASH_FLUSH arg = thenM qmark_flush_hash (ret (0, arg))"
| "ioctl_case QMARK_IOC_MARK_ALO arg = ioctl_mark_alo arg"
| "ioctl_case QMARK_IOC_MARK_FREE arg = ioctl_mark_free arg"
| "ioctl_case QMARK_IOC_MARK_FLUSH arg = thenM qmark_flush_mark (ret (0, arg))"
| "ioctl_case QMARK_IOC_DUMP arg = thenM qmark_dump (ret (0, arg))"
| "ioctl_case QMARK_IOC_RESET arg = ioctl_reset arg"
| "ioctl_case QMARK_IOC_NETDEV_SET arg = ioctl_netdev_set arg"
| "ioctl_case QMARK_IOC_SPEC_SET arg = ioctl_spec_set arg"
| "ioctl_case QMARK_IOC_TC_ADD arg = ioctl_tc_add arg"
| "ioctl_case QMARK_IOC_TC_DEL arg = ioctl_tc_del arg"

definition qmark_cdev_ioctl :: "u32 \<Rightarrow> uarg \<Rightarrow> (int \<times> uarg) kop" where
  "qmark_cdev_ioctl cmd arg =
    bindM (gets env) (\<lambda>e.
    if IOC_TYPE cmd \<noteq> QMARK_IOC_MAGIC then einval ''qmark_ioctl_err: Invalid ioctl magic 0x%x'' [cmd] arg
    else if QMARK_IOC_MAX e < IOC_NR cmd then einval ''qmark_ioctl_err: Invalid ioctl command 0x%x'' [cmd] arg
    else case ioc_of e cmd of
      None \<Rightarrow> einval ''qmark_ioctl_err: Invalid ioctl command 0x%x'' [cmd] arg
    | Some c \<Rightarrow> ioctl_case c arg)"

section \<open>Numbers, checks and dispatch\<close>

text \<open>What \<open>_IO\<close> and \<open>_IOWR\<close> put above the type and the number leaves those alone.\<close>

definition ioc_env :: "kenv \<Rightarrow> bool" where
  "ioc_env e \<longleftrightarrow> (\<forall>x. ioc_word e x AND 0xffff = 0)"

lemma ioc_code_low:
  assumes "ioc_env e"
  shows "ioc_code e c AND 0xffff = 0x7100 OR ioc_nr c"
proof -
  have "ioc_code e c AND 0xffff = (ioc_word e (ioc_size c) AND 0xffff) OR ((0x7100 OR ioc_nr c) AND 0xffff)"
    by (rule bit_word_eqI) (auto simp: ioc_code_def bit_and_iff bit_or_iff)
  also have "\<dots> = (0x7100 OR ioc_nr c) AND 0xffff" using assms by (simp add: ioc_env_def)
  also have "\<dots> = 0x7100 OR ioc_nr c" by (cases c) simp_all
  finally show ?thesis .
qed

lemma ioc_code_nr:
  assumes "ioc_env e"
  shows "IOC_NR (ioc_code e c) = ioc_nr c" "IOC_TYPE (ioc_code e c) = QMARK_IOC_MAGIC"
proof -
  have "IOC_NR (ioc_code e c) = (ioc_code e c AND 0xffff) AND 0xff"
    by (simp add: IOC_NR_def and.assoc)
  then show "IOC_NR (ioc_code e c) = ioc_nr c" unfolding ioc_code_low[OF assms] by (cases c) simp_all
  have "IOC_TYPE w = drop_bit 8 (w AND 0xffff) AND 0xff" for w
    by (simp add: IOC_TYPE_def drop_bit_and and.assoc)
  from this[of "ioc_code e c"] show "IOC_TYPE (ioc_code e c) = QMARK_IOC_MAGIC"
    unfolding ioc_code_low[OF assms] by (cases c) (simp_all del: drop_bit_or)
qed

lemma ioc_nr_inj: "ioc_nr c = ioc_nr d \<longleftrightarrow> c = d"
  by (cases c; cases d) simp_all

lemma ioc_code_inj: "ioc_env e \<Longrightarrow> ioc_code e c = ioc_code e d \<longleftrightarrow> c = d"
  using ioc_code_nr(1) ioc_nr_inj by metis

lemma all_iocs_complete: "c \<in> set all_iocs"
  by (cases c) (simp_all add: all_iocs_def)

lemma ioc_of_code: "ioc_env e \<Longrightarrow> ioc_of e (ioc_code e c) = Some c"
proof -
  assume e: "ioc_env e"
  have "List.find (\<lambda>d. ioc_code e d = ioc_code e c) all_iocs \<noteq> None"
    using all_iocs_complete by (auto simp: find_None_iff)
  then obtain d where d: "List.find (\<lambda>d. ioc_code e d = ioc_code e c) all_iocs = Some d" by blast
  then have "ioc_code e d = ioc_code e c" by (auto simp: find_Some_iff)
  with d show ?thesis using ioc_code_inj[OF e] by (simp add: ioc_of_def)
qed

text \<open>The largest command number compares an 8-bit number with a whole ioctl number.\<close>

lemma ioc_max_large:
  assumes "ioc_env e"
  shows "255 < QMARK_IOC_MAX e"
proof -
  let ?w = "ioc_code e QMARK_IOC_TC_DEL"
  have low: "?w AND 0xffff = 0x7112" using ioc_code_low[OF assms] by simp
  have "unat (?w AND 0xffff) = unat ?w mod 2 ^ 16"
  proof -
    have "?w AND 0xffff = take_bit 16 ?w" by (simp add: take_bit_eq_mask mask_eq_exp_minus_1)
    then show ?thesis by (simp add: take_bit_eq_mod unat_mod)
  qed
  then have m: "unat ?w mod 65536 = 0x7112" using low by simp
  then have "unat ?w \<noteq> 2 ^ 32 - 1" by (intro notI) simp
  moreover have "unat ?w < 2 ^ 32" using unsigned_less[of ?w] by simp
  ultimately have "unat (?w + 1) = Suc (unat ?w)" by (simp add: unat_word_ariths)
  moreover have "0x7112 \<le> unat ?w" using m by (metis mod_less_eq_dividend)
  ultimately show ?thesis by (simp add: QMARK_IOC_MAX_def word_less_nat_alt)
qed

lemma ioc_nr_bound: "IOC_NR cmd \<le> 255"
  by (simp add: IOC_NR_def word_and_le1)

lemma ioctl_dispatch:
  assumes "ioc_env (env s)"
  shows "qmark_cdev_ioctl (ioc_code (env s) c) arg s = ioctl_case c arg s"
proof -
  have "\<not> QMARK_IOC_MAX (env s) < IOC_NR (ioc_code (env s) c)"
    using ioc_max_large[OF assms] ioc_nr_bound[of "ioc_code (env s) c"] by (meson leD le_less_trans less_imp_le)
  then show ?thesis
    using ioc_code_nr(2)[OF assms] ioc_of_code[OF assms] by (simp add: qmark_cdev_ioctl_def)
qed

end
