(* ===== verification/Qmark_App.thy ===== *)
theory Qmark_App
  imports C_Text Ioctl
begin

text \<open>
  The command line tool \<open>app/qmark.c\<close>, composed with the ioctl interface of the module: every option
  reads its text with \<open>sscanf\<close> into the variables of \<open>main\<close> and hands one of them to the driver. The
  options come from \<open>getopt_long\<close>, a library routine: the list of its answers is an argument of the model.
\<close>

section \<open>The tool's copy of the interface\<close>

text \<open>
  The tool does not include a header of the module but declares the structs and the command numbers
  a second time; the names of the commands are the same.
\<close>

definition app_rule_t :: cstruct where
  "app_rule_t = [(''id'', U32), (''mode'', U32), (''devid'', U32), (''rate'', U32), (''rate_mate'', U32),
     (''rate_min'', U32), (''rate_min_mate'', U32)]"

definition app_hash_t :: cstruct where
  "app_hash_t = [(''ip'', Be32), (''id'', U32), (''mark'', U32)]"

definition app_mark_t :: cstruct where
  "app_mark_t = [(''mark'', U32)]"

definition app_netdev_t :: cstruct where
  "app_netdev_t = [(''lan_dev'', Chars 16), (''wan_dev'', Chars 16)]"

definition app_spec_t :: cstruct where
  "app_spec_t = [(''max_ip_cnt'', U32), (''max_rule_cnt'', U32)]"

primrec app_ioc_nr :: "qmark_ioc_t \<Rightarrow> u32" where
  "app_ioc_nr QMARK_IOC_RULE_ADD = 0x1" | "app_ioc_nr QMARK_IOC_RULE_DEL = 0x2" | "app_ioc_nr QMARK_IOC_RULE_LST = 0x3"
| "app_ioc_nr QMARK_IOC_RULE_FLUSH = 0x4" | "app_ioc_nr QMARK_IOC_HASH_ADD = 0x5" | "app_ioc_nr QMARK_IOC_HASH_DEL = 0x6"
| "app_ioc_nr QMARK_IOC_HASH_CHK = 0x7" | "app_ioc_nr QMARK_IOC_HASH_LST = 0x8" | "app_ioc_nr QMARK_IOC_HASH_FLUSH = 0x9"
| "app_ioc_nr QMARK_IOC_MARK_ALO = 0xa" | "app_ioc_nr QMARK_IOC_MARK_FREE = 0xb" | "app_ioc_nr QMARK_IOC_MARK_FLUSH = 0xc"
| "app_ioc_nr QMARK_IOC_DUMP = 0xd" | "app_ioc_nr QMARK_IOC_RESET = 0xe" | "app_ioc_nr QMARK_IOC_NETDEV_SET = 0xf"
| "app_ioc_nr QMARK_IOC_SPEC_SET = 0x10" | "app_ioc_nr QMARK_IOC_TC_ADD = 0x11" | "app_ioc_nr QMARK_IOC_TC_DEL = 0x12"

fun app_ioc_struct :: "qmark_ioc_t \<Rightarrow> cstruct option" where
  "app_ioc_struct QMARK_IOC_RULE_ADD = Some app_rule_t"
| "app_ioc_struct QMARK_IOC_RULE_DEL = Some app_rule_t"
| "app_ioc_struct QMARK_IOC_HASH_ADD = Some app_hash_t"
| "app_ioc_struct QMARK_IOC_HASH_DEL = Some app_hash_t"
| "app_ioc_struct QMARK_IOC_HASH_CHK = Some app_hash_t"
| "app_ioc_struct QMARK_IOC_MARK_ALO = Some app_mark_t"
| "app_ioc_struct QMARK_IOC_MARK_FREE = Some app_mark_t"
| "app_ioc_struct QMARK_IOC_RESET = Some app_mark_t"
| "app_ioc_struct QMARK_IOC_NETDEV_SET = Some app_netdev_t"
| "app_ioc_struct QMARK_IOC_SPEC_SET = Some app_spec_t"
| "app_ioc_struct _ = None"

definition APP_IOC_MAGIC :: u32 where "APP_IOC_MAGIC = 0x71"

definition app_ioc_code :: "kenv \<Rightarrow> qmark_ioc_t \<Rightarrow> u32" where
  "app_ioc_code e c = ioc_word e (map_option sizeof_cstruct (app_ioc_struct c)) OR push_bit 8 APP_IOC_MAGIC OR app_ioc_nr c"

section \<open>The variables of main\<close>

text \<open>
  \<open>a_qn\<close> is the 32 bytes of \<open>qmark_netdev_t\<close>, \<open>lan_dev\<close> before \<open>wan_dev\<close>. \<open>a_qs\<close> is not initialised by
  the program. \<open>a_kern\<close> is the kernel behind the descriptor.
\<close>

record app =
  a_qr :: qmark_rule
  a_qh :: qmark_hash
  a_qm :: u32
  a_qn :: string
  a_qs :: "u32 \<times> u32"
  a_ip :: "u32 list"
  a_out :: "string list"
  a_err :: "string list"
  a_kern :: kst

type_synonym 'a aop = "(app, 'a) km"

definition zero_qr :: qmark_rule where
  "zero_qr = \<lparr>q_id = 0, q_mode = 0, q_devid = 0, q_rate = 0, q_rate_mate = 0, q_rate_min = 0, q_rate_min_mate = 0\<rparr>"

definition zero_qh :: qmark_hash where
  "zero_qh = \<lparr>h_ip = 0, h_id = 0, h_mark = 0\<rparr>"

definition app_start :: "u32 \<times> u32 \<Rightarrow> kst \<Rightarrow> app" where
  "app_start qs k = \<lparr>a_qr = zero_qr, a_qh = zero_qh, a_qm = 0, a_qn = replicate 32 (CHR 0x00), a_qs = qs,
     a_ip = replicate 4 0, a_out = [], a_err = [], a_kern = k\<rparr>"

definition printf :: "string \<Rightarrow> unit aop" where
  "printf str = modify (\<lambda>s. s\<lparr>a_out := a_out s @ [str]\<rparr>)"

definition fprintf_err :: "string list \<Rightarrow> unit aop" where
  "fprintf_err lines = modify (\<lambda>s. s\<lparr>a_err := a_err s @ lines\<rparr>)"

text \<open>A driver call: all of a struct can be copied, and the driver may write the struct back.\<close>

definition user_arg :: "app \<Rightarrow> uarg" where
  "user_arg s = \<lparr>u_from_left = 0, u_to_left = 0, u_rule = a_qr s, u_hash = a_qh s, u_mark = a_qm s,
     u_netdev = (take 16 (a_qn s), drop 16 (a_qn s)), u_spec = a_qs s\<rparr>"

definition ioctl :: "qmark_ioc_t \<Rightarrow> int aop" where
  "ioctl c s =
    (case qmark_cdev_ioctl (app_ioc_code (env (a_kern s)) c) (user_arg s) (a_kern s) of
       Inl e \<Rightarrow> Inl e
     | Inr ((r, arg), k) \<Rightarrow> Inr (r, s\<lparr>a_qh := u_hash arg, a_qm := u_mark arg, a_kern := k\<rparr>))"

definition ioctl_or :: "qmark_ioc_t \<Rightarrow> string \<Rightarrow> unit aop" where
  "ioctl_or c msg = bindM (ioctl c) (\<lambda>r. whenM (r < 0) (printf msg))"

section \<open>Reading arguments\<close>

text \<open>The results of \<open>sscanf\<close> are stored in order; variables without a result keep their values.\<close>

fun store_nums :: "(u32 \<Rightarrow> app \<Rightarrow> app) list \<Rightarrow> scanned list \<Rightarrow> app \<Rightarrow> app" where
  "store_nums (f # fs) (Num n # xs) s = store_nums fs xs (f (of_int n) s)"
| "store_nums _ _ s = s"

definition scan_nums :: "conv list \<Rightarrow> (u32 \<Rightarrow> app \<Rightarrow> app) list \<Rightarrow> string \<Rightarrow> unit aop" where
  "scan_nums fmt vars optarg = modify (store_nums vars (sscanf fmt optarg))"

definition rule_vars :: "(u32 \<Rightarrow> app \<Rightarrow> app) list" where
  "rule_vars =
    [\<lambda>v s. s\<lparr>a_qr := (a_qr s)\<lparr>q_id := v\<rparr>\<rparr>,
     \<lambda>v s. s\<lparr>a_qr := (a_qr s)\<lparr>q_mode := v\<rparr>\<rparr>,
     \<lambda>v s. s\<lparr>a_qr := (a_qr s)\<lparr>q_devid := v\<rparr>\<rparr>,
     \<lambda>v s. s\<lparr>a_qr := (a_qr s)\<lparr>q_rate := v\<rparr>\<rparr>,
     \<lambda>v s. s\<lparr>a_qr := (a_qr s)\<lparr>q_rate_mate := v\<rparr>\<rparr>,
     \<lambda>v s. s\<lparr>a_qr := (a_qr s)\<lparr>q_rate_min := v\<rparr>\<rparr>,
     \<lambda>v s. s\<lparr>a_qr := (a_qr s)\<lparr>q_rate_min_mate := v\<rparr>\<rparr>]"

definition ip_vars :: "(u32 \<Rightarrow> app \<Rightarrow> app) list" where
  "ip_vars = map (\<lambda>i v s. s\<lparr>a_ip := (a_ip s)[i := v]\<rparr>) [0, 1, 2, 3]"

definition hash_vars :: "(u32 \<Rightarrow> app \<Rightarrow> app) list" where
  "hash_vars = ip_vars @
    [\<lambda>v s. s\<lparr>a_qh := (a_qh s)\<lparr>h_mark := v\<rparr>\<rparr>,
     \<lambda>v s. s\<lparr>a_qh := (a_qh s)\<lparr>h_id := v\<rparr>\<rparr>]"

definition mark_var :: "u32 \<Rightarrow> app \<Rightarrow> app" where
  "mark_var v s = s\<lparr>a_qm := v\<rparr>"

definition spec_vars :: "(u32 \<Rightarrow> app \<Rightarrow> app) list" where
  "spec_vars = [\<lambda>v s. s\<lparr>a_qs := (v, snd (a_qs s))\<rparr>, \<lambda>v s. s\<lparr>a_qs := (fst (a_qs s), v)\<rparr>]"

definition fmt_rule :: "conv list" where
  "fmt_rule = [ConvD, Space, ConvD, Space, ConvD, Space, ConvD, Space, ConvD, Space, ConvD, Space, ConvD]"

definition fmt_ip :: "conv list" where
  "fmt_ip = [ConvD, Lit CHR ''.'', ConvD, Lit CHR ''.'', ConvD, Lit CHR ''.'', ConvD]"

definition fmt_hash :: "conv list" where
  "fmt_hash = fmt_ip @ [Space, Lit CHR ''0'', Lit CHR ''x'', ConvX, Space, ConvD]"

text \<open>The address is added up on top of what \<open>qh.ip\<close> holds, first number in the highest byte.\<close>

definition sum_ip :: "u32 list \<Rightarrow> u32 \<Rightarrow> u32" where
  "sum_ip ip acc = foldl (\<lambda>acc i. acc + push_bit ((3 - i) * 8) (ip ! i)) acc [0..<4]"

definition add_ip :: "unit aop" where
  "add_ip = modify (\<lambda>s. s\<lparr>a_qh := (a_qh s)\<lparr>h_ip := sum_ip (a_ip s) (h_ip (a_qh s))\<rparr>\<rparr>)"

text \<open>\<open>%s\<close> writes a word and a NUL, without regard to the size of the array.\<close>

definition write_str :: "nat \<Rightarrow> string \<Rightarrow> unit aop" where
  "write_str off w = bindM (gets a_qn) (\<lambda>b.
     if off + length w + 1 \<le> length b
     then modify (\<lambda>s. s\<lparr>a_qn := take off b @ w @ [CHR 0x00] @ drop (off + length w + 1) b\<rparr>)
     else fail OutOfBounds)"

primrec write_words :: "scanned list \<Rightarrow> nat list \<Rightarrow> unit aop" where
  "write_words [] offs = ret ()"
| "write_words (x # xs) offs =
     (case (x, offs) of (Word w, off # offs') \<Rightarrow> thenM (write_str off w) (write_words xs offs') | _ \<Rightarrow> ret ())"

definition scan_netdev :: "string \<Rightarrow> unit aop" where
  "scan_netdev optarg = write_words (sscanf [ConvS, Space, ConvS] optarg) [0, 16]"

section \<open>The options\<close>

definition optstring :: string where
  "optstring = ''a:d:lxA:D:C:LXgf:Fzr:n:s:htu''"

definition long_options :: "(string \<times> bool \<times> char) list" where
  "long_options =
    [(''add_rule'', True, CHR ''a''), (''del_rule'', True, CHR ''d''), (''list_rule'', False, CHR ''l''),
     (''flush_rule'', False, CHR ''x''), (''add_hash'', True, CHR ''A''), (''del_hash'', True, CHR ''D''),
     (''check_hash'', True, CHR ''C''), (''list_hash'', False, CHR ''L''), (''flush_hash'', False, CHR ''X''),
     (''alloc_mark'', False, CHR ''g''), (''free_mark'', True, CHR ''f''), (''flush_mark'', False, CHR ''F''),
     (''dump'', False, CHR ''z''), (''reset'', True, CHR ''r''), (''netdev_set'', True, CHR ''n''),
     (''spec_set'', True, CHR ''s''), (''help'', False, CHR ''h'')]"

definition usage :: "string \<Rightarrow> unit aop" where
  "usage argv0 = fprintf_err
    [''Usage: '' @ argv0 @ '' [rule|hash|mark|other]_cmd'', '''',
     ''rule_cmd:'',
     ''   -a or --add_rule '' @ [CHR 0x22] @ ''id mode devid rate rate_mate rate_min rate_min_mate'' @ [CHR 0x22],
     ''   -d or --del_rule id'',
     ''   -l or --list_rule'',
     ''   -x or --flush_rule'',
     ''hash_cmd:'',
     ''   -A or --add_hash '' @ [CHR 0x22] @ ''ip mark rule_id'' @ [CHR 0x22],
     ''   -D or --del_hash ip '',
     ''   -C or --check_hash ip'',
     ''   -L or --list_hash'',
     ''   -X or --flush_hash'',
     ''mark_cmd:'',
     ''   -g or --alloc_mark'',
     ''   -f or --free_mark mark'',
     ''   -F or --flush_mark'',
     ''other_cmd:'',
     ''   -z or --dump'',
     ''   -r or --reset 0 or 1'',
     ''   -n or --netdev_set '' @ [CHR 0x22] @ ''lan_dev wan_dev'' @ [CHR 0x22],
     ''   -s or --spec_set '' @ [CHR 0x22] @ ''max_ip_cnt max_rule_cnt'' @ [CHR 0x22],
     ''   -h or --help'',
     ''   -t'',
     ''   -u'']"

text \<open>One option; the answer says whether the program goes on to the next one.\<close>

definition go_on :: "unit aop \<Rightarrow> bool aop" where
  "go_on m = thenM m (ret True)"

definition app_option :: "string \<Rightarrow> char \<Rightarrow> string \<Rightarrow> bool aop" where
  "app_option argv0 opt optarg =
    (if opt = CHR ''a'' then go_on (thenM (scan_nums fmt_rule rule_vars optarg)
       (ioctl_or QMARK_IOC_RULE_ADD ''ioctl add rule failed''))
     else if opt = CHR ''d'' then go_on (thenM (scan_nums [ConvD] (take 1 rule_vars) optarg)
       (ioctl_or QMARK_IOC_RULE_DEL ''ioctl del rule failed''))
     else if opt = CHR ''l'' then go_on (ioctl_or QMARK_IOC_RULE_LST ''ioctl list rule failed'')
     else if opt = CHR ''x'' then go_on (ioctl_or QMARK_IOC_RULE_FLUSH ''ioctl flush rule failed'')
     else if opt = CHR ''A'' then go_on (thenM (scan_nums fmt_hash hash_vars optarg) (thenM add_ip
       (ioctl_or QMARK_IOC_HASH_ADD ''ioctl add hash failed'')))
     else if opt = CHR ''D'' then go_on (thenM (scan_nums fmt_ip ip_vars optarg) (thenM add_ip
       (ioctl_or QMARK_IOC_HASH_DEL ''ioctl delete hash failed'')))
     else if opt = CHR ''C'' then go_on (thenM (scan_nums fmt_ip ip_vars optarg) (thenM add_ip
       (thenM (ioctl_or QMARK_IOC_HASH_CHK ''ioctl check hash failed'')
       (bindM (gets (\<lambda>s. h_mark (a_qh s))) (\<lambda>m. printf (''0x'' @ print_x m))))))
     else if opt = CHR ''L'' then go_on (ioctl_or QMARK_IOC_HASH_LST ''ioctl list hash failed'')
     else if opt = CHR ''X'' then go_on (ioctl_or QMARK_IOC_HASH_FLUSH ''ioctl flush hash failed'')
     else if opt = CHR ''g'' then go_on (thenM (ioctl_or QMARK_IOC_MARK_ALO ''ioctl alloc mark failed'')
       (bindM (gets a_qm) (\<lambda>m. printf (''0x'' @ print_x m))))
     else if opt = CHR ''f'' then go_on (thenM (scan_nums [Lit CHR ''0'', Lit CHR ''x'', ConvX] [mark_var] optarg)
       (ioctl_or QMARK_IOC_MARK_FREE ''ioctl free mark failed''))
     else if opt = CHR ''F'' then go_on (ioctl_or QMARK_IOC_MARK_FLUSH ''ioctl flush mark failed'')
     else if opt = CHR ''z'' then go_on (ioctl_or QMARK_IOC_DUMP ''ioctl dump failed'')
     else if opt = CHR ''r'' then go_on (thenM (scan_nums [ConvD] [mark_var] optarg)
       (ioctl_or QMARK_IOC_RESET ''ioctl reset failed''))
     else if opt = CHR ''n'' then go_on (thenM (scan_netdev optarg)
       (ioctl_or QMARK_IOC_NETDEV_SET ''ioctl net dev set failed''))
     else if opt = CHR ''s'' then go_on (thenM (scan_nums [ConvD, Space, ConvD] spec_vars optarg)
       (ioctl_or QMARK_IOC_SPEC_SET ''ioctl spec set failed''))
     else if opt = CHR ''t'' then go_on (ioctl_or QMARK_IOC_TC_ADD ''ioctl tc add test failed'')
     else if opt = CHR ''u'' then go_on (ioctl_or QMARK_IOC_TC_DEL ''ioctl tc del test failed'')
     else if opt = CHR ''h'' then thenM (usage argv0) (ret False)
     else go_on (usage argv0))"

fun app_options :: "string \<Rightarrow> (char \<times> string) list \<Rightarrow> unit aop" where
  "app_options argv0 [] = ret ()"
| "app_options argv0 ((opt, optarg) # opts) =
     bindM (app_option argv0 opt optarg) (\<lambda>more. if more then app_options argv0 opts else ret ())"

text \<open>\<open>main\<close>, with the descriptor that \<open>open\<close> returned.\<close>

definition qmark_main :: "string \<Rightarrow> int \<Rightarrow> (char \<times> string) list \<Rightarrow> int aop" where
  "qmark_main argv0 fd opts =
    (if fd < 0 then thenM (fprintf_err [''open dev'']) (ret (- 1))
     else thenM (app_options argv0 opts) (ret 0))"

end
