(* ===== verification/Qmark_App_Spec.thy ===== *)
theory Qmark_App_Spec
  imports Qmark_App
begin

text \<open>
  What the options of the command line tool do to the kernel: numbers written in decimal arrive as they
  are, names of up to 15 characters arrive terminated, and an address is put together with its first
  number in the high byte, on top of the one before.
\<close>

section \<open>Text of arguments\<close>

fun ints_fmt :: "nat \<Rightarrow> conv list" where
  "ints_fmt 0 = []"
| "ints_fmt (Suc 0) = [ConvD]"
| "ints_fmt (Suc (Suc n)) = ConvD # Space # ints_fmt (Suc n)"

fun ints_text :: "u32 list \<Rightarrow> string" where
  "ints_text [] = []"
| "ints_text [w] = print_d w"
| "ints_text (w # v # ws) = print_d w @ CHR '' '' # ints_text (v # ws)"

lemma print_d_head: "print_d w = c # cs \<Longrightarrow> \<not> is_space c"
proof (cases "sint w < 0")
  case True
  assume "print_d w = c # cs"
  with True show ?thesis by (auto simp: print_d_def is_space_def)
next
  case False
  assume "print_d w = c # cs"
  with False have "c \<in> set (digits 10 (nat (sint w)))" by (simp add: print_d_def)
  then show ?thesis using digits_digit[of 10 c] digit_not_space[of 10 c] by simp
qed

lemma print_d_nonempty: "print_d w \<noteq> []"
  using digits_nonempty by (simp add: print_d_def)

lemma skip_print_d [simp]: "dropWhile is_space (print_d w @ rest) = print_d w @ rest"
  using print_d_head[of w] print_d_nonempty[of w] by (cases "print_d w") auto

lemma skip_ints_text: "dropWhile is_space (ints_text (w # ws)) = ints_text (w # ws)"
  using skip_print_d[of w "[]"] by (cases ws) simp_all

lemma scan_ints: "sscanf (ints_fmt (length ws)) (ints_text ws) = map (Num \<circ> sint) ws"
proof (induction ws rule: ints_text.induct)
  case (2 w)
  then show ?case using scan_print_d[of "[]" w] by simp
next
  case (3 w v ws)
  have "scan_d (print_d w @ CHR '' '' # ints_text (v # ws)) = Some (sint w, CHR '' '' # ints_text (v # ws))"
    by (rule scan_print_d) simp
  moreover have "dropWhile is_space (CHR '' '' # ints_text (v # ws)) = ints_text (v # ws)"
    using skip_ints_text by (simp add: is_space_def)
  ultimately show ?case using "3.IH" by simp
qed simp

definition ip_text :: "nat \<Rightarrow> nat \<Rightarrow> nat \<Rightarrow> nat \<Rightarrow> string" where
  "ip_text a b c d = digits 10 a @ CHR ''.'' # digits 10 b @ CHR ''.'' # digits 10 c @ CHR ''.'' # digits 10 d"

lemma scan_d_dot: "scan_d (digits 10 n @ CHR ''.'' # rest) = Some (int n, CHR ''.'' # rest)"
  by (rule scan_d_digits) simp

lemma scan_ip: "ends_number 10 rest \<Longrightarrow>
    sscanf (fmt_ip @ fs) (ip_text a b c d @ rest) = Num (int a) # Num (int b) # Num (int c) # Num (int d) # sscanf fs rest"
  by (simp add: fmt_ip_def ip_text_def scan_d_dot scan_d_digits)

lemma skip_0x_other: "x \<noteq> CHR ''x'' \<Longrightarrow> x \<noteq> CHR ''X'' \<Longrightarrow> skip_0x (c # x # cs) = c # x # cs"
  by (simp add: skip_0x_def split: list.splits)

lemma skip_0x_digits: "skip_0x (digits 16 n @ CHR '' '' # rest) = digits 16 n @ CHR '' '' # rest"
proof -
  obtain c ds where c: "digits 16 n = c # ds" using digits_nonempty[of 16 n] by (cases "digits 16 n") auto
  show ?thesis
  proof (cases ds)
    case Nil
    with c show ?thesis by (simp add: skip_0x_other)
  next
    case (Cons d ds')
    with c have "is_digit 16 d" using digits_digit[of 16 d n] by simp
    then have "d \<noteq> CHR ''x''" "d \<noteq> CHR ''X''" by (auto simp: is_digit_def digit_val_def)
    with c Cons show ?thesis by (simp add: skip_0x_other)
  qed
qed

lemma scan_x_print: "scan_x (print_x w @ CHR '' '' # rest) = Some (uint w, CHR '' '' # rest)"
  using scan_digits_print[of 16 "CHR '' '' # rest" False "unat w"] scan_sign_digits[of 16 "unat w"] skip_0x_digits
  by (simp add: scan_x_def print_x_def)

definition hash_text :: "string \<Rightarrow> u32 \<Rightarrow> u32 \<Rightarrow> string" where
  "hash_text ip mark rid = ip @ '' 0x'' @ print_x mark @ CHR '' '' # print_d rid"

lemma scan_hash: "sscanf fmt_hash (hash_text (ip_text a b c d) mark rid) =
    [Num (int a), Num (int b), Num (int c), Num (int d), Num (uint mark), Num (sint rid)]"
proof -
  have "scan_d (print_d rid) = Some (sint rid, [])" using scan_print_d[of "[]" rid] by simp
  moreover have "dropWhile is_space (print_d rid) = print_d rid" using skip_print_d[of rid "[]"] by simp
  ultimately show ?thesis
    by (simp add: fmt_hash_def hash_text_def scan_ip scan_x_print is_space_def[of "CHR '' ''"] is_space_def[of "CHR ''0''"])
qed

lemma scan_words:
  assumes "\<forall>c \<in> set l. \<not> is_space c" "\<forall>c \<in> set w. \<not> is_space c" "l \<noteq> []" "w \<noteq> []"
  shows "sscanf [ConvS, Space, ConvS] (l @ CHR '' '' # w) = [Word l, Word w]"
proof -
  have d: "dropWhile is_space (l @ CHR '' '' # w) = l @ CHR '' '' # w" using assms by (cases l) auto
  have d': "dropWhile is_space w = w" using assms by (cases w) auto
  have "takeWhile (\<lambda>c. \<not> is_space c) (l @ CHR '' '' # w) = l" "takeWhile (\<lambda>c. \<not> is_space c) w = w"
     "dropWhile (\<lambda>c. \<not> is_space c) (l @ CHR '' '' # w) = CHR '' '' # w"
    using assms by (auto simp: is_space_def[of "CHR '' ''"] takeWhile_append2 dropWhile_append2 takeWhile_eq_all_conv)
  with d d' assms(3,4) show ?thesis by (simp add: scan_s_def Let_def is_space_def[of "CHR '' ''"])
qed

section \<open>The driver behind an option\<close>

text \<open>What a driver call does to the program: the kernel's answer, or the fault that ends it.\<close>

definition kernel_step :: "(int \<times> uarg) kop \<Rightarrow> string \<Rightarrow> app \<Rightarrow> fault + unit \<times> app" where
  "kernel_step m msg s =
    (case m (a_kern s) of
       Inl e \<Rightarrow> Inl e
     | Inr ((r, arg), k) \<Rightarrow> Inr ((), s\<lparr>a_qh := u_hash arg, a_qm := u_mark arg, a_kern := k,
         a_out := a_out s @ (if r < 0 then [msg] else [])\<rparr>))"

lemma app_interface:
  "app_ioc_nr c = ioc_nr c" "app_ioc_struct c = ioc_struct c" "app_ioc_code e c = ioc_code e c"
proof -
  show nr: "app_ioc_nr c = ioc_nr c" by (cases c) simp_all
  have "app_rule_t = qmark_rule_t" "app_hash_t = qmark_hash_t" "app_mark_t = qmark_mark_t"
    "app_netdev_t = qmark_netdev_t" "app_spec_t = qmark_spec_t"
    by (simp_all add: app_rule_t_def qmark_rule_t_def app_hash_t_def qmark_hash_t_def app_mark_t_def qmark_mark_t_def
      app_netdev_t_def qmark_netdev_t_def app_spec_t_def qmark_spec_t_def)
  then show st: "app_ioc_struct c = ioc_struct c" by (cases c) simp_all
  show "app_ioc_code e c = ioc_code e c"
    by (simp add: app_ioc_code_def ioc_code_def ioc_size_def nr st APP_IOC_MAGIC_def)
qed

lemma ioctl_or_step:
  assumes "ioc_env (env (a_kern s))"
  shows "ioctl_or c msg s = kernel_step (ioctl_case c (user_arg s)) msg s"
proof -
  have "qmark_cdev_ioctl (app_ioc_code (env (a_kern s)) c) (user_arg s) (a_kern s) = ioctl_case c (user_arg s) (a_kern s)"
    unfolding app_interface(3) using assms by (rule ioctl_dispatch)
  then show ?thesis
    by (auto simp: ioctl_or_def bindM_def ioctl_def kernel_step_def printf_def whenM_def split: sum.splits prod.splits)
qed

text \<open>\<open>-a\<close> hands the seven numbers to \<open>qmark_add_rule\<close>.\<close>

lemma add_rule_step:
  assumes "ioc_env (env (a_kern s))"
  shows "app_option argv0 (CHR ''a'') (ints_text [rid, mode, devid, rate, rate_mate, rate_min, rate_min_mate]) s =
    (case qmark_add_rule rid mode devid rate rate_mate rate_min rate_min_mate (a_kern s) of
       Inl e \<Rightarrow> Inl e
     | Inr (_, k) \<Rightarrow> Inr (True, s\<lparr>a_qr := \<lparr>q_id = rid, q_mode = mode, q_devid = devid, q_rate = rate,
         q_rate_mate = rate_mate, q_rate_min = rate_min, q_rate_min_mate = rate_min_mate\<rparr>, a_kern := k\<rparr>))"
proof -
  let ?qr = "\<lparr>q_id = rid, q_mode = mode, q_devid = devid, q_rate = rate,
         q_rate_mate = rate_mate, q_rate_min = rate_min, q_rate_min_mate = rate_min_mate\<rparr>"
  let ?ws = "[rid, mode, devid, rate, rate_mate, rate_min, rate_min_mate]"
  have fmt: "fmt_rule = ints_fmt (length ?ws)" by (simp add: fmt_rule_def)
  have scan: "scan_nums fmt_rule rule_vars (ints_text ?ws) s = Inr ((), s\<lparr>a_qr := ?qr\<rparr>)"
    unfolding scan_nums_def fmt scan_ints by (simp add: rule_vars_def)
  have "ioctl_or QMARK_IOC_RULE_ADD ''ioctl add rule failed'' (s\<lparr>a_qr := ?qr\<rparr>) =
      kernel_step (ioctl_rule_add (user_arg (s\<lparr>a_qr := ?qr\<rparr>))) ''ioctl add rule failed'' (s\<lparr>a_qr := ?qr\<rparr>)"
    using assms ioctl_or_step[of "s\<lparr>a_qr := ?qr\<rparr>" QMARK_IOC_RULE_ADD] by simp
  then show ?thesis
    using scan by (auto simp: app_option_def go_on_def kernel_step_def ioctl_rule_add_def copy_in_def user_arg_def
        thenM_def bindM_def Let_def split: sum.splits)
qed

text \<open>An address in the program: its first number is the high byte of the integer.\<close>

definition host_ip :: "u8 \<Rightarrow> u8 \<Rightarrow> u8 \<Rightarrow> u8 \<Rightarrow> u32" where
  "host_ip a b c d = push_bit 24 (ucast a) + push_bit 16 (ucast b) + push_bit 8 (ucast c) + ucast d"

definition dotted :: "u8 \<Rightarrow> u8 \<Rightarrow> u8 \<Rightarrow> u8 \<Rightarrow> string" where
  "dotted a b c d = ip_text (unat a) (unat b) (unat c) (unat d)"

lemma u8_of_int: "(of_int (int (unat a)) :: u32) = ucast a" for a :: u8
  by simp

lemma sum_ip_host: "sum_ip [ucast a, ucast b, ucast c, ucast d] acc = acc + host_ip a b c d"
  by (simp add: sum_ip_def host_ip_def numeral_eq_Suc ac_simps)

text \<open>\<open>-A\<close> adds the address, with mark and rule number, to what the program already holds in \<open>qh.ip\<close>.\<close>

lemma store_hash:
  assumes "length (a_ip s) = 4"
  shows "store_nums hash_vars [Num (int (unat a)), Num (int (unat b)), Num (int (unat c)), Num (int (unat d)),
      Num (uint mark), Num (sint rid)] s =
    s\<lparr>a_ip := [ucast a, ucast b, ucast c, ucast d], a_qh := (a_qh s)\<lparr>h_mark := mark, h_id := rid\<rparr>\<rparr>"
proof -
  obtain p q r t where "a_ip s = [p, q, r, t]" using assms by (auto simp: numeral_eq_Suc length_Suc_conv)
  then show ?thesis by (simp add: hash_vars_def ip_vars_def)
qed

definition with_hash :: "u32 list \<Rightarrow> qmark_hash \<Rightarrow> app \<Rightarrow> app" where
  "with_hash ip qh s = s\<lparr>a_ip := ip, a_qh := qh\<rparr>"

lemma add_hash_step:
  assumes "ioc_env (env (a_kern s))" "length (a_ip s) = 4"
    and t_def: "t = with_hash [ucast a, ucast b, ucast c, ucast d]
      \<lparr>h_ip = h_ip (a_qh s) + host_ip a b c d, h_id = rid, h_mark = mark\<rparr> s"
  shows "app_option argv0 (CHR ''A'') (hash_text (dotted a b c d) mark rid) s =
    go_on (kernel_step (ioctl_hash_add (user_arg t)) ''ioctl add hash failed'') t"
proof -
  have scan: "scan_nums fmt_hash hash_vars (hash_text (dotted a b c d) mark rid) s =
      Inr ((), s\<lparr>a_ip := [ucast a, ucast b, ucast c, ucast d], a_qh := (a_qh s)\<lparr>h_mark := mark, h_id := rid\<rparr>\<rparr>)"
    unfolding scan_nums_def dotted_def scan_hash modify_app store_hash[OF assms(2)] ..
  have add: "add_ip (s\<lparr>a_ip := [ucast a, ucast b, ucast c, ucast d], a_qh := (a_qh s)\<lparr>h_mark := mark, h_id := rid\<rparr>\<rparr>) = Inr ((), t)"
    by (simp add: add_ip_def sum_ip_host t_def with_hash_def)
  have "ioctl_or QMARK_IOC_HASH_ADD ''ioctl add hash failed'' t =
      kernel_step (ioctl_hash_add (user_arg t)) ''ioctl add hash failed'' t"
    using assms(1) ioctl_or_step[of t QMARK_IOC_HASH_ADD] by (simp add: t_def with_hash_def)
  then show ?thesis
    using scan add by (simp add: app_option_def go_on_def thenM_def bindM_def)
qed

section \<open>Byte order\<close>

lemma unat_host_ip: "unat (host_ip a b c d) = 2 ^ 24 * unat a + 2 ^ 16 * unat b + 2 ^ 8 * unat c + unat d"
proof -
  have lt: "unat a < 256" "unat b < 256" "unat c < 256" "unat d < 256"
    using unsigned_less[of a, where ?'a = nat] unsigned_less[of b, where ?'a = nat]
      unsigned_less[of c, where ?'a = nat] unsigned_less[of d, where ?'a = nat] by simp_all
  then have "2 ^ 24 * unat a + 2 ^ 16 * unat b + 2 ^ 8 * unat c + unat d < 2 ^ 32" by simp
  moreover have "host_ip a b c d = of_nat (2 ^ 24 * unat a + 2 ^ 16 * unat b + 2 ^ 8 * unat c + unat d)"
    by (simp add: host_ip_def push_bit_eq_mult)
  ultimately show ?thesis by (simp only: unat_of_nat_u32)
qed

lemma unat_byte: "unat (ucast (drop_bit n w) :: u8) = unat (w :: u32) div 2 ^ n mod 256"
proof -
  have "unat (ucast (drop_bit n w) :: u8) = take_bit 8 (unat (drop_bit n w))" by (simp add: unsigned_ucast_eq)
  also have "unat (drop_bit n w) = drop_bit n (unat w)"
    by (rule bit_eqI) (auto simp: bit_unsigned_iff bit_drop_bit_eq dest: bit_imp_le_length)
  finally show ?thesis by (simp add: take_bit_eq_mod drop_bit_eq_div)
qed

lemma byte_digits:
  fixes a b c d :: nat
  assumes "a < 256" "b < 256" "c < 256" "d < 256"
  defines "n \<equiv> 2 ^ 24 * a + 2 ^ 16 * b + 2 ^ 8 * c + d"
  shows "n div 2 ^ 0 mod 256 = d" "n div 2 ^ 8 mod 256 = c" "n div 2 ^ 16 mod 256 = b" "n div 2 ^ 24 mod 256 = a"
proof -
  have n: "n = ((a * 256 + b) * 256 + c) * 256 + d" by (simp add: n_def)
  have d8: "n div 2 ^ 8 = (a * 256 + b) * 256 + c" using assms(4) unfolding n by simp
  moreover have "n div 2 ^ 16 = n div 2 ^ 8 div 2 ^ 8" by (simp add: div_mult2_eq[symmetric])
  ultimately have d16: "n div 2 ^ 16 = a * 256 + b" using assms(3) by simp
  moreover have "n div 2 ^ 24 = n div 2 ^ 16 div 2 ^ 8" by (simp add: div_mult2_eq[symmetric])
  ultimately have "n div 2 ^ 24 = a" using assms(2) by simp
  with assms(1) show "n div 2 ^ 24 mod 256 = a" by simp
  have "n mod 256 = d" using assms(4) unfolding n by (simp only: mod_mult_self3 mod_less)
  then show "n div 2 ^ 0 mod 256 = d" by simp
  show "n div 2 ^ 8 mod 256 = c" "n div 2 ^ 16 mod 256 = b" unfolding d8 d16
    using assms(2,3) by (simp_all only: mod_mult_self3 mod_less)
qed

lemma host_ip_bytes: "key_bytes be (host_ip a b c d) = (if be then [a, b, c, d] else [d, c, b, a])"
proof -
  have lt: "unat a < 256" "unat b < 256" "unat c < 256" "unat d < 256"
    using unsigned_less[of a, where ?'a = nat] unsigned_less[of b, where ?'a = nat]
      unsigned_less[of c, where ?'a = nat] unsigned_less[of d, where ?'a = nat] by simp_all
  have "ucast (drop_bit 0 (host_ip a b c d)) = d" "ucast (drop_bit 8 (host_ip a b c d)) = c"
    "ucast (drop_bit 16 (host_ip a b c d)) = b" "ucast (drop_bit 24 (host_ip a b c d)) = a"
    unfolding word_unat_eq_iff unat_byte unat_host_ip byte_digits[OF lt] by (rule refl)+
  then show ?thesis by (simp add: key_bytes_def)
qed

section \<open>Device names\<close>

lemma write_str_ok:
  "off + length w + 1 \<le> length (a_qn s) \<Longrightarrow>
   write_str off w s = Inr ((), s\<lparr>a_qn := take off (a_qn s) @ w @ [CHR 0x00] @ drop (off + length w + 1) (a_qn s)\<rparr>)"
  by (simp add: write_str_def)

definition dev_word :: "string \<Rightarrow> bool" where
  "dev_word w \<longleftrightarrow> w \<noteq> [] \<and> length w < 16 \<and> (\<forall>c \<in> set w. \<not> is_space c \<and> c \<noteq> CHR 0x00)"

lemma scan_netdev_names:
  assumes "dev_word l" "dev_word w" "length (a_qn s) = 32"
  shows "\<exists>t. scan_netdev (l @ CHR '' '' # w) s = Inr ((), t) \<and> a_kern t = a_kern s \<and> a_out t = a_out s \<and> length (a_qn t) = 32 \<and>
    (\<exists>x y. take 16 (a_qn t) = l @ CHR 0x00 # x \<and> drop 16 (a_qn t) = w @ CHR 0x00 # y)"
proof -
  have scan: "sscanf [ConvS, Space, ConvS] (l @ CHR '' '' # w) = [Word l, Word w]"
    using assms by (intro scan_words) (auto simp: dev_word_def)
  define s1 where "s1 = s\<lparr>a_qn := l @ [CHR 0x00] @ drop (length l + 1) (a_qn s)\<rparr>"
  have w1: "write_str 0 l s = Inr ((), s1)" using assms by (simp add: write_str_ok s1_def dev_word_def)
  have len: "length (a_qn s1) = 32" using assms by (simp add: s1_def dev_word_def)
  define s2 where "s2 = s1\<lparr>a_qn := take 16 (a_qn s1) @ w @ [CHR 0x00] @ drop (16 + length w + 1) (a_qn s1)\<rparr>"
  have w2: "write_str 16 w s1 = Inr ((), s2)" using assms len by (simp add: write_str_ok s2_def dev_word_def)
  have "scan_netdev (l @ CHR '' '' # w) s = Inr ((), s2)"
    unfolding scan_netdev_def scan using w1 w2 by simp
  moreover have "take 16 (a_qn s2) = take 16 (a_qn s1)" using len by (simp add: s2_def)
  moreover have "\<exists>x. take 16 (a_qn s1) = l @ CHR 0x00 # x"
    using assms(1) by (auto simp: s1_def dev_word_def take_Cons' intro!: exI)
  moreover have "\<exists>y. drop 16 (a_qn s2) = w @ CHR 0x00 # y" using len by (simp add: s2_def)
  moreover have "a_kern s2 = a_kern s" "a_out s2 = a_out s" by (simp_all add: s1_def s2_def)
  moreover have "length (a_qn s2) = 32" using len assms(2) by (simp add: s2_def dev_word_def)
  ultimately show ?thesis by auto
qed

lemma netdev_set_spec:
  "\<not> qmark_op_lock s \<Longrightarrow> netdev_set l w s = Inr ((), s\<lparr>qmark_lan_dev := take 16 l, qmark_wan_dev := take 16 w\<rparr>)"
  by (simp add: netdev_set_def op_lock_def op_unlock_def kst_sort del: quiet_ops)

lemma set_devices_step:
  assumes "ioc_env (env (a_kern s))" "\<not> qmark_op_lock (a_kern s)" "length (a_qn s) = 32" "dev_word l" "dev_word w"
  shows "\<exists>t x y. app_option argv0 (CHR ''n'') (l @ CHR '' '' # w) s = Inr (True, t) \<and> a_out t = a_out s \<and>
    a_kern t = a_kern s\<lparr>qmark_lan_dev := l @ CHR 0x00 # x, qmark_wan_dev := w @ CHR 0x00 # y\<rparr>"
proof -
  obtain u x y where u: "scan_netdev (l @ CHR '' '' # w) s = Inr ((), u)" "a_kern u = a_kern s" "a_out u = a_out s"
    "length (a_qn u) = 32" "take 16 (a_qn u) = l @ CHR 0x00 # x" "drop 16 (a_qn u) = w @ CHR 0x00 # y"
    using scan_netdev_names[OF assms(4,5,3)] by blast
  have len: "length (l @ CHR 0x00 # x) = 16" "length (w @ CHR 0x00 # y) = 16"
    unfolding u(5)[symmetric] u(6)[symmetric] using u(4) by simp_all
  let ?k = "a_kern s\<lparr>qmark_lan_dev := l @ CHR 0x00 # x, qmark_wan_dev := w @ CHR 0x00 # y\<rparr>"
  have "netdev_set (l @ CHR 0x00 # x) (w @ CHR 0x00 # y) (a_kern s) = Inr ((), ?k)"
    unfolding netdev_set_spec[OF assms(2)] using len by (simp only: take_all order_refl)
  then have "ioctl_netdev_set (user_arg u) (a_kern u) = Inr ((0, user_arg u), ?k)"
    by (simp add: ioctl_netdev_set_def copy_in_def user_arg_def u)
  moreover have "ioctl_or QMARK_IOC_NETDEV_SET ''ioctl net dev set failed'' u =
      kernel_step (ioctl_netdev_set (user_arg u)) ''ioctl net dev set failed'' u"
    using ioctl_or_step[of u QMARK_IOC_NETDEV_SET] assms(1) u(2) by simp
  ultimately have "app_option argv0 (CHR ''n'') (l @ CHR '' '' # w) s =
      Inr (True, u\<lparr>a_qh := a_qh u, a_qm := a_qm u, a_kern := ?k, a_out := a_out u\<rparr>)"
    using u(1) by (simp add: app_option_def go_on_def kernel_step_def user_arg_def thenM_def bindM_def)
  then show ?thesis using u(3) by (intro exI[of _ x] exI[of _ y] exI conjI) (assumption, simp_all)
qed

end
