(* ===== verification/Props_User.thy ===== *)
theory Props_User
  imports Props_System Xt_Module Libxt_Qmark Qmark_App_Spec
begin

text \<open>Properties of the interfaces: packets, the ioctl numbers, the command line tool and iptables.\<close>

section \<open>Packets\<close>

text \<open>
  C7: a packet whose address is known continues with the mark of the address under the target's mask, and
  neither the module's state nor anything else of the packet changes. Beside the mask a bit of the packet's
  mark is kept where the address's mark is clear and flipped where it is set; so when the mask covers the
  address's mark, the packet reads that mark under the mask and keeps all its other bits.
\<close>

theorem packet_of_known_address:
  assumes "qos_inv s" and "ip_hdr skb = Some iph" and "table s (packet_ip iph info) = Some n"
  shows "\<exists>m. qmark_tg (Some skb) info s = Inr ((XT_CONTINUE, skb\<lparr>skb_mark := m\<rparr>), s) \<and>
    (\<forall>i. bit m i \<longleftrightarrow> (if bit (tg_mask info) i then bit (n_mark n) i else bit (skb_mark skb) i \<noteq> bit (n_mark n) i)) \<and>
    (n_mark n AND NOT (tg_mask info) = 0 \<longrightarrow>
      m AND tg_mask info = n_mark n \<and> m AND NOT (tg_mask info) = skb_mark skb AND NOT (tg_mask info))"
  using qmark_tg_known[OF assms] set_mark_bits[of "n_mark n" "tg_mask info" "skb_mark skb"] bit_set_mark
  unfolding marked_def by blast

theorem packet_of_known_address_witness:
  "qmark_tg (Some sample_packet) sample_info (sample_one sample_env) =
    Inr ((XT_CONTINUE, sample_packet\<lparr>skb_mark := 0x812\<rparr>), sample_one sample_env)"
proof -
  have "table (sample_one sample_env) (packet_ip \<lparr>saddr = sample_ip, daddr = 0x08080808\<rparr> sample_info) = Some sample_node"
    by (simp add: sample_one_inv(2) packet_ip_def sample_info_def)
  moreover have "ip_hdr sample_packet = Some \<lparr>saddr = sample_ip, daddr = 0x08080808\<rparr>" by (simp add: sample_packet_def)
  ultimately obtain m where m: "qmark_tg (Some sample_packet) sample_info (sample_one sample_env) =
      Inr ((XT_CONTINUE, sample_packet\<lparr>skb_mark := m\<rparr>), sample_one sample_env)"
    "m AND 0xfff800 = 0x800" "m AND NOT 0xfff800 = 0x12"
    using packet_of_known_address[OF sample_one_inv(1)[OF fits_envs(1)], of sample_packet "\<lparr>saddr = sample_ip, daddr = 0x08080808\<rparr>" sample_info sample_node]
    by (auto simp: sample_packet_def sample_info_def sample_node_def)
  have "m = (m AND k) OR (m AND NOT k)" for k
    by (rule bit_word_eqI) (auto simp: bit_and_iff bit_or_iff bit_not_iff)
  from this[of "0xfff800"] have "m = 0x812" unfolding m(2,3) by simp
  with m(1) show ?thesis by simp
qed

text \<open>
  C8: the first packet of an address is marked as soon as it can be: when the address is admissible under
  the target's rule, the packet gets the granted mark and the address is admitted; when it is not, the
  packet continues unmarked and no address is admitted. The target never faults and always lets the
  packet continue.
\<close>

theorem packet_of_new_address:
  assumes "qos_inv s" and "ip_hdr skb = Some iph" and "table s (packet_ip iph info) = None" and "rule_number s (tg_id info)"
  shows "\<exists>t skb'. qmark_tg (Some skb) info s = Inr ((XT_CONTINUE, skb'), t) \<and> qos_inv t \<and>
    (if admissible (tg_id info) s
     then skb' = skb\<lparr>skb_mark := set_mark (skb_mark skb) (tg_mask info) (granted_mark (tg_id info) s)\<rparr> \<and>
       view t = admit (packet_ip iph info) (tg_id info) s
     else skb' = skb \<and> table t = table s \<and> used_marks t = used_marks s)"
proof -
  obtain t where t: "qos_inv t" "if admissible (tg_id info) s
    then qmark_tg (Some skb) info s = Inr ((XT_CONTINUE, marked skb info (granted_mark (tg_id info) s)), t) \<and>
      view t = admit (packet_ip iph info) (tg_id info) s
    else qmark_tg (Some skb) info s = Inr ((XT_CONTINUE, skb), t) \<and>
      (view t = view s \<or> unshared (the_rules s ! unat (tg_id info - 1)) \<and>
       view t = configure (tg_id info) (\<lambda>r. r\<lparr>r_mark := 0\<rparr>) (view s))"
    using qmark_tg_first[OF assms(1-3)] assms(4) unfolding rule_number_def by blast
  have same: "table t = table s \<and> used_marks t = used_marks s"
    if "view t = view s \<or> view t = configure (tg_id info) f (view s)" for f
    using that by (auto simp: configure_def view_def)
  show ?thesis
  proof (cases "admissible (tg_id info) s")
    case True
    with t(2) have "qmark_tg (Some skb) info s = Inr ((XT_CONTINUE, marked skb info (granted_mark (tg_id info) s)), t)"
      "view t = admit (packet_ip iph info) (tg_id info) s" by simp_all
    with True t(1) show ?thesis unfolding marked_def by (simp only: if_True) blast
  next
    case False
    with t(2) have "qmark_tg (Some skb) info s = Inr ((XT_CONTINUE, skb), t)" "table t = table s \<and> used_marks t = used_marks s"
      using same by (simp_all only: if_False) blast
    with False t(1) show ?thesis by (simp only: if_False) blast
  qed
qed

theorem packet_of_new_address_witness:
  "\<exists>t. qmark_tg (Some sample_packet) sample_info (sample_boot sample_env) =
    Inr ((XT_CONTINUE, sample_packet\<lparr>skb_mark := set_mark 0x12 0xfff800 (granted_mark 1 (sample_boot sample_env))\<rparr>), t) \<and> qos_inv t"
  using packet_of_new_address[OF sample_boot_inv(1), of sample_env sample_packet "\<lparr>saddr = sample_ip, daddr = 0x08080808\<rparr>" sample_info]
    sample_boot_admissible sample_boot_rule
  by (auto simp: sample_packet_def sample_info_def sample_boot_inv(2))

text \<open>
  C11: with at most 8191 addresses and the mask \<open>0xfff800\<close> the mark of a known address is what the masked
  bits of the packet read, it is not 0, and the packet's other bits stay.
\<close>

theorem packet_mark_bits:
  assumes "qos_inv s" and "unat (max_ip_cnt s) \<le> 8191" and "table s ip = Some n"
  shows "set_mark old 0xfff800 (n_mark n) AND 0xfff800 = n_mark n \<and> n_mark n AND 0xfff800 \<noteq> 0 \<and>
    set_mark old 0xfff800 (n_mark n) AND NOT 0xfff800 = old AND NOT 0xfff800"
proof -
  have "n_mark n \<in> used_marks s" using view_node(3)[OF assms(1,3)] .
  then obtain i where i: "i < unat (max_ip_cnt s)" "n_mark n = mark_of i" by (auto simp: used_marks_def)
  then have "i < 8191" using assms(2) by simp
  from mark_in_mask[OF this] show ?thesis using set_mark_bits[of "n_mark n" "0xfff800" old] by (simp add: i(2))
qed

theorem packet_mark_bits_witness: "set_mark 0x12 0xfff800 0x800 AND 0xfff800 = 0x800"
  using packet_mark_bits[OF sample_one_inv(1), of sample_env sample_ip sample_node "0x12"] sample_one_inv(2)[of sample_env]
  by (simp add: sample_node_def)

text \<open>
  The 8192nd mark lies outside the mask: connections that carry it are ignored by the conntrack
  handler, whatever the event, so their address never leaves the table.
\<close>

lemma mark_beyond_mask:
  assumes "ct_mark ct = mark_of 8191"
  shows "qmark_conntrack_event events (Some ct) s = Inr ((), s)"
proof -
  have "ct_mark ct AND 0xfff800 = 0" using assms by (simp add: mark_of_def)
  then show ?thesis by (simp add: qmark_conntrack_event_def)
qed

lemma mark_beyond_mask_example:
  "qmark_conntrack_event 4 (Some (sample_conn\<lparr>ct_mark := mark_of 8191\<rparr>)) (sample_one sample_env) = Inr ((), sample_one sample_env)"
  by (rule mark_beyond_mask) simp

section \<open>The character device\<close>

lemma ioctl_other:
  assumes "\<nexists>c. ioc_code (env s) c = cmd"
  shows "\<exists>msg. qmark_cdev_ioctl cmd arg s = Inr ((- EINVAL, arg), s\<lparr>klog := klog s @ [(msg, [cmd])]\<rparr>)"
proof -
  have "ioc_of (env s) cmd = None" using assms by (auto simp: ioc_of_def find_None_iff)
  then have "\<exists>msg. qmark_cdev_ioctl cmd arg s = einval msg [cmd] arg s" by (auto simp: qmark_cdev_ioctl_def)
  moreover have "einval msg [cmd] arg s = Inr ((- EINVAL, arg), s\<lparr>klog := klog s @ [(msg, [cmd])]\<rparr>)" for msg
    by (simp add: einval_def printk_def del: quiet_ops EINVAL_def)
  ultimately show ?thesis by (simp del: EINVAL_def)
qed

text \<open>
  C24: the number of a command selects its case, and no other number selects anything: for every
  command of the enumeration the driver does what that case does, past both checks; a number of no command
  is refused with \<open>-EINVAL\<close>, logged once, and changes nothing else.
\<close>

theorem ioctl_selects_case:
  assumes "ioc_env (env s)"
  shows "qmark_cdev_ioctl (ioc_code (env s) c) arg s = ioctl_case c arg s \<and>
    ((\<nexists>d. ioc_code (env s) d = cmd) \<longrightarrow>
     (\<exists>msg. qmark_cdev_ioctl cmd arg s = Inr ((- EINVAL, arg), s\<lparr>klog := klog s @ [(msg, [cmd])]\<rparr>)))"
  using ioctl_dispatch[OF assms, of c arg] ioctl_other[of s cmd arg] by blast

lemma sample_ioc: "ioc_env sample_env"
  by (simp add: ioc_env_def sample_env_def)

definition sample_arg :: uarg where
  "sample_arg = user_arg (app_start (0, 0) (sample_boot sample_env))"

theorem ioctl_selects_case_witness:
  "qmark_cdev_ioctl 0x710d sample_arg (sample_boot sample_env) = ioctl_case QMARK_IOC_DUMP sample_arg (sample_boot sample_env) \<and>
   (\<exists>msg. qmark_cdev_ioctl 0x7113 sample_arg (sample_boot sample_env) =
     Inr ((- EINVAL, sample_arg), sample_boot sample_env\<lparr>klog := klog (sample_boot sample_env) @ [(msg, [0x7113])]\<rparr>))"
proof -
  have "ioc_nr c \<noteq> 0x13" for c by (cases c) simp_all
  moreover have "IOC_NR 0x7113 = 0x13" by (simp add: IOC_NR_def)
  ultimately have "ioc_code sample_env c \<noteq> 0x7113" for c using ioc_code_nr(1)[OF sample_ioc, of c] by auto
  then have none: "\<nexists>c. ioc_code (env (sample_boot sample_env)) c = 0x7113" by simp
  have "ioc_code sample_env QMARK_IOC_DUMP = 0x710d" by (simp add: ioc_code_def) (simp add: sample_env_def)
  then show ?thesis
    using ioctl_selects_case[of "sample_boot sample_env" QMARK_IOC_DUMP sample_arg "0x7113"] sample_ioc none
    by (simp del: EINVAL_def)
qed

text \<open>
  C25: the tool and the driver declare the same interface: for every command the struct has the same
  members in the same order and the number is the same, and no other command has that number.
\<close>

theorem tool_declares_interface:
  assumes "ioc_env e"
  shows "app_ioc_struct c = ioc_struct c \<and> app_ioc_code e c = ioc_code e c \<and> (app_ioc_code e c = ioc_code e d \<longrightarrow> c = d)"
  using app_interface ioc_code_inj[OF assms] by simp

theorem tool_declares_interface_witness:
  "app_ioc_code sample_env QMARK_IOC_SPEC_SET = ioc_code sample_env QMARK_IOC_SPEC_SET \<and>
    app_ioc_code sample_env QMARK_IOC_SPEC_SET \<noteq> ioc_code sample_env QMARK_IOC_TC_ADD"
  using tool_declares_interface[OF sample_ioc, of QMARK_IOC_SPEC_SET QMARK_IOC_TC_ADD] by auto

text \<open>
  A failed copy is not noticed: the number of bytes that could not be copied, which is what the copying
  calls return, is never negative.
\<close>

lemma copy_failures_ignored:
  "copy_in arg msg k = k" "copy_out arg f msg = ret (0, if u_to_left arg = 0 then f arg else arg)"
  by (simp_all add: copy_in_def copy_out_def)

section \<open>The command line tool\<close>

text \<open>
  C26: \<open>qmark -a\<close> with seven numbers in decimal configures the rule of the running module with exactly those
  numbers: what is printed with \<open>%d\<close> arrives, through the text, the ioctl number and the struct.
\<close>

theorem app_adds_rule:
  assumes "ioc_env (env (a_kern s))" and "qos_inv (a_kern s)" and "idle_rule (a_kern s) rid"
    and "rate_ok rate_min_mate 125" and "rate_ok rate_mate 125000000" and "rate_ok rate_min 125" and "rate_ok rate 125000000"
  shows "\<exists>t. app_option argv0 (CHR ''a'') (ints_text [rid, mode, devid, rate, rate_mate, rate_min, rate_min_mate]) s = Inr (True, t) \<and>
    qos_inv (a_kern t) \<and> a_out t = a_out s \<and>
    view (a_kern t) = configure rid (rule_settings mode devid rate rate_mate rate_min rate_min_mate) (view (a_kern s))"
proof -
  have "\<exists>k. qmark_add_rule rid mode devid rate rate_mate rate_min rate_min_mate (a_kern s) = Inr ((), k) \<and> qos_inv k \<and>
      view k = configure rid (rule_settings mode devid rate rate_mate rate_min rate_min_mate) (view (a_kern s))"
    using assms(2-) by (intro qmark_add_rule_cases) (auto simp: idle_rule_def rule_number_def rule_rates_ok_def rule_settings_def)
  then show ?thesis unfolding add_rule_step[OF assms(1)] by auto
qed

theorem app_adds_rule_witness:
  "\<exists>t. app_option ''qmark'' (CHR ''a'') (ints_text [1, 0, 2, 1000, 1000, 100, 100]) (app_start (0, 0) (sample_boot sample_env)) = Inr (True, t) \<and>
    qos_inv (a_kern t)"
  using app_adds_rule[of "app_start (0, 0) (sample_boot sample_env)" 1 100 1000 100 1000 "''qmark''" 0 2]
    sample_ioc sample_boot_inv(1)[of sample_env] sample_boot_idle sample_rates by (auto simp: app_start_def)

text \<open>The option, when the driver accepts the address.\<close>

lemma add_hash_option:
  assumes "ioc_env (env (a_kern s))" and "length (a_ip s) = 4"
    and "addr = h_ip (a_qh s) + host_ip a b c d" and "addr \<noteq> 0"
    and "qmark_add_hash addr rid mark (a_kern s) = Inr (OK, k)"
  shows "app_option argv0 (CHR ''A'') (hash_text (dotted a b c d) mark rid) s =
    Inr (True, s\<lparr>a_ip := [ucast a, ucast b, ucast c, ucast d], a_qh := \<lparr>h_ip = addr, h_id = rid, h_mark = mark\<rparr>, a_kern := k\<rparr>)"
proof -
  let ?t = "with_hash [ucast a, ucast b, ucast c, ucast d] \<lparr>h_ip = addr, h_id = rid, h_mark = mark\<rparr> s"
  have "ioctl_hash_add (user_arg ?t) (a_kern ?t) = Inr ((0, user_arg ?t), k)"
    using assms(4,5) by (simp add: ioctl_hash_add_def copy_in_def user_arg_def with_hash_def Let_def)
  then show ?thesis
    unfolding add_hash_step[OF assms(1,2) refl, of argv0] assms(3)[symmetric]
    by (simp add: go_on_def kernel_step_def user_arg_def with_hash_def thenM_def bindM_def)
qed

text \<open>
  C27: \<open>qmark -A\<close> puts the four numbers of an address into one integer, first number in the high byte, and
  adds it to what an earlier option left in \<open>qh.ip\<close>; mark and rule number arrive as printed. With the sum
  0 the driver refuses it.
\<close>

theorem app_adds_hash:
  assumes "ioc_env (env (a_kern s))" and "length (a_ip s) = 4"
    and "addr = h_ip (a_qh s) + host_ip a b c d" and "addr \<noteq> 0"
    and "qmark_add_hash addr rid mark (a_kern s) = Inr (OK, k)"
  shows "app_option argv0 (CHR ''A'') (hash_text (dotted a b c d) mark rid) s =
    Inr (True, s\<lparr>a_ip := [ucast a, ucast b, ucast c, ucast d], a_qh := \<lparr>h_ip = addr, h_id = rid, h_mark = mark\<rparr>, a_kern := k\<rparr>)"
  by (rule add_hash_option[OF assms])

theorem app_adds_hash_witness:
  "\<exists>k. app_option ''qmark'' (CHR ''A'') (hash_text (dotted 10 0 0 1) 0x800 1) (app_start (0, 0) (put_bit 0 True (sample_boot sample_env))) =
    Inr (True, (app_start (0, 0) (put_bit 0 True (sample_boot sample_env)))
      \<lparr>a_ip := [10, 0, 0, 1], a_qh := \<lparr>h_ip = 0x0a000001, h_id = 1, h_mark = 0x800\<rparr>, a_kern := k\<rparr>)"
proof -
  let ?s = "put_bit 0 True (sample_boot sample_env)"
  have S: "shape ?s" using sample_boot_inv(1)[of sample_env] by (simp add: qos_inv_def)
  have "has_room ?s" by (simp add: has_room_def empty_head_def)
  then have "\<exists>k. qmark_add_hash 0x0a000001 1 (mark_of 0) ?s = Inr (OK, k)"
    using qmark_add_hash_spec[OF shapeD(2,1,3,4,6)[OF S], of 1 "0x0a000001" 0] sample_boot_inv(2,4)[of sample_env] by simp
  then obtain k where k: "qmark_add_hash 0x0a000001 1 0x800 ?s = Inr (OK, k)" unfolding mark_0 by blast
  have "host_ip 10 0 0 1 = 0x0a000001" by (simp add: host_ip_def)
  then show ?thesis
    using app_adds_hash[of "app_start (0, 0) ?s" "0x0a000001" 10 0 0 1 1 "0x800" k "''qmark''"] k sample_ioc
    by (auto simp: app_start_def zero_qh_def)
qed

text \<open>An address entered by hand under a mark in use is in the table, and a lookup finds it.\<close>

lemma entered_by_hand:
  assumes S: "shape k" and i: "rule_number k rid" and new: "table k ip = None" and m: "mark \<in> used_marks k"
    and ok: "has_room k" "node_memory k"
  shows "\<exists>t. qmark_add_hash ip rid mark k = Inr (OK, t) \<and>
    (\<forall>w. qmark_find_hash w t = Inr (if w = ip then (OK, mark) else case table k w of None \<Rightarrow> (NO_EXIST, 0) | Some n \<Rightarrow> (OK, n_mark n), t))"
proof -
  obtain j where j: "j < unat (max_ip_cnt k)" "mark_bits k ! j" "mark = mark_of j" using m by (auto simp: used_marks_def)
  let ?n = "new_entry ip rid mark"
  let ?u = "count_rule (rid - 1) 1 (insert_node ?n k)"
  have n: "n_src_ip ?n = ip" "n_mark ?n = mark" by (simp_all add: new_entry_def)
  obtain a b q where t: "qmark_add_hash ip rid mark k = Inr (OK, quiet False a b q ?u)"
    using qmark_add_hash_spec[OF shapeD(2,1,3,4,6)[OF S] i[unfolded rule_number_def] new j(1,2)] ok j(3) by (auto simp: node_memory_def)
  have ins: "shape (insert_node ?n k)" using new ok by (intro shape_insert[OF S]) (simp_all add: n)
  then have wf: "table_wf (quiet False a b q ?u)"
    unfolding count_rule_def using shapeD(8)[OF ins] shape_map_rule[OF ins] shapeD(2) by (auto intro!: shapeD(2))
  have "view (insert_node ?n k) = view k\<lparr>v_table := (table k)(ip \<mapsto> ?n)\<rparr>" using view_insert[OF S, of ?n] new by (simp add: n)
  from arg_cong[OF this, of v_table] have tab: "table (quiet False a b q ?u) = (table k)(ip \<mapsto> ?n)" by (simp add: count_rule_def)
  have "qmark_find_hash w (quiet False a b q ?u) = Inr (if w = ip then (OK, mark)
      else case table k w of None \<Rightarrow> (NO_EXIST, 0) | Some n \<Rightarrow> (OK, n_mark n), quiet False a b q ?u)" for w
    using qos_marktbl_hashtbl_get_spec[OF wf, of w] tab n by (simp add: qmark_find_hash_def split: option.split)
  with t show ?thesis by blast
qed

lemma host_ip_eq:
  assumes "key_bytes be w = [a, b, c, d]"
  shows "host_ip a b c d = w \<longleftrightarrow> be \<or> (a = d \<and> b = c)"
proof -
  have "host_ip a b c d = w \<longleftrightarrow> key_bytes be (host_ip a b c d) = key_bytes be w"
    by (metis key_bytes_inj)
  then show ?thesis unfolding host_ip_bytes assms by auto
qed

text \<open>
  C40: an address entered with \<open>qmark -A\<close> is the address packets are looked up under only on a big-endian machine. Let
  \<open>w\<close> be the address \<open>a.b.c.d\<close>, not 0, as packets carry it, with these four bytes in this order in memory, and let
  neither it nor its reverse be known. When \<open>qmark -A "a.b.c.d 0xmark id"\<close> is the first option with an address, the mark is in
  use and there is room in the table and memory for the node, then afterwards the lookup of \<open>w\<close> finds the mark when the machine is big-endian or the address reads the same
  backwards, and otherwise does not know the address.
\<close>

theorem app_address_byte_order:
  assumes "ioc_env (env (a_kern s))" and "length (a_ip s) = 4" and "h_ip (a_qh s) = 0" and "qos_inv (a_kern s)"
    and "rule_number (a_kern s) rid" and "mark \<in> used_marks (a_kern s)" and "has_room (a_kern s)" and "node_memory (a_kern s)"
    and "key_bytes (big_endian (env (a_kern s))) w = [a, b, c, d]" and "w \<noteq> 0"
    and "\<forall>v. key_bytes False v \<in> {[a, b, c, d], [d, c, b, a]} \<longrightarrow> table (a_kern s) v = None"
  shows "\<exists>t. app_option argv0 (CHR ''A'') (hash_text (dotted a b c d) mark rid) s = Inr (True, t) \<and>
    qmark_find_hash w (a_kern t) = Inr (if big_endian (env (a_kern s)) \<or> (a = d \<and> b = c) then (OK, mark) else (NO_EXIST, 0), a_kern t)"
proof -
  let ?be = "big_endian (env (a_kern s))" and ?h = "host_ip a b c d"
  have S: "shape (a_kern s)" using assms(4) by (simp add: qos_inv_def)
  have bytes: "key_bytes ?be 0 = [0, 0, 0, 0]" "key_bytes ?be ?h = (if ?be then [a, b, c, d] else [d, c, b, a])"
    by (simp add: key_bytes_def Let_def, rule host_ip_bytes)
  have "[a, b, c, d] \<noteq> [0, 0, 0, 0]" using assms(9,10) bytes(1) key_bytes_inj by metis
  then have nz: "?h \<noteq> 0" using bytes by (metis list.inject)
  have none: "table (a_kern s) ?h = None" "table (a_kern s) w = None"
    using assms(9,11) bytes(2) by (auto simp: key_bytes_def split: if_splits)
  obtain k where k: "qmark_add_hash ?h rid mark (a_kern s) = Inr (OK, k)"
      "\<And>v. qmark_find_hash v k = Inr (if v = ?h then (OK, mark) else case table (a_kern s) v of None \<Rightarrow> (NO_EXIST, 0) | Some n \<Rightarrow> (OK, n_mark n), k)"
    using entered_by_hand[OF S assms(5) none(1) assms(6-8)] by blast
  have "w = ?h \<longleftrightarrow> ?be \<or> (a = d \<and> b = c)" using host_ip_eq[OF assms(9)] by auto
  with k(2)[of w] none(2) have "qmark_find_hash w k = Inr (if ?be \<or> (a = d \<and> b = c) then (OK, mark) else (NO_EXIST, 0), k)" by simp
  then show ?thesis
    using add_hash_option[OF assms(1,2) _ nz k(1), of a b c d argv0] assms(3) by simp
qed

theorem app_address_byte_order_witness:
  "\<exists>t. app_option ''qmark'' (CHR ''A'') (hash_text (dotted 10 0 0 3) 0x800 1) (app_start (0, 0) (sample_one sample_env)) = Inr (True, t) \<and>
    qmark_find_hash 0x0300000a (a_kern t) = Inr ((NO_EXIST, 0), a_kern t)"
proof -
  note I = sample_one_inv[OF fits_envs(1)]
  have "shape (sample_one sample_env)" using I(1) by (simp add: qos_inv_def)
  from has_room_iff[OF this] have room: "has_room (sample_one sample_env)" using I(2) by simp
  have known: "key_bytes False sample_ip = [10, 0, 0, 1]" by (simp add: key_bytes_def sample_ip_def)
  show ?thesis
    using app_address_byte_order[of "app_start (0, 0) (sample_one sample_env)" 1 "0x800" "0x0300000a" 10 0 0 3 "''qmark''"] I room known sample_ioc
    by (auto simp: app_start_def zero_qh_def rule_number_def node_memory_def) (simp_all add: key_bytes_def sample_env_def)
qed

text \<open>
  C28: \<open>qmark -n\<close> with two names of 1 to 15 characters leaves exactly these names, terminated, in the module,
  so that traffic control can read them.
\<close>

theorem app_sets_devices:
  assumes "ioc_env (env (a_kern s))" and "qos_inv (a_kern s)" and "length (a_qn s) = 32" and "dev_word l" and "dev_word w"
  shows "\<exists>t. app_option argv0 (CHR ''n'') (l @ CHR '' '' # w) s = Inr (True, t) \<and> a_out t = a_out s \<and>
    dev_name 0 (a_kern t) = l \<and> dev_name 1 (a_kern t) = w \<and> tc_ready (a_kern t)"
proof -
  have S: "shape (a_kern s)" using assms(2) by (simp add: qos_inv_def)
  obtain t x y where t: "app_option argv0 (CHR ''n'') (l @ CHR '' '' # w) s = Inr (True, t)" "a_out t = a_out s"
    "a_kern t = a_kern s\<lparr>qmark_lan_dev := l @ CHR 0x00 # x, qmark_wan_dev := w @ CHR 0x00 # y\<rparr>"
    using set_devices_step[OF assms(1) shapeD(4)[OF S] assms(3-5)] by blast
  have "CHR 0x00 \<notin> set l" "CHR 0x00 \<notin> set w" using assms(4,5) by (auto simp: dev_word_def)
  then have "takeWhile (\<lambda>c. c \<noteq> CHR 0x00) (l @ CHR 0x00 # x) = l" "takeWhile (\<lambda>c. c \<noteq> CHR 0x00) (w @ CHR 0x00 # y) = w"
    by (subst takeWhile_append2; auto)+
  moreover have "tc_ready (a_kern t)" using shapeD(5)[OF S] by (simp add: tc_ready_def t(3))
  ultimately show ?thesis using t by (intro exI[of _ t]) (simp add: dev_name_def)
qed

theorem app_sets_devices_witness:
  "\<exists>t. app_option ''qmark'' (CHR ''n'') ''br-lan ifb1'' (app_start (0, 0) (sample_boot sample_env)) = Inr (True, t) \<and>
    dev_name 0 (a_kern t) = ''br-lan'' \<and> dev_name 1 (a_kern t) = ''ifb1''"
  using app_sets_devices[of "app_start (0, 0) (sample_boot sample_env)" "''br-lan''" "''ifb1''" "''qmark''"]
    sample_ioc sample_boot_inv(1)[of sample_env] by (auto simp: app_start_def dev_word_def is_space_def)

section \<open>iptables\<close>

text \<open>
  Iptables and the kernel register the same target: the extension hands the library exactly one target,
  whose name, revision and family are those the kernel registers, whose size is the kernel's aligned, and
  whose target information has the kernel's layout.
\<close>

lemma targets_agree:
  "libxt_init (map (\<lambda>t. (xl_name t, xl_revision t, xl_family t, xl_size t, xl_userspacesize t))) version a =
     [(xt_name qmark_tg_reg, xt_revision qmark_tg_reg, xt_family qmark_tg_reg, XT_ALIGN a (xt_targetsize qmark_tg_reg),
       XT_ALIGN a (xt_targetsize qmark_tg_reg))] \<and>
   libxt_tginfo_t = tginfo_t"
  by (simp add: libxt_init_def qmark_reg_def qmark_tg_reg_def libxt_tginfo_t_def tginfo_t_def)

text \<open>
  C29: the options \<open>qmark_save\<close> prints, split into words and parsed again, give the same target information
  and pass \<open>qmark_check\<close>, for every mask and every rule number and direction below \<open>2\<^sup>3\<^sup>1\<close>; larger ones are
  printed as negative numbers, which the option reader refuses.
\<close>

theorem saved_target_parses:
  assumes "reads_uint32 rd"
  shows "parse_words rd (split_words (qmark_save info)) (0, info0) =
      Some (if sint (tg_id info) < 0 \<or> sint (tg_dir info) < 0 then Inl BadValue else Inr (7, info)) \<and>
    qmark_check 7 = ([], Inr ())"
  using parse_saved[OF assms] by (simp add: qmark_check_def)

theorem saved_target_parses_witness:
  "parse_words sample_reader (split_words (qmark_save sample_info)) (0, \<lparr>tg_mask = 0, tg_id = 0, tg_dir = 0\<rparr>) = Some (Inr (7, sample_info))"
  using saved_target_parses[OF sample_reader_ok, of sample_info] by (simp add: sample_info_def)

end
