(* ===== verification/Packet_Steps.thy ===== *)
theory Packet_Steps
  imports Xt_Qmark
begin

text \<open>
  The packet path of \<open>Xt_Qmark\<close> and \<open>Qmark_Api\<close> cut at the points where another processor may come in
  between: \<open>qmark_handle\<close> holds no lock across its calls, and each of \<open>qmark_alloc_mark\<close>, \<open>qmark_add_hash\<close>,
  \<open>qmark_free_mark\<close> and the setting up of the traffic class takes \<open>qmark_op_lock\<close> for itself, while the node
  a lookup found and the rule are read and written with no lock at all. A step is one such section or
  access. Run one after another without interruption the steps are \<open>qmark_handle\<close>.
\<close>

section \<open>Steps\<close>

text \<open>
  The place a packet has reached, with the values it carries in local variables. \<open>Alloc True\<close> is the
  allocation in the branch of a shared rule, which writes the mark into the rule afterwards.
\<close>

datatype pstep =
    Get
  | Read addr
  | Enter
  | Mode
  | Load
  | Alloc bool
  | Store u32
  | Insert u32
  | Check u32
  | Clear u32
  | Free u32
  | Class u32
  | Done "u32 option"

text \<open>
  One step of a packet with address \<open>ip\<close> under rule \<open>rid\<close>. The mode of a rule does not change while
  packets run, so the mode and the count that a condition tests are read in one step.
\<close>

fun packet_step :: "u32 \<Rightarrow> u32 \<Rightarrow> pstep \<Rightarrow> pstep kop" where
  "packet_step ip rid Get =
     bindM (marktbl_hash_get ip) (\<lambda>mark_node. ret (case mark_node of None \<Rightarrow> Enter | Some a \<Rightarrow> Read a))"
| "packet_step ip rid (Read a) =
     bindM (node_at a) (\<lambda>n. ret (if n_mark n = 0 then Enter else Done (Some (n_mark n))))"
| "packet_step ip rid Enter =
     bindM (gets reset_flag) (\<lambda>resetting. ret (if resetting then Done None else Mode))"
| "packet_step ip rid Mode =
     bindM (rule_at (rid - 1)) (\<lambda>r.
     ret (if r_mode r = PRIV_MODE then Alloc False else if r_count r = 0 then Alloc True else Load))"
| "packet_step ip rid Load = bindM (rule_at (rid - 1)) (\<lambda>r. ret (Insert (r_mark r)))"
| "packet_step ip rid (Alloc sh) =
     bindM qmark_alloc_mark (\<lambda>(e, mark). ret (if e \<noteq> 0 then Done None else if sh then Store mark else Insert mark))"
| "packet_step ip rid (Store mark) =
     thenM (set_rule (rid - 1) (\<lambda>r. r\<lparr>r_mark := mark\<rparr>)) (ret (Insert mark))"
| "packet_step ip rid (Insert mark) =
     bindM (qmark_add_hash ip rid mark) (\<lambda>e. ret (if e \<noteq> 0 then Check mark else Class mark))"
| "packet_step ip rid (Check mark) =
     bindM (mark_unshared rid) (\<lambda>last. ret (if last then Clear mark else Done None))"
| "packet_step ip rid (Clear mark) =
     thenM (set_rule (rid - 1) (\<lambda>r. r\<lparr>r_mark := 0\<rparr>)) (ret (Free mark))"
| "packet_step ip rid (Free mark) = thenM (qmark_free_mark mark) (ret (Done None))"
| "packet_step ip rid (Class mark) =
     thenM op_lock (bindM (rule_at (rid - 1)) (\<lambda>r.
     thenM (qmark_tc_add_rule r mark) (thenM op_unlock (ret (Done (Some mark))))))"
| "packet_step ip rid (Done m) = ret (Done m)"

text \<open>No packet needs more than ten steps: every step takes it to a place of lower rank.\<close>

fun rank :: "pstep \<Rightarrow> nat" where
  "rank Get = 10"
| "rank (Read _) = 9"
| "rank Enter = 8"
| "rank Mode = 7"
| "rank (Alloc _) = 6"
| "rank (Store _) = 5"
| "rank Load = 5"
| "rank (Insert _) = 4"
| "rank (Check _) = 3"
| "rank (Clear _) = 2"
| "rank (Free _) = 1"
| "rank (Class _) = 1"
| "rank (Done _) = 0"

lemma step_rank:
  "packet_step ip rid p s = Inr (q, t) \<Longrightarrow> rank p \<noteq> 0 \<Longrightarrow> rank q < rank p"
  by (cases p) (auto simp: bindM_eq_Inr thenM_eq_Inr split: option.splits if_splits prod.splits)

section \<open>The steps in a row\<close>

primrec packet_run :: "nat \<Rightarrow> u32 \<Rightarrow> u32 \<Rightarrow> pstep \<Rightarrow> pstep kop" where
  "packet_run 0 ip rid p = ret p"
| "packet_run (Suc n) ip rid p = bindM (packet_step ip rid p) (packet_run n ip rid)"

text \<open>What a call that reports an error code and a mark leaves a packet with.\<close>

definition got :: "int \<times> u32 \<Rightarrow> pstep kop" where
  "got r = ret (Done (if fst r \<noteq> 0 then None else Some (snd r)))"

lemma bindM_assoc: "bindM (bindM m f) g = bindM m (\<lambda>x. bindM (f x) g)"
  by (rule ext) (simp add: bindM_def split: sum.split)

lemma bindM_if: "bindM (if b then m else n) f = (if b then bindM m f else bindM n f)"
  by simp

lemma bindM_then: "bindM (thenM m n) f = thenM m (bindM n f)"
  by (simp add: thenM_def bindM_assoc)

lemma bindM_case_prod: "bindM (case p of (x, y) \<Rightarrow> m x y) f = (case p of (x, y) \<Rightarrow> bindM (m x y) f)"
  by (cases p) simp

lemma bindM_when: "thenM (whenM b m) n = (if b then thenM m n else n)"
  by (rule ext) simp

lemma run_Done [simp]: "packet_run n ip rid (Done m) = ret (Done m)"
  by (induction n) (simp_all add: bindM_ret)

lemmas step_laws = bindM_assoc bindM_if bindM_then bindM_case_prod bindM_ret bindM_when

lemma rank_0_iff: "rank p = 0 \<longleftrightarrow> (\<exists>m. p = Done m)"
  by (cases p) simp_all

text \<open>Fuel beyond the rank changes nothing.\<close>

lemma run_fuel:
  "rank p \<le> n \<Longrightarrow> rank p \<le> k \<Longrightarrow> packet_run n ip rid p s = packet_run k ip rid p s"
proof (induction n arbitrary: p k s)
  case 0
  then show ?case using rank_0_iff[of p] by auto
next
  case (Suc n)
  show ?case
  proof (cases "rank p = 0")
    case True
    then show ?thesis using rank_0_iff[of p] by auto
  next
    case False
    with Suc.prems obtain k' where k: "k = Suc k'" by (cases k) auto
    show ?thesis
    proof (cases "packet_step ip rid p s")
      case (Inr x)
      obtain q t where x: "x = (q, t)" by (cases x)
      with Inr step_rank[of ip rid p s q t] False have "rank q < rank p" by simp
      with Suc.prems k have "packet_run n ip rid q t = packet_run k' ip rid q t" by (intro Suc.IH) simp_all
      with Inr x k show ?thesis by simp
    qed (simp add: k)
  qed
qed

lemma run_done:
  "rank p \<le> n \<Longrightarrow> packet_run n ip rid p s = Inr (q, t) \<Longrightarrow> rank q = 0"
proof (induction n arbitrary: p s)
  case (Suc n)
  show ?case
  proof (cases "rank p = 0")
    case True
    then show ?thesis using Suc.prems rank_0_iff[of p] by auto
  next
    case False
    from Suc.prems(2) obtain x u where x: "packet_step ip rid p s = Inr (x, u)" "packet_run n ip rid x u = Inr (q, t)"
      by (auto simp: bindM_eq_Inr)
    with step_rank[OF x(1) False] Suc.prems(1) show ?thesis by (intro Suc.IH) simp_all
  qed
qed simp

lemma class_run:
  "packet_run (Suc n) ip rid (Class m) = thenM op_lock (bindM (rule_at (rid - 1)) (\<lambda>r.
     thenM (qmark_tc_add_rule r m) (thenM op_unlock (got (OK, m)))))"
  by (simp add: got_def fun_eq_iff bindM_def thenM_def split: sum.split)

lemma insert_run:
  "packet_run (Suc (Suc (Suc (Suc n)))) ip rid (Insert m) = bindM (qmark_add_hash ip rid m) (\<lambda>e.
     if e \<noteq> 0 then bindM (mark_unshared rid) (\<lambda>last.
       thenM (whenM last (thenM (set_rule (rid - 1) (\<lambda>r. r\<lparr>r_mark := 0\<rparr>)) (qmark_free_mark m))) (got (ERROR, m)))
     else thenM op_lock (bindM (rule_at (rid - 1)) (\<lambda>r.
       thenM (qmark_tc_add_rule r m) (thenM op_unlock (got (OK, m))))))"
  by (simp add: step_laws got_def fun_eq_iff bindM_def thenM_def split: sum.split)

lemma run_next: "0 < n \<Longrightarrow> packet_run n ip rid p s = bindM (packet_step ip rid p) (packet_run (n - 1) ip rid) s"
  by (cases n) simp_all

lemma insert_fuel: "packet_run 5 ip rid (Insert m) s = packet_run 4 ip rid (Insert m) s"
  by (intro run_fuel) simp_all

lemma alloc_run:
  "packet_run 6 ip rid (Alloc sh) s = bindM qmark_alloc_mark (\<lambda>(e, m).
     if e \<noteq> 0 then got (ERROR, m)
     else thenM (whenM sh (set_rule (rid - 1) (\<lambda>r. r\<lparr>r_mark := m\<rparr>))) (packet_run 4 ip rid (Insert m))) s"
proof -
  have st: "packet_run 5 ip rid (Store m) u = thenM (set_rule (rid - 1) (\<lambda>r. r\<lparr>r_mark := m\<rparr>)) (packet_run 4 ip rid (Insert m)) u" for m u
    by (simp add: run_next[of 5] bindM_def thenM_def split: sum.split)
  show ?thesis
    by (auto simp: run_next[of 6] got_def bindM_def[of _ "packet_run _ _ _"] bindM_def[of qmark_alloc_mark] whenM_def st insert_fuel split: sum.split prod.split)
qed

lemma load_run:
  "packet_run 6 ip rid Load s = bindM (rule_at (rid - 1)) (\<lambda>r. packet_run 4 ip rid (Insert (r_mark r))) s"
  by (simp add: run_next[of 6] bindM_def insert_fuel split: sum.split)

lemma mode_run:
  "packet_run 7 ip rid Mode s = bindM (choose_mark rid) (\<lambda>(e, m).
     if e \<noteq> 0 then got (ERROR, m) else packet_run 4 ip rid (Insert m)) s"
proof (cases "rule_at (rid - 1) s")
  case (Inr x)
  then obtain r where r: "rule_at (rid - 1) s = Inr (r, s)"
    by (cases x) (auto simp: rule_at_def deref_def bindM_eq_Inr split: if_splits ptr.splits)
  show ?thesis
    using r by (auto simp: run_next[of 7] choose_mark_def alloc_run load_run bindM_assoc bindM_def[of qmark_alloc_mark] thenM_def[of "whenM _ _"]
      thenM_def[of "set_rule _ _"] bindM_def[of "set_rule _ _"] whenM_def got_def split: sum.split prod.split)
qed (simp add: run_next[of 7] choose_mark_def)

lemma enter_run:
  "packet_run 8 ip rid Enter s = bindM (qmark_alloc_mark_auto ip rid m0) got s"
proof (cases "reset_flag s")
  case True
  then show ?thesis by (simp add: run_next[of 8] qmark_alloc_mark_auto_def got_def)
next
  case False
  have n: "(4::nat) = Suc (Suc (Suc (Suc 0)))" by simp
  have "packet_run 8 ip rid Enter s = packet_run 7 ip rid Mode s" using False by (simp add: run_next[of 8])
  also have "\<dots> = bindM (qmark_alloc_mark_auto ip rid m0) got s"
    unfolding mode_run n insert_run qmark_alloc_mark_auto_def using False
    by (simp add: bindM_assoc bindM_if bindM_then bindM_ret case_prod_unfold cong: if_cong)
  finally show ?thesis .
qed

text \<open>What the target makes of the place a packet has come to.\<close>

definition handled :: "sk_buff \<Rightarrow> xt_qmark_tginfo \<Rightarrow> pstep \<Rightarrow> sk_buff" where
  "handled skb info p = (case p of Done (Some m) \<Rightarrow> marked skb info m | _ \<Rightarrow> skb)"

lemma packet_run_handle:
  "qmark_handle skb iph info s =
     bindM (packet_run 10 (packet_ip iph info) (tg_id info) Get) (\<lambda>p. ret (handled skb info p)) s"
proof -
  let ?ip = "packet_ip iph info" and ?rid = "tg_id info"
  let ?h = "\<lambda>p. ret (handled skb info p) :: sk_buff kop"
  have g: "bindM (got r) ?h u = (if fst r \<noteq> 0 then Inr (skb, u) else Inr (marked skb info (snd r), u))" for r u
    by (simp add: got_def handled_def)
  have e: "bindM (packet_run 8 ?ip ?rid Enter) ?h u = bindM (qmark_alloc_mark_auto ?ip ?rid 0) (\<lambda>(e, mark).
       if e \<noteq> 0 then ret skb else ret (marked skb info mark)) u" for u
    unfolding bindM_def[of "packet_run 8 _ _ _"] enter_run[of _ _ _ 0]
    by (auto simp: bindM_def got_def handled_def split: sum.split prod.split)
  have f: "packet_run 9 ?ip ?rid Enter u = packet_run 8 ?ip ?rid Enter u" for u by (intro run_fuel) simp_all
  have "bindM (packet_run 10 ?ip ?rid Get) ?h s = bindM (qmark_find_hash ?ip) (\<lambda>(_, mark).
      if mark = 0 then bindM (packet_run 8 ?ip ?rid Enter) ?h else ret (marked skb info mark)) s"
    by (auto simp: run_next[of 10] run_next[of 9 _ _ "Read _"] qmark_find_hash_def qos_marktbl_hashtbl_get_def handled_def f
      bindM_def[of "packet_run _ _ _ _"] bindM_def[of "marktbl_hash_get _"] bindM_def[of "node_at _"] bindM_def[of "bindM _ _"] split: sum.split option.split)
  then show ?thesis
    by (simp add: qmark_handle_def marked_def bindM_def[of "qmark_find_hash _"] e[unfolded marked_def] split: sum.split)
qed

end
