(* ===== verification/Qmark_Smp.thy ===== *)
theory Qmark_Smp
  imports Packet_Steps Qmark_System
begin

text \<open>
  Several processors at work on the module: each has at most one packet in hand and takes the steps of
  \<open>Packet_Steps\<close> in turn with the others, with conntrack events and with the administrator's calls. Those
  hold \<open>qmark_op_lock\<close> from their first access to their last and are one call here.
\<close>

section \<open>Processors\<close>

record cpu =
  c_ip :: u32
  c_rid :: u32
  c_pc :: pstep

type_synonym smp = "cpu list \<times> kst"

datatype smp_call = Receive nat u32 u32 | Turn nat | Call qcall

fun run_smp :: "smp_call \<Rightarrow> (smp, unit) km" where
  "run_smp (Receive i ip rid) (cpus, s) = Inr ((), (cpus[i := \<lparr>c_ip = ip, c_rid = rid, c_pc = Get\<rparr>], s))"
| "run_smp (Turn i) (cpus, s) =
     (case packet_step (c_ip (cpus ! i)) (c_rid (cpus ! i)) (c_pc (cpus ! i)) s of
        Inl e \<Rightarrow> Inl e
      | Inr (p, t) \<Rightarrow> Inr ((), (cpus[i := (cpus ! i)\<lparr>c_pc := p\<rparr>], t)))"
| "run_smp (Call c) (cpus, s) =
     (case run_call c s of Inl e \<Rightarrow> Inl e | Inr (_, t) \<Rightarrow> Inr ((), (cpus, t)))"

fun is_done :: "pstep \<Rightarrow> bool" where
  "is_done (Done _) = True"
| "is_done _ = False"

fun is_read :: "pstep \<Rightarrow> bool" where
  "is_read (Read _) = True"
| "is_read _ = False"

definition private_rule :: "kst \<Rightarrow> u32 \<Rightarrow> bool" where
  "private_rule s rid \<longleftrightarrow> rule_number s rid \<and> r_mode (the_rules s ! unat (rid - 1)) = PRIV_MODE"

text \<open>
  The calls that may run beside packets: conntrack events and releases at any time, and a change of an idle
  rule when no packet in hand is under it. Packets and lookups do not hold the lock throughout; they come as
  steps.
\<close>

definition not_used :: "cpu list \<Rightarrow> u32 \<Rightarrow> bool" where
  "not_used cpus rid \<longleftrightarrow> (\<forall>c \<in> set cpus. is_done (c_pc c) \<or> unat (c_rid c - 1) \<noteq> unat (rid - 1))"

primrec beside :: "cpu list \<Rightarrow> qcall \<Rightarrow> bool" where
  "beside cpus (Packet skb info) \<longleftrightarrow> False"
| "beside cpus (Conntrack events oct) \<longleftrightarrow> True"
| "beside cpus (Lookup ip) \<longleftrightarrow> False"
| "beside cpus (Release ip) \<longleftrightarrow> True"
| "beside cpus (AddRule rid mode devid rate rate_mate rate_min rate_min_mate) \<longleftrightarrow> not_used cpus rid"
| "beside cpus (DelRule rid) \<longleftrightarrow> not_used cpus rid"
| "beside cpus ListRules \<longleftrightarrow> True"
| "beside cpus ResetDone \<longleftrightarrow> True"

text \<open>
  The guards: a processor takes a packet when it has none, of an address no other processor is busy with,
  under a private rule; a call needs its own guard and must be able to run beside the packets in hand. A turn
  may come at any time.
\<close>

fun legal_smp :: "smp \<Rightarrow> smp_call \<Rightarrow> bool" where
  "legal_smp (cpus, s) (Receive i ip rid) \<longleftrightarrow> i < length cpus \<and> is_done (c_pc (cpus ! i)) \<and> private_rule s rid \<and>
     (\<forall>c \<in> set cpus. is_done (c_pc c) \<or> c_ip c \<noteq> ip)"
| "legal_smp (cpus, s) (Turn i) \<longleftrightarrow> i < length cpus"
| "legal_smp (cpus, s) (Call c) \<longleftrightarrow> legal_call s c \<and> beside cpus c"

text \<open>
  Nothing keeps an address from being released between a processor's lookup and its reading the node. A turn
  is \<open>stale\<close> when it would read a node that was freed in between; a script is orderly when no address is
  released, by conntrack or by hand, while a processor is about to read its node.
\<close>

fun stale :: "kst \<Rightarrow> pstep \<Rightarrow> bool" where
  "stale s (Read a) \<longleftrightarrow> node_heap s a = None"
| "stale s _ \<longleftrightarrow> False"

fun stale_turn :: "smp \<Rightarrow> smp_call \<Rightarrow> bool" where
  "stale_turn (cpus, s) (Turn i) \<longleftrightarrow> stale s (c_pc (cpus ! i))"
| "stale_turn z _ \<longleftrightarrow> False"

definition not_read :: "cpu list \<Rightarrow> u32 \<Rightarrow> bool" where
  "not_read cpus ip \<longleftrightarrow> (\<forall>c \<in> set cpus. is_read (c_pc c) \<longrightarrow> c_ip c \<noteq> ip)"

fun spares_readers :: "smp \<Rightarrow> smp_call \<Rightarrow> bool" where
  "spares_readers (cpus, s) (Call (Conntrack events (Some ct))) \<longleftrightarrow> not_read cpus (ct_ip_addr ct)"
| "spares_readers (cpus, s) (Call (Release ip)) \<longleftrightarrow> not_read cpus ip"
| "spares_readers z _ \<longleftrightarrow> True"

definition orderly :: "smp \<Rightarrow> smp_call \<Rightarrow> bool" where
  "orderly z c \<longleftrightarrow> legal_smp z c \<and> spares_readers z c"

section \<open>The invariant\<close>

text \<open>The marks a packet holds that its address does not have yet.\<close>

fun marks_held :: "pstep \<Rightarrow> u32 set" where
  "marks_held (Insert m) = {m}"
| "marks_held (Check m) = {m}"
| "marks_held (Clear m) = {m}"
| "marks_held (Free m) = {m}"
| "marks_held _ = {}"

definition flights :: "cpu list \<Rightarrow> u32 set" where
  "flights cpus = (\<Union>c \<in> set cpus. marks_held (c_pc c))"

fun place_ok :: "kst \<Rightarrow> u32 \<Rightarrow> pstep \<Rightarrow> bool" where
  "place_ok s ip (Read a) \<longleftrightarrow> a < next_addr s \<and> (\<forall>n. node_heap s a = Some n \<longrightarrow> n_src_ip n = ip)"
| "place_ok s ip Enter \<longleftrightarrow> table s ip = None"
| "place_ok s ip Mode \<longleftrightarrow> table s ip = None"
| "place_ok s ip (Alloc sh) \<longleftrightarrow> \<not> sh \<and> table s ip = None"
| "place_ok s ip (Insert m) \<longleftrightarrow> table s ip = None"
| "place_ok s ip Load \<longleftrightarrow> False"
| "place_ok s ip (Store m) \<longleftrightarrow> False"
| "place_ok s ip _ \<longleftrightarrow> True"

lemma done_held: "is_done p \<Longrightarrow> marks_held p = {}"
  by (cases p) simp_all

definition cpu_ok :: "kst \<Rightarrow> cpu \<Rightarrow> bool" where
  "cpu_ok s c \<longleftrightarrow> is_done (c_pc c) \<or> private_rule s (c_rid c) \<and> place_ok s (c_ip c) (c_pc c)"

definition apart :: "cpu \<Rightarrow> cpu \<Rightarrow> bool" where
  "apart c d \<longleftrightarrow> (is_done (c_pc c) \<or> is_done (c_pc d) \<or> c_ip c \<noteq> c_ip d) \<and>
     marks_held (c_pc c) \<inter> marks_held (c_pc d) = {}"

definition smp_inv :: "smp \<Rightarrow> bool" where
  "smp_inv z \<longleftrightarrow> flight_inv (flights (fst z)) (snd z) \<and> (\<forall>c \<in> set (fst z). cpu_ok (snd z) c) \<and>
     (\<forall>i < length (fst z). \<forall>j < length (fst z). i \<noteq> j \<longrightarrow> apart (fst z ! i) (fst z ! j))"

text \<open>
  What a step on address \<open>ip\<close> leaves to the packets of other addresses. The address of a freed node is not
  used again.
\<close>

definition spares :: "u32 \<Rightarrow> kst \<Rightarrow> kst \<Rightarrow> bool" where
  "spares ip s t \<longleftrightarrow> (\<forall>jp. jp \<noteq> ip \<longrightarrow> (table s jp = None \<longrightarrow> table t jp = None) \<and>
       (\<forall>a n. node_heap s a = Some n \<and> n_src_ip n = jp \<longrightarrow> (\<exists>m. node_heap t a = Some m \<and> n_src_ip m = jp))) \<and>
     next_addr s \<le> next_addr t \<and> (\<forall>a < next_addr s. node_heap s a = None \<longrightarrow> node_heap t a = None) \<and>
     length (the_rules t) = length (the_rules s) \<and> (\<forall>k. r_mode (the_rules t ! k) = r_mode (the_rules s ! k))"

lemma spares_private: "spares ip s t \<Longrightarrow> private_rule t rid = private_rule s rid"
  by (simp add: spares_def private_rule_def rule_number_def)

lemma spares_place:
  assumes "spares ip s t" "place_ok s jp p" "jp \<noteq> ip"
  shows "place_ok t jp p"
proof (cases p)
  case (Read a)
  then show ?thesis using assms unfolding spares_def by (cases "node_heap s a") fastforce+
qed (use assms in \<open>auto simp: spares_def\<close>)

lemma spares_live: "spares ip s t \<Longrightarrow> place_ok s jp p \<Longrightarrow> jp \<noteq> ip \<Longrightarrow> \<not> stale s p \<Longrightarrow> \<not> stale t p"
  unfolding spares_def by (cases p) fastforce+

lemma spares_cpu: "spares ip s t \<Longrightarrow> cpu_ok s c \<Longrightarrow> is_done (c_pc c) \<or> c_ip c \<noteq> ip \<Longrightarrow> cpu_ok t c"
  using spares_private spares_place unfolding cpu_ok_def by blast

lemma spares_refl [simp]: "spares ip s s"
  by (simp add: spares_def)

section \<open>One step\<close>

lemma free_place: "flight_inv F s \<Longrightarrow> free_slot s < unat (max_ip_cnt s) \<Longrightarrow> mark_of (free_slot s) \<notin> used_marks s"
  using slot_not_used shapeD(1) flight_invD(1) by blast

lemma flight_alloc:
  assumes "flight_inv F s" "free_slot s < unat (max_ip_cnt s)"
  shows "flight_inv (insert (mark_of (free_slot s)) F) (put_bit (free_slot s) True s)"
proof -
  note S = flight_invD(1)[OF assms(1)] and n = free_place[OF assms]
  have v: "settled (insert (mark_of (free_slot s)) F) (view (put_bit (free_slot s) True s)) = settled F (view s)"
    using view_put_bit[OF S assms(2), of True] n by (simp add: settled_def)
  show ?thesis
    unfolding flight_inv_def v using assms S used_put_bit[OF shapeD(1)[OF S] assms(2), of True] by (auto simp: flight_inv_def)
qed

lemma flight_free:
  assumes "flight_inv F s" "m \<in> F"
  obtains i where "i < unat (max_ip_cnt s)" "m = mark_of i" "mark_bits s ! i" "flight_inv (F - {m}) (put_bit i False s)"
proof -
  note S = flight_invD(1)[OF assms(1)]
  obtain i where i: "i < unat (max_ip_cnt s)" "m = mark_of i" "mark_bits s ! i"
    using flight_invD(2)[OF assms(1)] assms(2) by (auto simp: used_marks_def)
  have "used_marks s - {mark_of i} - (F - {mark_of i}) = used_marks s - F" using assms(2) i(2) by auto
  then have v: "settled (F - {m}) (view (put_bit i False s)) = settled F (view s)"
    using view_put_bit[OF S i(1), of False] i(2) by (simp add: settled_def)
  have "flight_inv (F - {m}) (put_bit i False s)"
    unfolding flight_inv_def v using assms S used_put_bit[OF shapeD(1)[OF S] i(1), of False] i(2) by (auto simp: flight_inv_def)
  with i that show ?thesis by blast
qed

lemma flight_quiet [simp]: "flight_inv F s \<Longrightarrow> flight_inv F (quiet False k l q s)"
  by (simp add: flight_inv_def)

lemma flight_clear:
  assumes "flight_inv F s" "private_rule s rid"
  shows "flight_inv F (map_rule (rid - 1) (\<lambda>r. r\<lparr>r_mark := m\<rparr>) s)"
proof -
  note S = flight_invD(1)[OF assms(1)]
  have i: "unat (rid - 1) < length (the_rules s)" "unshared (the_rules s ! unat (rid - 1))"
    using assms(2) by (simp_all add: private_rule_def rule_number_def unshared_def)
  have "shape (map_rule (rid - 1) (\<lambda>r. r\<lparr>r_mark := m\<rparr>) s)" using shapeD(8)[OF S] by (intro shape_map_rule[OF S]) simp
  moreover have "settled F (view (map_rule (rid - 1) (\<lambda>r. r\<lparr>r_mark := m\<rparr>) s)) = configure rid (\<lambda>r. r\<lparr>r_mark := m\<rparr>) (settled F (view s))"
    by (simp add: settled_def configure_def)
  moreover have "view_ok (configure rid (\<lambda>r. r\<lparr>r_mark := m\<rparr>) (settled F (view s)))"
    using i by (intro forget_mark_ok[OF flight_invD(3)[OF assms(1)]]) simp_all
  ultimately show ?thesis using flight_invD(2)[OF assms(1)] by (simp add: flight_inv_def)
qed


lemma flight_insert:
  assumes inv: "flight_inv F s" and m: "m \<in> F" and r: "private_rule s rid" and new: "table s ip = None" and room: "has_room s"
  defines "t \<equiv> count_rule (rid - 1) 1 (insert_node (new_entry ip rid m) s)"
  shows "flight_inv (F - {m}) t" "view t = (view s)\<lparr>v_table := (table s)(ip \<mapsto> new_entry ip rid m), v_rules := (the_rules s)[unat (rid - 1) :=
    (the_rules s ! unat (rid - 1))\<lparr>r_count := r_count (the_rules s ! unat (rid - 1)) + 1\<rparr>]\<rparr>"
proof -
  note S = flight_invD(1)[OF inv]
  have i: "unat (rid - 1) < length (the_rules s)" "r_mode (the_rules s ! unat (rid - 1)) = PRIV_MODE"
    using r by (simp_all add: private_rule_def rule_number_def)
  let ?n = "new_entry ip rid m"
  have n: "n_src_ip ?n = ip" by (simp add: new_entry_def)
  have ins: "shape (insert_node ?n s)" using new room by (intro shape_insert[OF S]) (simp_all add: n)
  then have sh: "shape t" unfolding t_def count_rule_def using shapeD(8)[OF ins] by (auto intro!: shape_map_rule)
  show v: "view t = (view s)\<lparr>v_table := (table s)(ip \<mapsto> ?n), v_rules := (the_rules s)[unat (rid - 1) :=
    (the_rules s ! unat (rid - 1))\<lparr>r_count := r_count (the_rules s ! unat (rid - 1)) + 1\<rparr>]\<rparr>"
    unfolding t_def count_rule_def view_map_rule insert_node_frame using view_insert[OF S, of ?n] new by (simp add: n)
  have "used_marks s - (F - {m}) = insert m (used_marks s - F)" using flight_invD(2)[OF inv] m by auto
  then have "settled (F - {m}) (view t) = admit_fresh ip rid m (settled F (view s))"
    unfolding v using i by (simp add: settled_def admit_fresh_def Let_def new_entry_def)
  moreover have "view_ok (admit_fresh ip rid m (settled F (view s)))"
    using i m new room_bound(2)[OF S] by (intro admit_fresh_ok[OF flight_invD(3)[OF inv]]) (simp_all add: unshared_def)
  moreover have "used_marks t = used_marks s" using arg_cong[OF v, of v_used] by simp
  ultimately show "flight_inv (F - {m}) t" using sh flight_invD(2)[OF inv] by (auto simp: flight_inv_def)
qed

lemma spares_same: "table t = table s \<Longrightarrow> node_heap t = node_heap s \<Longrightarrow> next_addr t = next_addr s \<Longrightarrow>
  length (the_rules t) = length (the_rules s) \<Longrightarrow> (\<And>k. r_mode (the_rules t ! k) = r_mode (the_rules s ! k)) \<Longrightarrow> spares ip s t"
  by (simp add: spares_def)

lemma mode_upd: "r_mode x = r_mode (rs ! i) \<Longrightarrow> r_mode (rs[i := x] ! k) = r_mode (rs ! k)"
  by (cases "i < length rs") (auto simp: nth_list_update list_update_beyond)

definition step_safe :: "u32 set \<Rightarrow> u32 \<Rightarrow> kst \<Rightarrow> pstep \<Rightarrow> pstep \<Rightarrow> kst \<Rightarrow> bool" where
  "step_safe F ip s p q t \<longleftrightarrow> flight_inv (F - marks_held p \<union> marks_held q) t \<and> marks_held q \<inter> (F - marks_held p) = {} \<and>
     spares ip s t \<and> (is_done q \<or> place_ok t ip q) \<and> \<not> stale t q"

lemma insert_step:
  assumes inv: "flight_inv F s" and m: "m \<in> F" and r: "private_rule s rid" and new: "table s ip = None"
  shows "\<exists>q t. packet_step ip rid (Insert m) s = Inr (q, t) \<and> step_safe F ip s (Insert m) q t \<and>
    (if has_room s \<and> node_memory s then q = Class m \<and> table t = (table s)(ip \<mapsto> new_entry ip rid m) else q = Check m \<and> table t = table s)"
proof -
  note S = flight_invD(1)[OF inv] note D = shapeD[OF S]
  obtain i where i: "i < unat (max_ip_cnt s)" "m = mark_of i" "mark_bits s ! i" using flight_free[OF inv m] .
  have rid: "unat (rid - 1) < length (the_rules s)" using r by (simp add: private_rule_def rule_number_def)
  note A = qmark_add_hash_spec[OF D(2,1,3,4,6) rid new i(1,3), folded i(2) node_memory_def]
  show ?thesis
  proof (cases "has_room s \<and> node_memory s")
    case True
    note I = flight_insert[OF inv m r new conjunct1[OF True]]
    let ?t = "count_rule (rid - 1) 1 (insert_node (new_entry ip rid m) s)"
    let ?u = "quiet False (Suc (env_time s)) (klog s) (nl_sent s) ?t"
    have T: "table ?t = (table s)(ip \<mapsto> new_entry ip rid m)" using arg_cong[OF I(2), of v_table] by simp
    have R: "the_rules ?t = (the_rules s)[unat (rid - 1) := (the_rules s ! unat (rid - 1))\<lparr>r_count := r_count (the_rules s ! unat (rid - 1)) + 1\<rparr>]"
      by (simp add: count_rule_def)
    have H: "node_heap ?t = (node_heap s)(next_addr s \<mapsto> new_entry ip rid m)" "next_addr ?t = Suc (next_addr s)"
      by (simp_all add: count_rule_def insert_node_fields)
    have "r_mode (the_rules ?t ! k) = r_mode (the_rules s ! k)" for k unfolding R by (rule mode_upd) simp
    then have "spares ip s ?u" using T R H next_addr_fresh[OF D(2)] by (simp add: spares_def)
    then show ?thesis
      using A True I(1) T by (intro exI[of _ "Class m"] exI[of _ ?u]) (simp add: step_safe_def)
  next
    case False
    then obtain k l where a: "\<exists>e. e \<noteq> 0 \<and> qmark_add_hash ip rid m s = Inr (e, quiet False k l (nl_sent s) s)"
      using A by (cases "has_room s") auto
    then show ?thesis
      using False inv new m by (intro exI[of _ "Check m"] exI[of _ "quiet False k l (nl_sent s) s"])
        (auto simp: step_safe_def insert_absorb intro!: spares_same)
  qed
qed


lemma class_step:
  assumes inv: "flight_inv F s" and r: "private_rule s rid"
  shows "\<exists>k l q. packet_step ip rid (Class m) s = Inr (Done (Some m), quiet False k l q s)"
  using tc_tail[OF flight_invD(1)[OF inv], of rid m "Done (Some m)"] r by (simp add: private_rule_def rule_number_def)

text \<open>Every step of a packet under a private rule succeeds, whatever other packets have in flight.\<close>

lemma packet_step_safe:
  assumes inv: "flight_inv F s" and held: "marks_held p \<subseteq> F" and r: "private_rule s rid"
    and ok: "place_ok s ip p" and go: "\<not> is_done p" and live: "\<not> stale s p"
  shows "\<exists>q t. packet_step ip rid p s = Inr (q, t) \<and> step_safe F ip s p q t"
proof -
  note S = flight_invD(1)[OF inv] note D = shapeD[OF S]
  have rid: "unat (rid - 1) < length (the_rules s)" and mode: "r_mode (the_rules s ! unat (rid - 1)) = PRIV_MODE"
    using r by (simp_all add: private_rule_def rule_number_def)
  show ?thesis
  proof (cases p)
    case Get
    have "(case lookup s ip of None \<Rightarrow> table s ip = None | Some a \<Rightarrow> \<exists>n. node_heap s a = Some n \<and> n_src_ip n = ip \<and> a < next_addr s)"
      using lookup_SomeD(2) table_wf_heap[OF D(2)] table_None_iff[OF D(2)] by (fastforce split: option.split)
    with Get inv show ?thesis by (auto simp: marktbl_hash_get_spec[OF D(2)] step_safe_def split: option.splits)
  next
    case (Read a)
    then obtain n where n: "node_heap s a = Some n" "n_src_ip n = ip" using ok live by auto
    then have T: "table s ip = Some n" using table_Some_iff[OF D(2)] by blast
    then have "n_mark n \<in> used_marks s" by (rule flight_node(3)[OF inv])
    then have "n_mark n \<noteq> 0" using mark_of_slot[OF D(1)] by (auto simp: used_marks_def)
    with Read n inv show ?thesis by (simp add: step_safe_def)
  next
    case Mode
    with inv ok rid mode D(3) show ?thesis by (simp add: rule_at_spec step_safe_def)
  next
    case (Alloc sh)
    with ok have sh: "\<not> sh" "table s ip = None" by auto
    show ?thesis
    proof (cases "free_slot s < unat (max_ip_cnt s)")
      case True
      have "mark_of (free_slot s) \<notin> F" using free_place[OF inv True] flight_invD(2)[OF inv] by blast
      with Alloc sh True flight_alloc[OF inv True] D(1,4) show ?thesis
        by (auto simp: qmark_alloc_mark_spec step_safe_def intro!: spares_same)
    next
      case False
      with Alloc inv D(1,4) show ?thesis by (simp add: qmark_alloc_mark_spec step_safe_def)
    qed
  next
    case (Insert m)
    then show ?thesis using insert_step[OF inv _ r, of m ip] held ok by auto
  next
    case (Check m)
    with inv held rid mode D(3) show ?thesis by (simp add: mark_unshared_spec unshared_def step_safe_def insert_absorb)
  next
    case (Clear m)
    have "spares ip s (map_rule (rid - 1) (\<lambda>r. r\<lparr>r_mark := 0\<rparr>) s)" by (auto intro!: spares_same mode_upd)
    with Clear flight_clear[OF inv r, of 0] held rid D(3) show ?thesis by (simp add: set_rule_spec step_safe_def insert_absorb)
  next
    case (Free m)
    then obtain i where i: "i < unat (max_ip_cnt s)" "m = mark_of i" "flight_inv (F - {m}) (put_bit i False s)"
      using flight_free[OF inv, of m] held by auto
    with Free D(1,4) show ?thesis by (auto simp: qmark_free_mark_spec step_safe_def intro!: spares_same)
  next
    case (Class m)
    then show ?thesis
      using class_step[OF inv r, of ip m] inv by (auto simp: step_safe_def intro!: spares_same)
  qed (use inv ok go in \<open>auto simp: step_safe_def\<close>)
qed

text \<open>A call that releases a connection of one address spares the packets of the others.\<close>

definition releases :: "u32 \<Rightarrow> kst \<Rightarrow> kst \<Rightarrow> bool" where
  "releases ip s t \<longleftrightarrow> (view t = view s \<or> view t = leave ip (view s) \<or> (\<exists>d. view t = recount ip d (view s))) \<and>
     (\<forall>a. table s ip = None \<or> a \<noteq> the (lookup s ip) \<longrightarrow> node_heap t a = node_heap s a) \<and> next_addr t = next_addr s \<and>
     (\<forall>a n. node_heap t a = Some n \<longrightarrow> (\<exists>m. node_heap s a = Some m \<and> n_src_ip m = n_src_ip n))"

lemma releases_spares:
  assumes inv: "shape s" and rel: "releases ip s t"
  shows "spares ip s t" "table s ip = None \<Longrightarrow> table t ip = None"
proof -
  have v: "view t = view s \<or> view t = leave ip (view s) \<or> (\<exists>d. view t = recount ip d (view s))"
    and h: "table s ip = None \<or> a \<noteq> the (lookup s ip) \<Longrightarrow> node_heap t a = node_heap s a"
    and f: "next_addr t = next_addr s" "node_heap s a = None \<Longrightarrow> node_heap t a = None" for a
    using rel unfolding releases_def by (blast, blast, blast, metis option.distinct(1) not_Some_eq)
  have T: "table t = v_table (view t)" "the_rules t = v_rules (view t)" by simp_all
  have tab: "table t jp = None" if "table s jp = None" for jp
    using that v unfolding T by (auto simp del: view_fields(1) simp: leave_def recount_def Let_def view_fields(1)[of s] split: option.split)
  then show "table s ip = None \<Longrightarrow> table t ip = None" .
  have rules: "length (the_rules t) = length (the_rules s)" "r_mode (the_rules t ! k) = r_mode (the_rules s ! k)" for k
    using v unfolding T by (auto simp del: view_fields(2) simp: leave_def recount_def Let_def view_fields(2)[of s] intro!: mode_upd split: option.split)
  have heap: "node_heap t a = Some n" if n: "node_heap s a = Some n" "n_src_ip n \<noteq> ip" for a n
  proof (cases "table s ip")
    case (Some m)
    obtain b where b: "lookup s ip = Some b" "node_heap s b = Some m" using lookup_node[OF inv Some] .
    then have "a \<noteq> b" using n lookup_SomeD(2) by fastforce
    then show ?thesis using h[of a] b n(1) by simp
  qed (use n h in simp)
  show "spares ip s t" using tab rules heap f by (auto simp: spares_def)
qed

lemma conntrack_releases:
  assumes inv: "shape s" and heap: "node_heap t = ct_heap s events (Some ct)" and addr: "next_addr t = next_addr s"
    and view: "view t = ct_transition s events (Some ct) (view s)"
  shows "releases (ct_ip_addr ct) s t"
proof -
  let ?ip = "ct_ip_addr ct"
  have "view t = view s \<or> view t = leave ?ip (view s) \<or> (\<exists>d. view t = recount ?ip d (view s))"
    using view by (auto simp: ct_transition_def split: option.splits if_splits)
  moreover have "node_heap t a = node_heap s a" if "table s ?ip = None \<or> a \<noteq> the (lookup s ?ip)" for a
    using heap that by (auto simp: ct_heap_def split: option.splits)
  moreover have "\<exists>m. node_heap s a = Some m \<and> n_src_ip m = n_src_ip n" if n: "node_heap t a = Some n" for a n
  proof (cases "table s ?ip")
    case (Some k)
    obtain b where "lookup s ?ip = Some b" "node_heap s b = Some k" using lookup_node[OF inv Some] .
    then show ?thesis using n heap Some by (auto simp: ct_heap_def split: if_splits)
  qed (use n heap in \<open>auto simp: ct_heap_def split: if_splits\<close>)
  ultimately show ?thesis using addr by (simp add: releases_def)
qed

lemma released_cpus:
  assumes rel: "releases ip s t" and inv: "shape s" and ok: "cpu_ok s c"
  shows "cpu_ok t c"
proof (cases "is_done (c_pc c) \<or> c_ip c \<noteq> ip")
  case True
  then show ?thesis using spares_cpu[OF releases_spares(1)[OF inv rel] ok] by blast
next
  case False
  have "place_ok t (c_ip c) (c_pc c)" if "place_ok s (c_ip c) (c_pc c)"
  proof (cases "c_pc c")
    case (Read a)
    then show ?thesis using that rel unfolding releases_def by fastforce
  qed (use that False releases_spares(2)[OF inv rel] in auto)
  then show ?thesis using ok spares_private[OF releases_spares(1)[OF inv rel]] by (auto simp: cpu_ok_def)
qed

lemma stale_read: "stale s p \<Longrightarrow> is_read p \<and> \<not> is_done p"
  by (cases p) simp_all

lemma released_live:
  assumes rel: "releases ip s t" and inv: "shape s" and ok: "cpu_ok s c" and live: "\<not> stale s (c_pc c)"
    and c: "c \<in> set cpus" and free: "not_read cpus ip"
  shows "\<not> stale t (c_pc c)"
proof
  assume st: "stale t (c_pc c)"
  then have "c_ip c \<noteq> ip" "place_ok s (c_ip c) (c_pc c)"
    using stale_read[OF st] c free ok by (auto simp: not_read_def cpu_ok_def)
  with st spares_live[OF releases_spares(1)[OF inv rel]] live show False by blast
qed

text \<open>An idle rule that no packet in hand is under may change.\<close>

lemma flight_configure:
  assumes inv: "flight_inv F s" and idle: "idle_rule s rid" and ok: "\<And>r. rule_rates_ok (f r)" and f: "\<And>r. r_count r = 0 \<Longrightarrow> r_count (f r) = 0"
  shows "flight_inv F (map_rule (rid - 1) f s)"
proof -
  note S = flight_invD(1)[OF inv]
  have "settled F (view (map_rule (rid - 1) f s)) = configure rid f (settled F (view s))"
    by (simp add: settled_def configure_def)
  moreover have "view_ok (configure rid f (settled F (view s)))"
    using idle f by (intro configure_ok[OF flight_invD(3)[OF inv]]) (simp_all add: idle_rule_def rule_number_def)
  ultimately show ?thesis using shape_map_rule[OF S ok] flight_invD(2)[OF inv] by (simp add: flight_inv_def)
qed

lemma same_place:
  "table t = table s \<Longrightarrow> node_heap t = node_heap s \<Longrightarrow> next_addr t = next_addr s \<Longrightarrow> place_ok t ip p = place_ok s ip p"
  by (cases p) simp_all

lemma same_stale: "node_heap t = node_heap s \<Longrightarrow> stale t p = stale s p"
  by (cases p) simp_all

lemma configured_cpus:
  assumes "not_used cpus rid" "cpu_ok s c" "c \<in> set cpus"
  shows "cpu_ok (map_rule (rid - 1) f s) c"
  using assms same_place[of "map_rule (rid - 1) f s" s]
  by (auto simp: cpu_ok_def private_rule_def rule_number_def not_used_def nth_list_update)

text \<open>Every call that may run beside the packets in hand does.\<close>

lemma call_beside_safe:
  assumes inv: "flight_inv F s" and ok: "\<forall>d \<in> set cpus. cpu_ok s d" and legal: "legal_call s c" and beside: "beside cpus c"
  shows "\<exists>t. run_call c s = Inr ((), t) \<and> flight_inv F t \<and> (\<forall>d \<in> set cpus. cpu_ok t d \<and>
    (spares_readers (cpus, s) (Call c) \<longrightarrow> \<not> stale s (c_pc d) \<longrightarrow> \<not> stale t (c_pc d)))"
proof -
  note S = flight_invD(1)[OF inv]
  show ?thesis
  proof (cases c)
    case (Conntrack events oct)
    obtain t where t: "qmark_conntrack_event events oct s = Inr ((), t)" "flight_inv F t" "next_addr t = next_addr s"
      "node_heap t = ct_heap s events oct" "view t = ct_transition s events oct (view s)"
      using qmark_conntrack_event_flight[OF inv] by blast
    have "cpu_ok t d \<and> (spares_readers (cpus, s) (Call c) \<longrightarrow> \<not> stale s (c_pc d) \<longrightarrow> \<not> stale t (c_pc d))" if d: "d \<in> set cpus" for d
    proof (cases oct)
      case None
      then have "node_heap t = node_heap s" "releases ip s t" for ip using t(3-5) by (simp_all add: releases_def ct_heap_def ct_transition_def)
      with released_cpus[OF _ S] same_stale[of t s] show ?thesis using ok d by blast
    next
      case (Some ct)
      note R = conntrack_releases[OF S t(4)[unfolded Some] t(3) t(5)[unfolded Some]]
      show ?thesis
        using released_cpus[OF R S] released_live[OF R S _ _ d] ok d Some Conntrack by simp
    qed
    with Conntrack t show ?thesis by auto
  next
    case (Release ip)
    obtain t where t: "flight_inv F t" "next_addr t = next_addr s"
      "node_heap t = (case table s ip of None \<Rightarrow> node_heap s
        | Some n \<Rightarrow> (node_heap s)(the (lookup s ip) := (if last_conn n then None else Some (counted (- 1) n))))"
      "case table s ip of None \<Rightarrow> qmark_del_hash ip 0 s = Inr ((ERROR, 0), t) \<and> view t = view s
        | Some n \<Rightarrow> if last_conn n then qmark_del_hash ip 0 s = Inr ((OK, n_mark n), t) \<and> view t = leave ip (view s)
          else qmark_del_hash ip 0 s = Inr ((ERROR, 0), t) \<and> view t = recount ip (- 1) (view s)"
      using qmark_del_hash_flight[OF inv, of ip 0] by blast
    have "\<exists>m. node_heap s a = Some m \<and> n_src_ip m = n_src_ip n" if n: "node_heap t a = Some n" for a n
    proof (cases "table s ip")
      case (Some k)
      obtain b where "lookup s ip = Some b" "node_heap s b = Some k" using lookup_node[OF S Some] .
      then show ?thesis using n t(3) Some by (auto split: if_splits)
    qed (use n t(3) in simp)
    then have R: "releases ip s t" using t(2-4) by (auto simp: releases_def split: option.splits if_splits)
    have "run_call c s = Inr ((), t)"
      using t(4) Release by (auto simp: discard_def split: option.splits if_splits)
    then show ?thesis
      using t(1) released_cpus[OF R S] released_live[OF R S] ok Release by auto
  next
    case (AddRule rid mode devid rate rm rmin rmm)
    let ?f = "rule_settings mode devid rate rm rmin rmm"
    have "rule_rates_ok (?f r)" for r using legal AddRule by (simp add: rule_rates_ok_def rule_settings_def)
    then have "flight_inv F (map_rule (rid - 1) ?f s)"
      using legal AddRule by (intro flight_configure[OF inv]) (simp_all add: rule_settings_def)
    moreover have "run_call c s = Inr ((), map_rule (rid - 1) ?f s)"
      using qmark_add_rule_spec[OF shapeD(3,4)[OF S]] legal AddRule by (simp add: idle_rule_def rule_number_def)
    ultimately show ?thesis using configured_cpus same_stale[of "map_rule (rid - 1) ?f s" s] ok beside AddRule by auto
  next
    case (DelRule rid)
    have "flight_inv F (map_rule (rid - 1) (\<lambda>_. zero_rule) s)"
      using legal DelRule zero_rule_rates by (intro flight_configure[OF inv]) (simp_all add: zero_rule_def)
    moreover have "run_call c s = Inr ((), map_rule (rid - 1) (\<lambda>_. zero_rule) s)"
      using qmark_del_rule_spec[OF shapeD(3,4)[OF S]] legal DelRule by (simp add: idle_rule_def rule_number_def)
    ultimately show ?thesis using configured_cpus same_stale[of "map_rule (rid - 1) (\<lambda>_. zero_rule) s" s] ok beside DelRule by auto
  next
    case ListRules
    obtain l where l: "qmark_list_rule s = Inr ((), quiet False (env_time s) l (nl_sent s) s)"
      using qmark_list_rule_quiet[OF S] by blast
    let ?t = "quiet False (env_time s) l (nl_sent s) s"
    have "cpu_ok ?t d = cpu_ok s d" for d using same_place[of ?t s] by (simp add: cpu_ok_def private_rule_def rule_number_def)
    with l ListRules inv ok same_stale[of ?t s] show ?thesis by auto
  next
    case ResetDone
    let ?t = "s\<lparr>reset_flag := False\<rparr>"
    have same: "shape ?t = shape s" "view ?t = view s" by (rule reset_flag_frame)+
    then have "table ?t = table s" "the_rules ?t = the_rules s" "used_marks ?t = used_marks s" by (metis view_fields)+
    moreover from this have "cpu_ok ?t d = cpu_ok s d" for d
      using same_place[of ?t s] by (simp add: cpu_ok_def private_rule_def rule_number_def)
    ultimately have "cpu_ok ?t d = cpu_ok s d" "flight_inv F ?t = flight_inv F s" for d
      unfolding flight_inv_def same by simp_all
    with ResetDone inv ok same_stale[of ?t s] show ?thesis by (simp add: qmark_reset_def)
  qed (use beside in simp_all)
qed

section \<open>The machine\<close>

lemma flights_nth: "flights cpus = (\<Union>j < length cpus. marks_held (c_pc (cpus ! j)))"
  by (auto simp: flights_def set_conv_nth)

lemma flights_upd:
  assumes i: "i < length cpus" and ap: "\<And>j. j < length cpus \<Longrightarrow> j \<noteq> i \<Longrightarrow> apart (cpus ! i) (cpus ! j)"
  shows "flights (cpus[i := c]) = flights cpus - marks_held (c_pc (cpus ! i)) \<union> marks_held (c_pc c)"
proof -
  let ?I = "{..<length cpus} - {i}" and ?h = "\<lambda>j. marks_held (c_pc (cpus ! j))"
  have I: "(\<Union>j < length cpus. g j) = g i \<union> (\<Union>j \<in> ?I. g j)" for g :: "nat \<Rightarrow> u32 set" using i by auto
  have "(\<Union>j \<in> ?I. marks_held (c_pc (cpus[i := c] ! j))) = (\<Union>j \<in> ?I. ?h j)" by (rule SUP_cong) auto
  then have "flights (cpus[i := c]) = marks_held (c_pc c) \<union> (\<Union>j \<in> ?I. ?h j)"
    unfolding flights_nth length_list_update I using i by simp
  moreover have "flights cpus = ?h i \<union> (\<Union>j \<in> ?I. ?h j)" unfolding flights_nth I by simp
  moreover have "?h i \<inter> (\<Union>j \<in> ?I. ?h j) = {}" using ap by (auto simp: apart_def)
  ultimately show ?thesis by blast
qed

lemma apart_sym: "apart c d = apart d c"
  by (auto simp: apart_def)

text \<open>A processor moves and the state with it.\<close>

lemma smp_move:
  assumes inv: "smp_inv (cpus, s)" and i: "i < length cpus"
    and fl: "flight_inv (flights cpus - marks_held (c_pc (cpus ! i)) \<union> marks_held (c_pc c)) t"
    and others: "\<And>j. j < length cpus \<Longrightarrow> j \<noteq> i \<Longrightarrow> cpu_ok t (cpus ! j) \<and> apart c (cpus ! j)" and self: "cpu_ok t c"
  shows "smp_inv (cpus[i := c], t)"
proof -
  have "flights (cpus[i := c]) = flights cpus - marks_held (c_pc (cpus ! i)) \<union> marks_held (c_pc c)"
    using inv i by (intro flights_upd) (auto simp: smp_inv_def)
  moreover have "\<forall>d \<in> set (cpus[i := c]). cpu_ok t d"
    using others self i by (auto simp: in_set_conv_nth nth_list_update split: if_splits)
  moreover have "apart (cpus[i := c] ! j) (cpus[i := c] ! k)" if "j < length cpus" "k < length cpus" "j \<noteq> k" for j k
  proof -
    have "apart c (cpus ! k)" if "j = i" using that \<open>j \<noteq> k\<close> \<open>k < length cpus\<close> others[of k] by simp
    moreover have "apart (cpus ! j) c" if "k = i" using that \<open>j \<noteq> k\<close> \<open>j < length cpus\<close> others[of j] by (simp add: apart_sym)
    moreover have "apart (cpus ! j) (cpus ! k)" using that inv by (simp add: smp_inv_def)
    ultimately show ?thesis using that by (cases "j = i"; cases "k = i") simp_all
  qed
  ultimately show ?thesis using fl by (simp add: smp_inv_def)
qed

definition live_reads :: "smp \<Rightarrow> bool" where
  "live_reads z \<longleftrightarrow> (\<forall>c \<in> set (fst z). \<not> stale (snd z) (c_pc c))"

lemma live_readsD: "live_reads (cpus, s) \<Longrightarrow> j < length cpus \<Longrightarrow> \<not> stale s (c_pc (cpus ! j))"
  by (simp add: live_reads_def)

lemma live_reads_upd:
  "\<not> stale t (c_pc c) \<Longrightarrow> (\<And>j. j < length cpus \<Longrightarrow> j \<noteq> i \<Longrightarrow> \<not> stale t (c_pc (cpus ! j))) \<Longrightarrow> live_reads (cpus[i := c], t)"
  by (auto simp: live_reads_def in_set_conv_nth) (metis nth_list_update_eq nth_list_update_neq)

lemma turn_safe:
  assumes inv: "smp_inv (cpus, s)" and i: "i < length cpus" and live: "\<not> stale s (c_pc (cpus ! i))"
  shows "\<exists>z. run_smp (Turn i) (cpus, s) = Inr ((), z) \<and> smp_inv z \<and> (live_reads (cpus, s) \<longrightarrow> live_reads z)"
proof (cases "is_done (c_pc (cpus ! i))")
  case True
  then obtain m where m: "c_pc (cpus ! i) = Done m" by (cases "c_pc (cpus ! i)") simp_all
  then have "(cpus ! i)\<lparr>c_pc := Done m\<rparr> = cpus ! i" by (cases "cpus ! i") simp
  then have "cpus[i := (cpus ! i)\<lparr>c_pc := Done m\<rparr>] = cpus" by (simp only: list_update_id)
  with m have "run_smp (Turn i) (cpus, s) = Inr ((), (cpus, s))" by simp
  with inv show ?thesis by blast
next
  case go: False
  let ?c = "cpus ! i"
  have F: "flight_inv (flights cpus) s" and oks: "j < length cpus \<Longrightarrow> cpu_ok s (cpus ! j)"
    and ap: "j < length cpus \<Longrightarrow> k < length cpus \<Longrightarrow> j \<noteq> k \<Longrightarrow> apart (cpus ! j) (cpus ! k)" for j k
    using inv by (auto simp: smp_inv_def)
  have ok: "private_rule s (c_rid ?c)" "place_ok s (c_ip ?c) (c_pc ?c)" using oks[OF i] go by (auto simp: cpu_ok_def)
  have held: "marks_held (c_pc ?c) \<subseteq> flights cpus" using nth_mem[OF i] by (auto simp: flights_def)
  obtain q t where q: "packet_step (c_ip ?c) (c_rid ?c) (c_pc ?c) s = Inr (q, t)" "step_safe (flights cpus) (c_ip ?c) s (c_pc ?c) q t"
    using packet_step_safe[OF F held ok go live] by blast
  note Q = q(2)[unfolded step_safe_def]
  have other: "is_done (c_pc (cpus ! j)) \<or> c_ip (cpus ! j) \<noteq> c_ip ?c" if "j < length cpus" "j \<noteq> i" for j
    using ap[OF that(1) i that(2)] go by (auto simp: apart_def)
  have "smp_inv (cpus[i := ?c\<lparr>c_pc := q\<rparr>], t)"
  proof (rule smp_move[OF inv i])
    fix j
    assume j: "j < length cpus" "j \<noteq> i"
    have "marks_held (c_pc (cpus ! j)) \<subseteq> flights cpus - marks_held (c_pc ?c)"
      using ap[OF j(1) i j(2)] j(1) by (auto simp: apart_def flights_def)
    then show "cpu_ok t (cpus ! j) \<and> apart (?c\<lparr>c_pc := q\<rparr>) (cpus ! j)"
      using Q other[OF j] oks[OF j(1)] spares_cpu by (auto simp: apart_def)
  qed (use Q ok spares_private in \<open>auto simp: cpu_ok_def\<close>)
  moreover have "live_reads (cpus[i := ?c\<lparr>c_pc := q\<rparr>], t)" if l: "live_reads (cpus, s)"
  proof (rule live_reads_upd)
    fix j
    assume j: "j < length cpus" "j \<noteq> i"
    show "\<not> stale t (c_pc (cpus ! j))"
      using Q other[OF j] oks[OF j(1)] live_readsD[OF l j(1)] stale_read spares_live unfolding cpu_ok_def by blast
  qed (use Q in simp)
  ultimately show ?thesis using q(1) by simp
qed

lemma smp_call_safe:
  assumes inv: "smp_inv z" and legal: "legal_smp z c" and live: "\<not> stale_turn z c"
  shows "\<exists>z'. run_smp c z = Inr ((), z') \<and> smp_inv z' \<and> (live_reads z \<longrightarrow> spares_readers z c \<longrightarrow> live_reads z')"
proof -
  obtain cpus s where z: "z = (cpus, s)" by (cases z)
  show ?thesis
  proof (cases c)
    case (Receive i ip rid)
    with legal z have i: "i < length cpus" and d: "is_done (c_pc (cpus ! i))" and r: "private_rule s rid"
      and new: "\<forall>c \<in> set cpus. is_done (c_pc c) \<or> c_ip c \<noteq> ip" by simp_all
    let ?c = "\<lparr>c_ip = ip, c_rid = rid, c_pc = Get\<rparr>"
    have "smp_inv (cpus[i := ?c], s)"
      using inv z r new done_held[OF d] by (intro smp_move[OF _ i]) (auto simp: smp_inv_def cpu_ok_def apart_def dest: nth_mem)
    moreover have "live_reads (cpus[i := ?c], s)" if "live_reads (cpus, s)"
      using live_readsD[OF that] by (intro live_reads_upd) simp_all
    ultimately show ?thesis using Receive z by simp
  next
    case (Turn i)
    with turn_safe[of cpus s i] inv legal live z show ?thesis by auto
  next
    case (Call call)
    have "flight_inv (flights cpus) s" "\<forall>d \<in> set cpus. cpu_ok s d" using inv z by (simp_all add: smp_inv_def)
    with Call legal z obtain t where "run_call call s = Inr ((), t)" "flight_inv (flights cpus) t"
        "\<forall>d \<in> set cpus. cpu_ok t d \<and> (spares_readers (cpus, s) (Call call) \<longrightarrow> \<not> stale s (c_pc d) \<longrightarrow> \<not> stale t (c_pc d))"
      using call_beside_safe[of "flights cpus" s cpus call] by auto
    with inv Call z show ?thesis by (simp add: smp_inv_def live_reads_def)
  qed
qed

text \<open>
  The machine is a guarded system twice over: without stale turns, whatever is released when, and with orderly
  calls only, under which no turn goes stale.
\<close>

definition fresh_smp :: "smp \<Rightarrow> smp_call \<Rightarrow> bool" where
  "fresh_smp z c \<longleftrightarrow> legal_smp z c \<and> \<not> stale_turn z c"

interpretation smp: guarded_system run_smp fresh_smp smp_inv
  by unfold_locales (unfold fresh_smp_def, use smp_call_safe in blast)

definition smp_live :: "smp \<Rightarrow> bool" where
  "smp_live z \<longleftrightarrow> smp_inv z \<and> live_reads z"

lemma live_not_stale: "live_reads z \<Longrightarrow> legal_smp z c \<Longrightarrow> \<not> stale_turn z c"
  by (cases z; cases c) (auto simp: live_reads_def)

interpretation calm: guarded_system run_smp orderly smp_live
  by unfold_locales (unfold orderly_def smp_live_def, use smp_call_safe live_not_stale in blast)

text \<open>A stale turn reads freed memory.\<close>

lemma stale_turn_faults:
  assumes "stale_turn z c"
  shows "run_smp c z = Inl UseAfterFree" "\<exists>i a. c = Turn i \<and> c_pc (fst z ! i) = Read a \<and> node_heap (snd z) a = None"
proof -
  obtain cpus s i where z: "z = (cpus, s)" "c = Turn i" "stale s (c_pc (cpus ! i))"
    using assms by (cases z; cases c) auto
  then obtain a where "c_pc (cpus ! i) = Read a" "node_heap s a = None" by (cases "c_pc (cpus ! i)") auto
  with z show "run_smp c z = Inl UseAfterFree" "\<exists>i a. c = Turn i \<and> c_pc (fst z ! i) = Read a \<and> node_heap (snd z) a = None"
    by (simp_all add: node_at_def)
qed

section \<open>Scripts\<close>

text \<open>When no packet is in hand, the invariant of the machine is the invariant of the module.\<close>

lemma idle_flights: "\<forall>c \<in> set cpus. is_done (c_pc c) \<Longrightarrow> flights cpus = {}"
  by (simp add: flights_def done_held)

lemma smp_inv_idle: "\<forall>c \<in> set cpus. is_done (c_pc c) \<Longrightarrow> smp_inv (cpus, s) \<longleftrightarrow> qos_inv s"
  by (simp add: smp_inv_def idle_flights qos_inv_flight cpu_ok_def apart_def done_held)

lemma is_done_rank: "is_done p \<longleftrightarrow> rank p = 0"
  by (cases p) simp_all

text \<open>Turns of one processor in a row are its steps in a row.\<close>

lemma turns_run:
  assumes "i < length cpus"
  shows "run_all run_smp (replicate n (Turn i)) (cpus, s) =
    (case packet_run n (c_ip (cpus ! i)) (c_rid (cpus ! i)) (c_pc (cpus ! i)) s of
       Inl e \<Rightarrow> Inl e | Inr (p, t) \<Rightarrow> Inr ((), (cpus[i := (cpus ! i)\<lparr>c_pc := p\<rparr>], t)))"
  using assms
proof (induction n arbitrary: cpus s)
  case (Suc n)
  show ?case
  proof (cases "packet_step (c_ip (cpus ! i)) (c_rid (cpus ! i)) (c_pc (cpus ! i)) s")
    case (Inr x)
    obtain p t where x: "x = (p, t)" by (cases x)
    show ?thesis using Suc.IH[of "cpus[i := (cpus ! i)\<lparr>c_pc := p\<rparr>]" t] Suc.prems Inr x by (simp split: sum.split prod.split)
  qed simp
qed simp

lemmas run_script = run_all_append turns_run

lemma call_length: "run_smp c (cpus, s) = Inr ((), (cpus', t)) \<Longrightarrow> length cpus' = length cpus"
  by (cases c) (auto split: sum.splits)

lemma script_length: "run_all run_smp cs (cpus, s) = Inr ((), (cpus', t)) \<Longrightarrow> length cpus' = length cpus"
proof (induction cs arbitrary: cpus s)
  case (Cons c cs)
  then obtain d u where "run_smp c (cpus, s) = Inr ((), (d, u))" "run_all run_smp cs (d, u) = Inr ((), (cpus', t))"
    by (auto simp: thenM_eq_Inr)
  with Cons.IH call_length show ?case by metis
qed simp

lemma turns_orderly:
  assumes "\<forall>i \<in> set is. i < length cpus"
  shows "legal_all run_smp orderly (map Turn is) (cpus, s)"
  using assms
proof (induction "is" arbitrary: cpus s)
  case (Cons i "is")
  then show ?case by (auto simp: orderly_def split: sum.splits prod.splits)
qed simp

text \<open>A call without a new packet brings no packet back, and a turn brings its packet on until it is done.\<close>

definition is_receive :: "smp_call \<Rightarrow> bool" where
  "is_receive c = (case c of Receive _ _ _ \<Rightarrow> True | _ \<Rightarrow> False)"

lemma call_rank:
  assumes "run_smp c (cpus, s) = Inr ((), (cpus', t))" "\<not> is_receive c" "i < length cpus"
  shows "rank (c_pc (cpus' ! i)) \<le> rank (c_pc (cpus ! i)) - (if c = Turn i then 1 else 0)"
proof (cases c)
  case (Turn j)
  obtain q where q: "packet_step (c_ip (cpus ! j)) (c_rid (cpus ! j)) (c_pc (cpus ! j)) s = Inr (q, t)"
    "cpus' = cpus[j := (cpus ! j)\<lparr>c_pc := q\<rparr>]" using assms(1) Turn by (auto split: sum.splits)
  have "rank q \<le> rank (c_pc (cpus ! j)) - 1"
    using step_rank[OF q(1)] q(1) rank_0_iff[of "c_pc (cpus ! j)"] by (cases "rank (c_pc (cpus ! j)) = 0") auto
  with q(2) Turn assms(3) show ?thesis by (cases "i = j") auto
qed (use assms in \<open>auto simp: is_receive_def split: sum.splits\<close>)

lemma script_rank:
  assumes "run_all run_smp cs (cpus, s) = Inr ((), (cpus', t))" "\<forall>c \<in> set cs. \<not> is_receive c" "i < length cpus"
  shows "rank (c_pc (cpus' ! i)) \<le> rank (c_pc (cpus ! i)) - count_list cs (Turn i)"
  using assms
proof (induction cs arbitrary: cpus s)
  case (Cons c cs)
  then obtain d u where d: "run_smp c (cpus, s) = Inr ((), (d, u))" "run_all run_smp cs (d, u) = Inr ((), (cpus', t))"
    by (auto simp: thenM_eq_Inr)
  have "rank (c_pc (cpus' ! i)) \<le> rank (c_pc (d ! i)) - count_list cs (Turn i)"
    using Cons.IH[OF d(2)] Cons.prems(2,3) call_length[OF d(1)] by simp
  with call_rank[OF d(1) _ Cons.prems(3)] Cons.prems(2) show ?case by (auto split: if_splits)
qed simp

lemma rank_le: "rank p \<le> 10"
  by (cases p) simp_all

text \<open>There is a mark left while the addresses and the marks in flight do not fill the table.\<close>

lemma flight_room:
  assumes inv: "flight_inv F s" and fin: "finite F" and lt: "card (dom (table s)) + card F < unat (max_ip_cnt s)"
  shows "free_slot s < unat (max_ip_cnt s)"
proof (rule ccontr)
  note S = flight_invD(1)[OF inv]
  assume "\<not> free_slot s < unat (max_ip_cnt s)"
  then have eq: "used_marks s = mark_pool s" using free_slot_iff[OF shapeD(1)[OF S]] by blast
  have "inj_on mark_of {..<unat (max_ip_cnt s)}"
    using mark_of_inj bitmap_wfD(3)[OF shapeD(1)[OF S]] by (auto intro!: inj_onI)
  moreover have "mark_pool s = mark_of ` {..<unat (max_ip_cnt s)}" by (auto simp: mark_pool_def)
  ultimately have "card (mark_pool s) = unat (max_ip_cnt s)" by (simp add: card_image)
  moreover have "used_marks s \<subseteq> (\<lambda>ip. n_mark (the (table s ip))) ` dom (table s) \<union> F"
  proof
    fix m
    assume "m \<in> used_marks s"
    then show "m \<in> (\<lambda>ip. n_mark (the (table s ip))) ` dom (table s) \<union> F"
      using flight_invD(3)[OF inv] by (cases "m \<in> F") (force simp: view_ok_def no_leak_def)+
  qed
  then have "card (used_marks s) \<le> card ((\<lambda>ip. n_mark (the (table s ip))) ` dom (table s) \<union> F)"
    using card_table(1)[OF shapeD(2)[OF S]] fin by (intro card_mono) auto
  moreover have "\<dots> \<le> card (dom (table s)) + card F"
    using card_Un_le card_image_le[OF card_table(1)[OF shapeD(2)[OF S]]] by (meson add_right_mono le_trans)
  ultimately show False using lt eq by simp
qed

text \<open>From the allocation to the entry in the table, undisturbed, for a rule of either mode.\<close>

lemma fresh_run:
  assumes inv: "shape s" and i: "unat (rid - 1) < length (the_rules s)" and new: "table s ip = None"
    and k: "free_slot s < unat (max_ip_cnt s)" and ok: "has_room s" "node_memory s"
    and sh: "sh \<longleftrightarrow> r_mode (the_rules s ! unat (rid - 1)) \<noteq> PRIV_MODE"
  shows "\<exists>t. packet_run (if sh then 3 else 2) ip rid (Alloc sh) s = Inr (Class (mark_of (free_slot s)), t) \<and> shape t \<and>
    view t = admit_fresh ip rid (mark_of (free_slot s)) (view s) \<and> env t = env s \<and> reset_flag t = reset_flag s \<and> max_ip_cnt t = max_ip_cnt s"
proof -
  note S = shapeD[OF inv] and C = chosen_facts[OF inv k i] and SC = shapeD[OF shape_chosen[OF inv, of rid]]
  let ?c = "chosen rid s" and ?m = "mark_of (free_slot s)"
  let ?t = "quiet False (Suc (env_time s)) (klog s) (nl_sent s) (count_rule (rid - 1) 1 (insert_node (new_entry ip rid ?m) ?c))"
  have add: "qmark_add_hash ip rid ?m ?c = Inr (OK, ?t)"
    using qmark_add_hash_spec[OF SC(2,1,3,4,6), of rid ip "free_slot s"] i new k C ok by (simp add: node_memory_def)
  have "packet_run (if sh then 3 else 2) ip rid (Alloc sh) s = Inr (Class ?m, ?t)"
  proof (cases sh)
    case True
    then have "set_rule (rid - 1) (\<lambda>r. r\<lparr>r_mark := ?m\<rparr>) (put_bit (free_slot s) True s) = Inr ((), ?c)"
      using sh S(3) i by (simp add: set_rule_spec chosen_def)
    with True add k S(1,4) show ?thesis by (simp add: eval_nat_numeral qmark_alloc_mark_spec)
  next
    case False
    then have "put_bit (free_slot s) True s = ?c" using sh by (simp add: chosen_def)
    with False add k S(1,4) show ?thesis by (simp add: eval_nat_numeral qmark_alloc_mark_spec)
  qed
  then show ?thesis using view_admit_fresh[OF inv i new k ok(1)]
    by (intro exI[of _ ?t]) (simp add: count_rule_def chosen_def)
qed

end
