(* ===== verification/Props_Smp.thy ===== *)
theory Props_Smp
  imports Qmark_Smp Qmark_Samples
begin

text \<open>
  Properties of several processors at work: which interleavings of packets and locked calls are
  safe and the one fault of the others, that every packet comes to its end, and the three ways in which the missing locks of the
  packet path show.
\<close>

section \<open>Scripts of turns\<close>

lemma enter_run_alloc:
  assumes "\<not> reset_flag s" and "rules_live s" and "unat (rid - 1) < length (the_rules s)"
    and "r_mode (the_rules s ! unat (rid - 1)) = PRIV_MODE \<or> r_count (the_rules s ! unat (rid - 1)) = 0"
  shows "packet_run (Suc (Suc n)) ip rid Enter s =
    packet_run n ip rid (Alloc (r_mode (the_rules s ! unat (rid - 1)) \<noteq> PRIV_MODE)) s"
  using assms by (auto simp: rule_at_spec)

lemma get_run:
  "table_wf s \<Longrightarrow> packet_run (Suc n) ip rid Get s = packet_run n ip rid (case lookup s ip of None \<Rightarrow> Enter | Some a \<Rightarrow> Read a) s"
  by (simp add: marktbl_hash_get_spec)

lemma add_hash_dup:
  assumes "shape s" "has_room s" "lookup s ip = Some a" "i < unat (max_ip_cnt s)" "mark_bits s ! i"
  shows "qmark_add_hash ip rid (mark_of i) s = Inl NullDeref"
proof -
  note S = shapeD[OF assms(1)]
  let ?s = "quiet True (env_time s) (klog s) (nl_sent s) s"
  have "test_mark (mark_of i) ?s = Inr (True, ?s)" using test_mark_spec[of ?s i] S(1) assms(4,5) by simp
  moreover have "marktbl_hash_add ip rid (mark_of i) ?s = Inl NullDeref"
    using S(2) room_iff[OF S(1,6)] assms(2,3) by (intro marktbl_hash_add_dup[where a = a]) simp_all
  ultimately show ?thesis using S(4) by (simp add: qmark_add_hash_def qos_marktbl_hashtbl_add_def)
qed

lemma legal_cons:
  "legal s c \<Longrightarrow> run c s = Inr ((), t) \<Longrightarrow> legal_all run legal cs t \<Longrightarrow> legal_all run legal (c # cs) s"
  by simp

text \<open>Two processors without a packet, a freshly loaded module, and the same with a shared rule.\<close>

definition sample_cpus :: "cpu list" where
  "sample_cpus = [\<lparr>c_ip = 0, c_rid = 0, c_pc = Done None\<rparr>, \<lparr>c_ip = 0, c_rid = 0, c_pc = Done None\<rparr>]"

definition sample_idle :: "kenv \<Rightarrow> kst" where
  "sample_idle e = map_rule 0 (\<lambda>r. r\<lparr>r_mode := 1\<rparr>) (sample_boot e)"

lemma sample_idle_inv:
  assumes "fits_env e"
  shows "qos_inv (sample_idle e)" "table (sample_idle e) = Map.empty" "the_rules (sample_idle e) = [zero_rule\<lparr>r_mode := 1\<rparr>, zero_rule]"
proof -
  note B = sample_boot_inv[OF assms]
  have S: "shape (sample_boot e)" and V: "view_ok (view (sample_boot e))" using B(1) by (simp_all add: qos_inv_def)
  have "shape (sample_idle e)" unfolding sample_idle_def
    by (rule shape_map_rule[OF S]) (use B(4) zero_rule_rates in \<open>auto simp: rule_rates_ok_def\<close>)
  moreover have "view (sample_idle e) = configure 1 (\<lambda>r. r\<lparr>r_mode := 1\<rparr>) (view (sample_boot e))"
    by (simp add: sample_idle_def configure_def)
  moreover have "view_ok (configure 1 (\<lambda>r. r\<lparr>r_mode := 1\<rparr>) (view (sample_boot e)))"
    using B(4) by (intro configure_ok[OF V]) (simp_all add: zero_rule_def)
  ultimately show "qos_inv (sample_idle e)" by (simp add: qos_inv_def)
  show "table (sample_idle e) = Map.empty" "the_rules (sample_idle e) = [zero_rule\<lparr>r_mode := 1\<rparr>, zero_rule]"
    using B by (simp_all add: sample_idle_def)
qed

lemma sample_cpus_done: "\<forall>c \<in> set sample_cpus. is_done (c_pc c)"
  by (simp add: sample_cpus_def)

definition sample_script :: "smp_call list" where
  "sample_script = [Receive 0 sample_ip 1, Receive 1 sample_jp 2, Turn 0, Turn 1, Turn 1, Call (Conntrack 0 None), Turn 1, Turn 0]"

lemma sample_script_orderly: "legal_all run_smp orderly sample_script (sample_cpus, sample_boot sample_env)"
proof -
  let ?s = "sample_boot sample_env"
  note B = sample_boot_inv[OF fits_envs(1)]
  have W: "table_wf ?s" "rules_live ?s" using B(1) by (simp_all add: qos_inv_def shape_def)
  have n: "lookup ?s kp = None" for kp using B(2) table_None_iff[OF W(1)] by simp
  have e: "bindM (gets reset_flag) (\<lambda>b. ret (if b then Done None else Mode)) ?s = Inr (Mode, ?s)" by (simp add: bindM_def)
  show ?thesis
    unfolding sample_script_def sample_cpus_def
    by (rule legal_cons, simp add: orderly_def B(4) private_rule_def rule_number_def zero_rule_def sample_ip_def sample_jp_def,
      simp add: W B(4) n e marktbl_hash_get_spec rule_at_spec qmark_conntrack_event_def)+ simp
qed

lemma sample_script_legal: "legal_all run_smp legal_smp sample_script (sample_cpus, sample_boot sample_env)"
  using sample_script_orderly by (rule legal_all_mono) (simp add: orderly_def)

definition sample_turns :: "smp_call list" where
  "sample_turns = map Turn (replicate 10 0 @ replicate 10 1)"

lemma sample_turns_orderly:
  "legal_all run_smp orderly (sample_script @ sample_turns) (sample_cpus, sample_boot sample_env)"
proof -
  have "legal_all run_smp orderly sample_turns (cpus, t)"
    if "run_all run_smp sample_script (sample_cpus, sample_boot sample_env) = Inr ((), (cpus, t))" for cpus t
    unfolding sample_turns_def using script_length[OF that] by (intro turns_orderly) (auto simp: sample_cpus_def)
  then show ?thesis using sample_script_orderly by (auto simp: legal_all_append split: sum.split)
qed

section \<open>Properties\<close>

text \<open>
  C9: the steps are the code. Taken one after another without interruption, the ten steps a packet has
  at most are exactly the target's handler, in every state, faults included.
\<close>

theorem packet_steps_handle:
  "qmark_handle skb iph info s =
     bindM (packet_run 10 (packet_ip iph info) (tg_id info) Get) (\<lambda>p. ret (handled skb info p)) s"
  by (rule packet_run_handle)

text \<open>
  C2: what can go wrong when packets of different addresses run on several processors. Take a consistent
  module with no packet in hand and any interleaving of packets under private rules - each for an address
  that no other processor is busy with - of conntrack events and releases at any time, of changes of idle
  rules no packet in hand is under, and of listings. Either the script runs to its end, or it is not orderly and
  stops at the one fault there can be: a turn that reads a node which was freed after the processor had
  found it. Orderly scripts, in which no address is released while a processor is about to read its
  node, always run to their end. In both cases the tables are consistent at the end once the marks of the packets
  in flight are set aside, and consistent as they are when no packet is in hand.
\<close>

theorem smp_safe:
  assumes "qos_inv s" and "\<forall>c \<in> set cpus. is_done (c_pc c)" and "legal_all run_smp legal_smp script (cpus, s)"
  shows "(\<exists>cpus' t. run_all run_smp script (cpus, s) = Inr ((), (cpus', t)) \<and>
      view_ok (settled (flights cpus') (view t)) \<and> ((\<forall>c \<in> set cpus'. is_done (c_pc c)) \<longrightarrow> qos_inv t)) \<or>
    (run_all run_smp script (cpus, s) = Inl UseAfterFree \<and> \<not> legal_all run_smp orderly script (cpus, s) \<and>
     (\<exists>pre i post cpus' t a. script = pre @ Turn i # post \<and> run_all run_smp pre (cpus, s) = Inr ((), (cpus', t)) \<and>
        c_pc (cpus' ! i) = Read a \<and> node_heap t a = None \<and> view_ok (settled (flights cpus') (view t))))"
proof -
  have inv: "smp_inv (cpus, s)" "smp_live (cpus, s)"
    using assms(1,2) smp_inv_idle stale_read by (auto simp: smp_live_def live_reads_def)
  have ok: "view_ok (settled (flights cpus') (view t))" if "smp_inv (cpus', t)" for cpus' t
    using that by (simp add: smp_inv_def flight_inv_def)
  from smp.run_all_or_breach[OF inv(1), of script] show ?thesis
  proof (elim disjE exE conjE)
    fix z
    assume z: "run_all run_smp script (cpus, s) = Inr ((), z)" "smp_inv z"
    obtain cpus' t where e: "z = (cpus', t)" by (cases z)
    have "view_ok (settled (flights cpus') (view t))" "(\<forall>c \<in> set cpus'. is_done (c_pc c)) \<longrightarrow> qos_inv t"
      using z(2) ok smp_inv_idle unfolding e by (blast, blast)
    with z(1) e show ?thesis by blast
  next
    fix pre c post z
    assume b: "script = pre @ c # post" "run_all run_smp pre (cpus, s) = Inr ((), z)" "smp_inv z" "\<not> fresh_smp z c"
    then have "stale_turn z c" using assms(3) by (auto simp: legal_all_append fresh_smp_def)
    note st = stale_turn_faults[OF this]
    then have uaf: "run_all run_smp script (cpus, s) = Inl UseAfterFree" using b(1,2) by (simp add: run_all_append)
    moreover have "\<not> legal_all run_smp orderly script (cpus, s)" using calm.run_all_safe[OF inv(2)] uaf by fastforce
    moreover obtain cpus' t where "z = (cpus', t)" by (cases z)
    ultimately show ?thesis using b st(2) ok by fastforce
  qed
qed

theorem smp_safe_witness:
  "\<exists>cpus t. run_all run_smp sample_script (sample_cpus, sample_boot sample_env) = Inr ((), (cpus, t)) \<and>
    view_ok (settled (flights cpus) (view t))"
  using smp_safe[OF sample_boot_inv(1)[OF fits_envs(1)] sample_cpus_done sample_script_legal] sample_script_orderly by blast

text \<open>
  C10: every packet comes to its end. After any orderly script, give every processor ten turns, in any order,
  with events, releases and rule changes in between but no new packet: no step faults, no packet is left in
  hand, and the tables are consistent, so that no mark is lost on the way.
\<close>

theorem smp_packets_end:
  assumes "qos_inv s" and "\<forall>c \<in> set cpus. is_done (c_pc c)" and "legal_all run_smp orderly (script @ turns) (cpus, s)"
    and "\<forall>c \<in> set turns. \<not> is_receive c" and "\<forall>i < length cpus. 10 \<le> count_list turns (Turn i)"
  shows "\<exists>cpus' t. run_all run_smp (script @ turns) (cpus, s) = Inr ((), (cpus', t)) \<and>
    (\<forall>c \<in> set cpus'. is_done (c_pc c)) \<and> qos_inv t"
proof -
  have "smp_live (cpus, s)" using assms(1,2) smp_inv_idle stale_read by (auto simp: smp_live_def live_reads_def)
  then obtain z where z: "run_all run_smp (script @ turns) (cpus, s) = Inr ((), z)" "smp_live z"
    using calm.run_all_safe[OF _ assms(3)] by blast
  obtain cpus' t where e: "z = (cpus', t)" by (cases z)
  with z(1) obtain d u where d: "run_all run_smp script (cpus, s) = Inr ((), (d, u))" "run_all run_smp turns (d, u) = Inr ((), (cpus', t))"
    by (auto simp: run_all_append thenM_eq_Inr)
  have "is_done (c_pc (cpus' ! i))" if "i < length cpus'" for i
  proof -
    have i: "i < length d" "i < length cpus" using that script_length[OF d(1)] script_length[OF d(2)] by simp_all
    have "rank (c_pc (cpus' ! i)) \<le> rank (c_pc (d ! i)) - 10"
      using script_rank[OF d(2) assms(4) i(1)] assms(5) i(2) by (meson diff_le_mono2 order_trans)
    with rank_le[of "c_pc (d ! i)"] show ?thesis by (simp add: is_done_rank)
  qed
  then have "\<forall>c \<in> set cpus'. is_done (c_pc c)" by (simp add: all_set_conv_all_nth)
  with z e show ?thesis using smp_inv_idle by (auto simp: smp_live_def)
qed

theorem smp_packets_end_witness:
  "\<exists>cpus t. run_all run_smp (sample_script @ sample_turns) (sample_cpus, sample_boot sample_env) = Inr ((), (cpus, t)) \<and>
    (\<forall>c \<in> set cpus. is_done (c_pc c)) \<and> qos_inv t"
  by (rule smp_packets_end[OF sample_boot_inv(1)[OF fits_envs(1)] sample_cpus_done sample_turns_orderly])
    (auto simp: sample_turns_def is_receive_def sample_cpus_def less_Suc_eq eval_nat_numeral)

text \<open>
  C34: the lookup's race. \<open>qmark_find_hash\<close> reads the mark of the node it found after it has given up the
  lock. When the last connection of the address ends in between, the node is freed and the read goes
  to freed memory.
\<close>

theorem smp_lookup_use_after_free:
  assumes "qos_inv s" and "table s (ct_ip_addr ct) = Some n" and "last_conn n" and "ct_relevant s ct"
    and "event_bit events (IPCT_DESTROY (env s))" and "cpus \<noteq> []"
  shows "run_all run_smp [Receive 0 (ct_ip_addr ct) rid, Turn 0, Call (Conntrack events (Some ct)), Turn 0] (cpus, s) = Inl UseAfterFree"
proof -
  let ?ip = "ct_ip_addr ct"
  have F: "flight_inv {} s" using assms(1) by (simp add: qos_inv_flight)
  note S = flight_invD(1)[OF F]
  obtain a where a: "lookup s ?ip = Some a" "node_heap s a = Some n" using lookup_node[OF S assms(2)] .
  obtain t where t: "qmark_conntrack_event events (Some ct) s = Inr ((), t)" "node_heap t = ct_heap s events (Some ct)"
    using qmark_conntrack_event_flight[OF F] by blast
  have "node_heap t a = None" using t(2) assms(2-5) a by (simp add: ct_heap_def)
  then have "node_at a t = Inl UseAfterFree" by (simp add: node_at_def)
  with t(1) a assms(6) show ?thesis by (simp add: marktbl_hash_get_spec[OF shapeD(2)[OF S]])
qed

theorem smp_lookup_use_after_free_witness:
  "run_all run_smp [Receive 0 sample_ip 1, Turn 0, Call (Conntrack 4 (Some sample_conn)), Turn 0] (sample_cpus, sample_one sample_env) = Inl UseAfterFree"
proof -
  have a: "ct_ip_addr sample_conn = sample_ip" by (simp add: ct_ip_addr_def sample_conn_def)
  show ?thesis
    using smp_lookup_use_after_free[of "sample_one sample_env" sample_conn sample_node 4 sample_cpus 1, unfolded a]
      sample_one_inv(1,2)[OF fits_envs(1)]
    by (simp add: last_conn_def sample_node_def ct_relevant_def sample_conn_def event_bit_def sample_cpus_def)
qed

text \<open>
  C35: two first packets of one address. Both processors look the address up before either has entered
  it; the second to enter it finds it in the table and increments through a NULL pointer.
\<close>

theorem smp_same_address_faults:
  assumes "qos_inv s" and "table s ip = None" and "private_rule s rid" and "\<not> reset_flag s" and "node_memory s"
    and "card (dom (table s)) + 2 \<le> unat (max_ip_cnt s)" and "2 \<le> length cpus"
  shows "run_all run_smp ([Receive 0 ip rid, Receive 1 ip rid, Turn 0, Turn 1] @ replicate 4 (Turn 0) @ replicate 4 (Turn 1)) (cpus, s) = Inl NullDeref"
proof -
  have F: "flight_inv {} s" using assms(1) by (simp add: qos_inv_flight)
  note S = flight_invD(1)[OF F] note D = shapeD[OF S]
  have rid: "unat (rid - 1) < length (the_rules s)" and mode: "r_mode (the_rules s ! unat (rid - 1)) = PRIV_MODE"
    using assms(3) by (simp_all add: private_rule_def rule_number_def)
  have none: "lookup s ip = None" using assms(2) table_None_iff[OF D(2)] by simp
  have k: "free_slot s < unat (max_ip_cnt s)" using flight_room[OF F] assms(6) by simp
  have room: "has_room s" using has_room_iff[OF S] assms(6) by simp
  let ?m = "mark_of (free_slot s)"
  obtain u where u: "packet_run 2 ip rid (Alloc False) s = Inr (Class ?m, u)" "shape u" "view u = admit_fresh ip rid ?m (view s)"
      "env u = env s" "reset_flag u = reset_flag s" "max_ip_cnt u = max_ip_cnt s"
    using fresh_run[OF S rid assms(2) k room assms(5), of False] mode by auto
  note U = shapeD[OF u(2)]
  have first: "packet_run 4 ip rid Enter s = Inr (Class ?m, u)"
    using enter_run_alloc[OF assms(4) D(3) rid, of 2 ip] mode u(1) by (simp add: numeral_Bit0)
  have tu: "table u = (table s)(ip \<mapsto> \<lparr>n_src_ip = ip, n_id = rid, n_mark = ?m, n_count = 0\<rparr>)"
    using arg_cong[OF u(3), of v_table] by (simp add: admit_fresh_def Let_def)
  have ru: "the_rules u = (the_rules s)[unat (rid - 1) := (the_rules s ! unat (rid - 1))\<lparr>r_count := r_count (the_rules s ! unat (rid - 1)) + 1\<rparr>]"
    using arg_cong[OF u(3), of v_rules] mode by (simp add: admit_fresh_def Let_def)
  have "view_ok (view u)"
    unfolding u(3) using assms(1,2) rid mode slot_not_used[OF D(1) k] room_bound(2)[OF S]
    by (intro admit_fresh_ok) (simp_all add: qos_inv_def unshared_def)
  then have G: "flight_inv {} u" using u(2) by (simp add: flight_inv_def)
  have dom: "card (dom (table u)) = Suc (card (dom (table s)))"
    unfolding tu using assms(2) card_table(1)[OF D(2)] by (simp add: domIff)
  have k': "free_slot u < unat (max_ip_cnt u)" using flight_room[OF G] assms(6) dom u(6) by simp
  let ?v = "put_bit (free_slot u) True u"
  obtain a where a: "lookup u ip = Some a" using tu table_None_iff[OF U(2), of ip] by auto
  have second: "packet_run 4 ip rid Enter u = packet_run 1 ip rid (Insert (mark_of (free_slot u))) ?v"
    using enter_run_alloc[OF _ U(3), of rid 2 ip] assms(4) u(5) rid mode ru k' qmark_alloc_mark_spec[OF U(1,4)]
    by (simp add: numeral_Bit0)
  have "qmark_add_hash ip rid (mark_of (free_slot u)) ?v = Inl NullDeref"
    using k' u(2) has_room_iff[OF u(2)] dom assms(6) u(6) a bitmap_wfD(2)[OF U(1)]
    by (intro add_hash_dup[where a = a]) (simp_all add: has_room_def)
  with second have second: "packet_run 4 ip rid Enter u = Inl NullDeref" by simp
  obtain c d cs where cpus: "cpus = c # d # cs" using assms(7) by (cases cpus; cases "tl cpus") auto
  show ?thesis
    using none first second cpus by (simp add: run_script marktbl_hash_get_spec[OF D(2)] del: replicate.simps)
qed

theorem smp_same_address_faults_witness:
  "run_all run_smp ([Receive 0 sample_ip 1, Receive 1 sample_ip 1, Turn 0, Turn 1] @ replicate 4 (Turn 0) @ replicate 4 (Turn 1))
    (sample_cpus, sample_boot sample_env) = Inl NullDeref"
  using sample_boot_inv[OF fits_envs(1)]
  by (intro smp_same_address_faults) (simp_all add: private_rule_def rule_number_def zero_rule_def node_memory_def sample_cpus_def)

text \<open>
  C36: two first addresses of a shared rule. Both processors read the rule's count while it is 0, and each
  takes a mark of its own: the two addresses of the shared rule end up with different marks, and the
  tables are inconsistent.
\<close>

theorem smp_shared_rule_splits:
  assumes "qos_inv s" and "table s ip = None" and "table s jp = None" and "ip \<noteq> jp" and "rule_number s rid"
    and "r_mode (the_rules s ! unat (rid - 1)) \<noteq> PRIV_MODE" and "r_count (the_rules s ! unat (rid - 1)) = 0"
    and "\<not> reset_flag s" and "\<forall>k. kmalloc_ok (env s) k (sizeof_marktbl_node (env s))"
    and "card (dom (table s)) + 2 \<le> unat (max_ip_cnt s)" and "2 \<le> length cpus"
  shows "\<exists>cpus' t n m. run_all run_smp ([Receive 0 ip rid, Receive 1 jp rid] @ replicate 3 (Turn 0) @ replicate 3 (Turn 1) @
      replicate 3 (Turn 0) @ replicate 3 (Turn 1)) (cpus, s) = Inr ((), (cpus', t)) \<and>
    table t ip = Some n \<and> table t jp = Some m \<and> n_id n = rid \<and> n_id m = rid \<and> n_mark n \<noteq> n_mark m \<and> \<not> view_ok (view t)"
proof -
  have F: "flight_inv {} s" using assms(1) by (simp add: qos_inv_flight)
  note S = flight_invD(1)[OF F] note D = shapeD[OF S]
  have rid: "unat (rid - 1) < length (the_rules s)" using assms(5) by (simp add: rule_number_def)
  have alloc: "packet_run 3 kp rid Get s = Inr (Alloc True, s)" if "table s kp = None" for kp
    using that table_None_iff[OF D(2)] enter_run_alloc[OF assms(8) D(3) rid, of 0 kp] assms(6,7) get_run[OF D(2), of 2 kp rid]
    by (simp add: numeral_2_eq_2 numeral_3_eq_3)
  have k: "free_slot s < unat (max_ip_cnt s)" using flight_room[OF F] assms(10) by simp
  have room: "has_room s" using has_room_iff[OF S] assms(10) by simp
  let ?m = "mark_of (free_slot s)"
  obtain u where u: "packet_run 3 ip rid (Alloc True) s = Inr (Class ?m, u)" "shape u" "view u = admit_fresh ip rid ?m (view s)"
      "env u = env s" "reset_flag u = reset_flag s" "max_ip_cnt u = max_ip_cnt s"
    using fresh_run[OF S rid assms(2) k room, of True] assms(6,9) by (auto simp: node_memory_def)
  note U = shapeD[OF u(2)]
  have tu: "table u = (table s)(ip \<mapsto> \<lparr>n_src_ip = ip, n_id = rid, n_mark = ?m, n_count = 0\<rparr>)"
    using arg_cong[OF u(3), of v_table] by (simp add: admit_fresh_def Let_def)
  have mu: "used_marks u = insert ?m (used_marks s)" using arg_cong[OF u(3), of v_used] by (simp add: admit_fresh_def Let_def)
  have ru: "length (the_rules u) = length (the_rules s)" "r_mode (the_rules u ! unat (rid - 1)) \<noteq> PRIV_MODE"
    using arg_cong[OF u(3), of v_rules] assms(6) rid by (simp_all add: admit_fresh_def Let_def)
  have "view_ok (view u)"
    unfolding u(3) using assms(1,2,7) rid slot_not_used[OF D(1) k] room_bound(2)[OF S]
    by (intro admit_fresh_ok) (simp_all add: qos_inv_def unshared_def)
  then have G: "flight_inv {} u" using u(2) by (simp add: flight_inv_def)
  have dom: "card (dom (table u)) = Suc (card (dom (table s)))"
    unfolding tu using assms(2) card_table(1)[OF D(2)] by (simp add: domIff)
  have k': "free_slot u < unat (max_ip_cnt u)" using flight_room[OF G] assms(10) dom u(6) by simp
  have room': "has_room u" using has_room_iff[OF u(2)] assms(10) dom u(6) by simp
  let ?m' = "mark_of (free_slot u)"
  obtain t where t: "packet_run 3 jp rid (Alloc True) u = Inr (Class ?m', t)" "shape t" "view t = admit_fresh jp rid ?m' (view u)"
    using fresh_run[OF u(2) _ _ k' room', of rid jp True] ru assms(3,4,9) rid tu u(4) by (auto simp: node_memory_def)
  have tt: "table t ip = Some \<lparr>n_src_ip = ip, n_id = rid, n_mark = ?m, n_count = 0\<rparr>"
    "table t jp = Some \<lparr>n_src_ip = jp, n_id = rid, n_mark = ?m', n_count = 0\<rparr>"
    using arg_cong[OF t(3), of v_table] tu assms(4) by (simp_all add: admit_fresh_def Let_def)
  have rt: "r_mode (the_rules t ! unat (rid - 1)) \<noteq> PRIV_MODE"
    using arg_cong[OF t(3), of v_rules] ru rid by (simp add: admit_fresh_def Let_def)
  have neq: "?m \<noteq> ?m'" using slot_not_used[OF U(1) k'] mu by (metis insertI1)
  have shared: "n_mark n = r_mark (the_rules t ! unat (rid - 1))"
    if "marks_shared (view t)" "table t kp = Some n" "n_id n = rid" for kp n
    using that rt by (auto simp: marks_shared_def rule_ix_def)
  have bad: "\<not> view_ok (view t)"
    using shared[OF _ tt(1)] shared[OF _ tt(2)] neq by (auto simp: view_ok_def)
  obtain c d cs where cpus: "cpus = c # d # cs" using assms(11) by (cases cpus; cases "tl cpus") auto
  have "run_all run_smp ([Receive 0 ip rid, Receive 1 jp rid] @ replicate 3 (Turn 0) @ replicate 3 (Turn 1) @
      replicate 3 (Turn 0) @ replicate 3 (Turn 1)) (cpus, s) =
    Inr ((), (\<lparr>c_ip = ip, c_rid = rid, c_pc = Class ?m\<rparr> # \<lparr>c_ip = jp, c_rid = rid, c_pc = Class ?m'\<rparr> # cs, t))"
    using alloc[OF assms(2)] alloc[OF assms(3)] u(1) t(1) cpus by (simp add: run_script del: replicate.simps)
  with tt neq bad show ?thesis by force
qed

theorem smp_shared_rule_splits_witness:
  "\<exists>cpus t n m. run_all run_smp ([Receive 0 sample_ip 1, Receive 1 sample_jp 1] @ replicate 3 (Turn 0) @ replicate 3 (Turn 1) @
      replicate 3 (Turn 0) @ replicate 3 (Turn 1)) (sample_cpus, sample_idle sample_env) = Inr ((), (cpus, t)) \<and>
    table t sample_ip = Some n \<and> table t sample_jp = Some m \<and> n_id n = 1 \<and> n_id m = 1 \<and> n_mark n \<noteq> n_mark m \<and> \<not> view_ok (view t)"
proof -
  note I = sample_idle_inv[OF fits_envs(1)]
  have f: "env (sample_idle sample_env) = sample_env" "reset_flag (sample_idle sample_env) = False" "max_ip_cnt (sample_idle sample_env) = 2"
    by (simp_all add: sample_idle_def)
  show ?thesis
    using I f by (intro smp_shared_rule_splits) (simp_all add: rule_number_def zero_rule_def sample_ip_def sample_jp_def sample_cpus_def)
qed

end
