(* ===== verification/Spec2Isabelle.thy ===== *)
theory Spec2Isabelle
  imports Props_Tables Props_Tc Props_System Props_User Props_Smp Xt_Module
begin

text \<open>
  Verification of ip\_qos: a Linux kernel module that gives every client address a packet mark and a
  traffic class, with its netfilter target, iptables extension and command line tool.

  \<^bold>\<open>The program.\<close> A packet passes the target \<open>qmark\<close> (\<open>xt_kmod/xt_qmark.c\<close>), which looks the packet's
  source or destination address up in the module's hash table and writes the address's mark into the
  packet. An unknown address is admitted under the rule the target names
  (\<open>qmark_alloc_mark_auto\<close>, \<open>kmod/qos_marktbl_main.c\<close>): a mark is taken from a bitmap, or from the rule when
  the rule is shared, the address enters the table, its rule counts it, and a class, a queue and a
  filter for the mark are sent to the kernel's traffic control over rtnetlink
  (\<open>kmod/qos_marktbl_tc.c\<close>). Conntrack events count the connections of an address; when the last one ends
  the address leaves, and its mark and its class go with it unless other addresses share them.
  Administrators reach the module through ioctls on a character device
  (\<open>kmod/qos_marktbl_ioctl.c\<close>) with the tool \<open>app/qmark.c\<close>, and set the target up with
  iptables (\<open>xt_lib/libxt_qmark.c\<close>).

  \<^bold>\<open>Modelling.\<close> Every function is a computation \<open>kst \<Rightarrow> fault + 'a \<times> kst\<close> (\<open>Qos_Prelude\<close>, \<open>Qmark_State\<close>): \<open>kst\<close>
  has a field for every global of the module, and a fault is what the kernel does not survive - a NULL
  or freed pointer, an access outside an array, a division by zero, a spinlock taken twice. Pointers
  with one owner are \<open>Null\<close>, \<open>Dangling\<close> or \<open>Ptr x\<close>; the nodes of the hash table live in a heap and the buckets
  hold their addresses, because \<open>marktbl_hash_get\<close> hands out pointers that the callers write
  through. Integers are words of their C width. What kernel calls answer (memory, devices, sends,
  registrations) is the record \<open>kenv\<close>, indexed by the number of calls made so far, so that every answer may
  differ from the one before; the properties hold for all environments unless a hypothesis restricts them.
  Messages are kept in \<open>klog\<close>, requests in \<open>nl_sent\<close>, registrations in \<open>kregs\<close>.

  \<^bold>\<open>The theories.\<close>
  \<^item> \<open>Hash_Fn\<close>: \<open>hash_fn\<close> on arbitrary keys; injective on the keys of the table, no read past the key.
  \<^item> \<open>Mark_Bitmap\<close>: the bitmap and its exported calls; the locale \<open>mark_allocator\<close> states what a client may
    rely on and is interpreted on \<open>alloc_mark\<close> and \<open>free_mark\<close>.
  \<^item> \<open>Mark_Table\<close> (definitions), \<open>Mark_Table_Inv\<close> (well-formedness, \<open>table\<close> as the map it represents, the state
    transformers), \<open>Mark_Table_Spec\<close> (every operation's result on every branch), \<open>Mark_Directory\<close> (the locale
    \<open>mark_directory\<close> of lookup, insertion and deletion, interpreted on the \<open>qos_marktbl_hashtbl_\<close> calls).
  \<^item> \<open>Rule_Table\<close>: the rules, their configuration and listing.
  \<^item> \<open>Tc_Netlink\<close>, \<open>Tc_Spec\<close>: building and sending requests; the locale \<open>tc_context\<close> proves which requests a
    call sends once for states where nothing is known of the network and for states where both devices
    exist, its two interpretations.
  \<^item> \<open>Qmark_Api\<close>: the exported calls, the conntrack handler, reconfiguration.
  \<^item> \<open>Qmark_Model\<close>: the abstract specification. A view is a map from addresses to nodes, a list of rules and
    a set of marks; \<open>view_ok\<close> says that marks are separate or shared by rule, counts are right and no
    mark leaks; admission, leaving, recounting and configuring are its transitions.
  \<^item> \<open>Qmark_Inv\<close>, \<open>Qmark_Refine\<close>, \<open>Qmark_Admit\<close>, \<open>Qmark_Leave\<close>: the invariant \<open>qos_inv\<close> of the running module and the
    refinement of the transitions by the calls.
  \<^item> \<open>Module_Init\<close>, \<open>Xt_Module\<close>: loading and unloading, with every label of the error path.
  \<^item> \<open>Xt_Qmark\<close>: the packet target. \<open>Guarded_System\<close>: the locale \<open>guarded_system\<close> of machines whose calls are
    guarded, with scripts and reachable states. \<open>Qmark_System\<close>: the calls in any order, its interpretation on
    the module with \<open>qos_inv\<close>.
  \<^item> \<open>Packet_Steps\<close>: the packet path cut at the points where it holds no lock, and that the steps in a row are
    \<open>qmark_handle\<close>. \<open>Qmark_Smp\<close>: several processors whose steps interleave with each other and with the
    locked calls (events, releases, rules, listings), two more interpretations of \<open>guarded_system\<close>: one without turns that read a freed
    node, whatever is released when, and one with orderly calls, under which no turn does. Its invariant sets the marks in flight aside
    (\<open>flight_inv\<close> of \<open>Qmark_Inv\<close>), so that the lemmas of \<open>Qmark_Leave\<close> serve both machines.
  \<^item> \<open>Qmark_Admin\<close>: changing the specification, flushing, resetting, with the ways they fail.
  \<^item> \<open>Ioctl\<close>: the driver; the tool declares the interface a second time (\<open>Qmark_App\<close>), and the two are compared. \<open>C_Text\<close>: \<open>printf\<close> and \<open>sscanf\<close> as the user programs use them. \<open>Libxt_Qmark\<close>,
    \<open>Qmark_App\<close>, \<open>Qmark_App_Spec\<close>: the user programs, the tool composed with the driver.
  \<^item> \<open>Qmark_Samples\<close>: concrete states for the examples. \<open>Props_Tables\<close>, \<open>Props_Tc\<close>, \<open>Props_System\<close>,
    \<open>Props_User\<close>, \<open>Props_Smp\<close>: the properties, each with an example that its hypotheses can hold.

  \<^bold>\<open>Bounds.\<close> \<open>bitmap_wf\<close> asks for fewer than \<open>2\<^sup>2\<^sup>1\<close> addresses, the number of offsets that fit above bit 11 of a
  32-bit mark; \<open>spec_fits\<close> asks that the tables' sizes do not wrap in \<open>size_t\<close>. The loops are
  structural over the array or list the C code runs over, or come with a measure. Only \<open>packet_run\<close> has fuel:
  the rank of a packet's place is at most ten and every step lowers it, so ten steps are enough.

  \<^bold>\<open>Assumptions on callers.\<close> The code checks neither rule numbers nor that a rule is idle when it is
  changed; \<open>legal_call\<close> states these guards, and the properties on faults show what happens without them. In
  \<open>Qmark_System\<close> a call runs to its end before the next one starts. \<open>Qmark_Smp\<close> drops this for packets: a step
  is an exported call under \<open>qmark_op_lock\<close>, a bucket search under the head's lock, or an access under no
  lock. Its guards \<open>legal_smp\<close> - different addresses on different processors, private rules, no
  change of a rule a packet in hand is under - and that of \<open>orderly\<close> - no event or release for an address
  whose node is about to be read - are what the code needs and does not ensure. Without the latter the read of a
  freed node is the only fault there can be (\<open>smp_safe\<close>); three properties show the fault or the
  inconsistency when one of them is dropped. A conntrack event and a call
  under the lock are one step each, so what an unlocked access sees in the middle of one is not modelled,
  and changing the specification, flushing and resetting do not run beside packets. The spinlocks are those of a
  multiprocessor kernel; on a uniprocessor they are empty and \<open>qmark_reset\<close> does not block.

  \<^bold>\<open>Not modelled.\<close> The shell and Lua scripts and the Makefiles; the kernel's own code behind \<open>kenv\<close>;
  \<open>getopt_long\<close>, \<open>open\<close>, \<open>xtables_option_parse\<close> and \<open>xtables_register_targets\<close>, which are arguments of the models. Conversions of numbers outside the range of \<open>int\<close>, which C leaves open,
  are taken modulo \<open>2\<^sup>3\<^sup>2\<close>.
\<close>

end
